theory Spec2Isabelle
  imports Main
begin

section \<open>Exceptions\<close>

text \<open>
  Every \<open>throw\<close> of the source, and every exception of a platform function the source
  calls, is a value of this type. A function that can throw returns \<open>exn + 'a\<close>.
\<close>

datatype exn =
  CannotWriteToStdin
  | CannotReadFromNonStdin
  | SyntaxError
  | RangeError
  | TypeError

fun mapE :: "('a \<Rightarrow> exn + 'b) \<Rightarrow> 'a list \<Rightarrow> exn + 'b list" where
  "mapE f [] = Inr []"
| "mapE f (x # xs) =
     (case f x of
        Inl e \<Rightarrow> Inl e
      | Inr y \<Rightarrow> (case mapE f xs of Inl e \<Rightarrow> Inl e | Inr ys \<Rightarrow> Inr (y # ys)))"

section \<open>Array.prototype.sort with a comparator\<close>

text \<open>
  \<open>xs.sort(cmp)\<close> is a stable sort: with a comparator that is a consistent ordering the
  result is the one sorted permutation in which elements that compare equal keep their
  order. It is modelled as the insertion sort that puts an element before the first
  one it does not compare greater than.
\<close>

fun insert_sorted :: "('a \<Rightarrow> 'a \<Rightarrow> int) \<Rightarrow> 'a \<Rightarrow> 'a list \<Rightarrow> 'a list" where
  "insert_sorted cmp x [] = [x]"
| "insert_sorted cmp x (y # ys) =
     (if cmp x y \<le> 0 then x # y # ys else y # insert_sorted cmp x ys)"

definition array_sort :: "('a \<Rightarrow> 'a \<Rightarrow> int) \<Rightarrow> 'a list \<Rightarrow> 'a list" where
  "array_sort cmp xs = foldr (insert_sorted cmp) xs []"

section \<open>The editor document\<close>

text \<open>
  \<open>Text\<close> is the document type of the editor library (\<open>@codemirror/state\<close>); the source
  uses its members \<open>lines\<close>, \<open>length\<close>, \<open>line(n)\<close> and \<open>lineAt(pos)\<close>. A document is its
  list of lines, at least one; a line break counts as one position, so line
  \<open>n + 1\<close> starts one past the end of line \<open>n\<close>. \<open>line(n)\<close> takes a line number from 1
  and \<open>lineAt(pos)\<close> a position from 0 to \<open>length\<close>; both throw a \<open>RangeError\<close> outside
  their range. Strings of the editor are lists of \<open>char\<close>: code units below 256.
\<close>

type_synonym Text = "string list"

definition doc_lines :: "Text \<Rightarrow> nat" where
  "doc_lines doc = length doc"

definition doc_length :: "Text \<Rightarrow> nat" where
  "doc_length doc = sum_list (map length doc) + (length doc - 1)"

record Line =
  line_from :: nat
  line_to :: nat
  line_number :: nat
  line_text :: string

fun line_at_index :: "Text \<Rightarrow> nat \<Rightarrow> nat \<Rightarrow> nat \<Rightarrow> Line" where
  "line_at_index [] f n i = \<lparr>line_from = f, line_to = f, line_number = n, line_text = []\<rparr>"
| "line_at_index (l # ls) f n 0 =
     \<lparr>line_from = f, line_to = f + length l, line_number = n, line_text = l\<rparr>"
| "line_at_index (l # ls) f n (Suc i) = line_at_index ls (f + length l + 1) (Suc n) i"

definition doc_line :: "Text \<Rightarrow> nat \<Rightarrow> exn + Line" where
  "doc_line doc n =
     (if n < 1 \<or> n > doc_lines doc then Inl RangeError
      else Inr (line_at_index doc 0 1 (n - 1)))"

fun line_at_pos :: "Text \<Rightarrow> nat \<Rightarrow> nat \<Rightarrow> nat \<Rightarrow> Line" where
  "line_at_pos [] f n pos = \<lparr>line_from = f, line_to = f, line_number = n, line_text = []\<rparr>"
| "line_at_pos (l # ls) f n pos =
     (if pos \<le> f + length l \<or> ls = []
      then \<lparr>line_from = f, line_to = f + length l, line_number = n, line_text = l\<rparr>
      else line_at_pos ls (f + length l + 1) (Suc n) pos)"

definition doc_lineAt :: "Text \<Rightarrow> nat \<Rightarrow> exn + Line" where
  "doc_lineAt doc pos =
     (if pos > doc_length doc then Inl RangeError
      else Inr (line_at_pos doc 0 1 pos))"

section \<open>Positions\<close>

text \<open>
  A position of the language server protocol: line and character, both from 0 (the
  protocol's \<open>uinteger\<close>). \<open>posToOffset\<close> returns \<open>undefined\<close> (here \<open>None\<close>) for a
  position it cannot map.
\<close>

record position =
  line :: nat
  character :: nat

definition posToOffset :: "Text \<Rightarrow> position \<Rightarrow> exn + nat option" where
  "posToOffset doc pos =
     (if line pos \<ge> doc_lines doc then Inr None
      else case doc_line doc (line pos + 1) of
        Inl e \<Rightarrow> Inl e
      | Inr l \<Rightarrow>
          (let offset = line_from l + character pos
           in if offset > doc_length doc then Inr None else Inr (Some offset)))"

definition offsetToPos :: "Text \<Rightarrow> nat \<Rightarrow> exn + position" where
  "offsetToPos doc offset =
     (case doc_lineAt doc offset of
        Inl e \<Rightarrow> Inl e
      | Inr l \<Rightarrow> Inr \<lparr>line = line_number l - 1, character = offset - line_from l\<rparr>)"

section \<open>Diagnostics\<close>

text \<open>
  \<open>Diagnostic\<close> is the protocol's diagnostic (range, message, optional severity) and
  \<open>cm_Diagnostic\<close> the editor's (from, to, severity, message). The offsets of the
  editor's diagnostic are what \<open>posToOffset\<close> returned, so they are optional until the
  filter of \<open>handleDiagnostics\<close> has dropped the entries without one.
\<close>

record lsp_range =
  range_start :: position
  range_end :: position

datatype DiagnosticSeverity = Error | Warning | Information | Hint

datatype severity = error | warning | info

record Diagnostic =
  d_range :: lsp_range
  d_message :: string
  d_severity :: "DiagnosticSeverity option"

record cm_Diagnostic =
  cm_from :: "nat option"
  cm_to :: "nat option"
  cm_severity :: "severity option"
  cm_message :: string

record PublishDiagnosticsParams =
  pd_uri :: string
  pd_diagnostics :: "Diagnostic list"

text \<open>
  The plugin object of one editor view. \<open>view_doc\<close> is \<open>view.state.doc\<close>,
  \<open>view_diagnostics\<close> the diagnostics last given to the view with
  \<open>view.dispatch(setDiagnostics(...))\<close>, and \<open>caught\<close> the exceptions the plugin's
  \<open>handleMessage\<close> caught and logged.
\<close>

record LspPlugin =
  documentUri :: string
  languageId :: string
  documentVersion :: nat
  changesTimeout :: nat
  allowHtmlContent :: bool
  view_doc :: Text
  view_diagnostics :: "cm_Diagnostic list"
  caught :: "exn list"

fun severity_of :: "DiagnosticSeverity \<Rightarrow> severity" where
  "severity_of Error = error"
| "severity_of Warning = warning"
| "severity_of Information = info"
| "severity_of Hint = info"

definition to_cm_Diagnostic :: "Text \<Rightarrow> Diagnostic \<Rightarrow> exn + cm_Diagnostic" where
  "to_cm_Diagnostic doc d =
     (case posToOffset doc (range_start (d_range d)) of
        Inl e \<Rightarrow> Inl e
      | Inr f \<Rightarrow>
         (case posToOffset doc (range_end (d_range d)) of
            Inl e \<Rightarrow> Inl e
          | Inr t \<Rightarrow>
              Inr \<lparr>cm_from = f, cm_to = t,
                   cm_severity = map_option severity_of (d_severity d),
                   cm_message = d_message d\<rparr>))"

text \<open>
  The comparator of the sort in \<open>handleDiagnostics\<close>. A comparison with \<open>undefined\<close>
  is false in both directions, which gives 0.
\<close>

definition compare_from :: "cm_Diagnostic \<Rightarrow> cm_Diagnostic \<Rightarrow> int" where
  "compare_from a b =
     (case (cm_from a, cm_from b) of
        (Some x, Some y) \<Rightarrow> (if x < y then - 1 else if x > y then 1 else 0)
      | _ \<Rightarrow> 0)"

definition handleDiagnostics :: "PublishDiagnosticsParams \<Rightarrow> LspPlugin \<Rightarrow> exn + LspPlugin" where
  "handleDiagnostics params p =
     (if pd_uri params \<noteq> documentUri p then Inr p
      else case mapE (to_cm_Diagnostic (view_doc p)) (pd_diagnostics params) of
        Inl e \<Rightarrow> Inl e
      | Inr ds \<Rightarrow>
          Inr (p\<lparr>view_diagnostics :=
                 array_sort compare_from
                   (filter (\<lambda>d. cm_from d \<noteq> None \<and> cm_to d \<noteq> None) ds)\<rparr>))"

section \<open>Strings of the platform\<close>

text \<open>
  A string whose characters the code looks at is its list of UTF-16 code units, as
  numbers; \<open>ascii\<close> gives the string of an ASCII literal. \<open>code_points\<close> reads a string as
  code points, a high surrogate followed by a low surrogate as one code point and any
  other surrogate as itself; \<open>code_units\<close> writes a code point as one or two code units.
\<close>

type_synonym utf16 = "nat list"

definition ascii :: "string \<Rightarrow> utf16" where
  "ascii s = map of_char s"

definition code_units :: "nat \<Rightarrow> utf16" where
  "code_units cp =
     (if cp < 0x10000 then [cp]
      else [0xD800 + (cp - 0x10000) div 0x400, 0xDC00 + (cp - 0x10000) mod 0x400])"

fun code_points :: "utf16 \<Rightarrow> nat list" where
  "code_points (u # v # s) =
     (if 0xD800 \<le> u \<and> u \<le> 0xDBFF \<and> 0xDC00 \<le> v \<and> v \<le> 0xDFFF
      then (0x10000 + (u - 0xD800) * 0x400 + (v - 0xDC00)) # code_points s
      else u # code_points (v # s))"
| "code_points s = s"

text \<open>
  The tables of the Unicode Character Database (version 14.0) that \<open>toLowerCase\<close> reads.
  \<open>lowercase_mapping\<close> lists the code points with a lower-case mapping (UnicodeData.txt),
  in ascending runs \<open>(lo, hi, step, target)\<close>: the code points \<open>lo\<close>, \<open>lo + step\<close>, ...
  up to \<open>hi\<close> map to \<open>target\<close>, \<open>target + step\<close>, ... . \<open>Cased\<close> and
  \<open>Case_Ignorable\<close> list the code points with these properties
  (DerivedCoreProperties.txt), in ascending ranges \<open>(lo, hi)\<close>.
\<close>

definition lowercase_mapping :: "(nat \<times> nat \<times> nat \<times> nat) list" where
  "lowercase_mapping =
     [(0x0041, 0x005a, 1, 0x0061), (0x00c0, 0x00d6, 1, 0x00e0), (0x00d8, 0x00de, 1, 0x00f8),
      (0x0100, 0x012e, 2, 0x0101), (0x0130, 0x0130, 1, 0x0069), (0x0132, 0x0136, 2, 0x0133),
      (0x0139, 0x0147, 2, 0x013a), (0x014a, 0x0176, 2, 0x014b), (0x0178, 0x0178, 1, 0x00ff),
      (0x0179, 0x017d, 2, 0x017a), (0x0181, 0x0181, 1, 0x0253), (0x0182, 0x0184, 2, 0x0183),
      (0x0186, 0x0186, 1, 0x0254), (0x0187, 0x0187, 1, 0x0188), (0x0189, 0x018a, 1, 0x0256),
      (0x018b, 0x018b, 1, 0x018c), (0x018e, 0x018e, 1, 0x01dd), (0x018f, 0x018f, 1, 0x0259),
      (0x0190, 0x0190, 1, 0x025b), (0x0191, 0x0191, 1, 0x0192), (0x0193, 0x0193, 1, 0x0260),
      (0x0194, 0x0194, 1, 0x0263), (0x0196, 0x0196, 1, 0x0269), (0x0197, 0x0197, 1, 0x0268),
      (0x0198, 0x0198, 1, 0x0199), (0x019c, 0x019c, 1, 0x026f), (0x019d, 0x019d, 1, 0x0272),
      (0x019f, 0x019f, 1, 0x0275), (0x01a0, 0x01a4, 2, 0x01a1), (0x01a6, 0x01a6, 1, 0x0280),
      (0x01a7, 0x01a7, 1, 0x01a8), (0x01a9, 0x01a9, 1, 0x0283), (0x01ac, 0x01ac, 1, 0x01ad),
      (0x01ae, 0x01ae, 1, 0x0288), (0x01af, 0x01af, 1, 0x01b0), (0x01b1, 0x01b2, 1, 0x028a),
      (0x01b3, 0x01b5, 2, 0x01b4), (0x01b7, 0x01b7, 1, 0x0292), (0x01b8, 0x01b8, 1, 0x01b9),
      (0x01bc, 0x01bc, 1, 0x01bd), (0x01c4, 0x01c4, 1, 0x01c6), (0x01c5, 0x01c5, 1, 0x01c6),
      (0x01c7, 0x01c7, 1, 0x01c9), (0x01c8, 0x01c8, 1, 0x01c9), (0x01ca, 0x01ca, 1, 0x01cc),
      (0x01cb, 0x01db, 2, 0x01cc), (0x01de, 0x01ee, 2, 0x01df), (0x01f1, 0x01f1, 1, 0x01f3),
      (0x01f2, 0x01f4, 2, 0x01f3), (0x01f6, 0x01f6, 1, 0x0195), (0x01f7, 0x01f7, 1, 0x01bf),
      (0x01f8, 0x021e, 2, 0x01f9), (0x0220, 0x0220, 1, 0x019e), (0x0222, 0x0232, 2, 0x0223),
      (0x023a, 0x023a, 1, 0x2c65), (0x023b, 0x023b, 1, 0x023c), (0x023d, 0x023d, 1, 0x019a),
      (0x023e, 0x023e, 1, 0x2c66), (0x0241, 0x0241, 1, 0x0242), (0x0243, 0x0243, 1, 0x0180),
      (0x0244, 0x0244, 1, 0x0289), (0x0245, 0x0245, 1, 0x028c), (0x0246, 0x024e, 2, 0x0247),
      (0x0370, 0x0372, 2, 0x0371), (0x0376, 0x0376, 1, 0x0377), (0x037f, 0x037f, 1, 0x03f3),
      (0x0386, 0x0386, 1, 0x03ac), (0x0388, 0x038a, 1, 0x03ad), (0x038c, 0x038c, 1, 0x03cc),
      (0x038e, 0x038f, 1, 0x03cd), (0x0391, 0x03a1, 1, 0x03b1), (0x03a3, 0x03ab, 1, 0x03c3),
      (0x03cf, 0x03cf, 1, 0x03d7), (0x03d8, 0x03ee, 2, 0x03d9), (0x03f4, 0x03f4, 1, 0x03b8),
      (0x03f7, 0x03f7, 1, 0x03f8), (0x03f9, 0x03f9, 1, 0x03f2), (0x03fa, 0x03fa, 1, 0x03fb),
      (0x03fd, 0x03ff, 1, 0x037b), (0x0400, 0x040f, 1, 0x0450), (0x0410, 0x042f, 1, 0x0430),
      (0x0460, 0x0480, 2, 0x0461), (0x048a, 0x04be, 2, 0x048b), (0x04c0, 0x04c0, 1, 0x04cf),
      (0x04c1, 0x04cd, 2, 0x04c2), (0x04d0, 0x052e, 2, 0x04d1), (0x0531, 0x0556, 1, 0x0561),
      (0x10a0, 0x10c5, 1, 0x2d00), (0x10c7, 0x10c7, 1, 0x2d27), (0x10cd, 0x10cd, 1, 0x2d2d),
      (0x13a0, 0x13ef, 1, 0xab70), (0x13f0, 0x13f5, 1, 0x13f8), (0x1c90, 0x1cba, 1, 0x10d0),
      (0x1cbd, 0x1cbf, 1, 0x10fd), (0x1e00, 0x1e94, 2, 0x1e01), (0x1e9e, 0x1e9e, 1, 0x00df),
      (0x1ea0, 0x1efe, 2, 0x1ea1), (0x1f08, 0x1f0f, 1, 0x1f00), (0x1f18, 0x1f1d, 1, 0x1f10),
      (0x1f28, 0x1f2f, 1, 0x1f20), (0x1f38, 0x1f3f, 1, 0x1f30), (0x1f48, 0x1f4d, 1, 0x1f40),
      (0x1f59, 0x1f5f, 2, 0x1f51), (0x1f68, 0x1f6f, 1, 0x1f60), (0x1f88, 0x1f8f, 1, 0x1f80),
      (0x1f98, 0x1f9f, 1, 0x1f90), (0x1fa8, 0x1faf, 1, 0x1fa0), (0x1fb8, 0x1fb9, 1, 0x1fb0),
      (0x1fba, 0x1fbb, 1, 0x1f70), (0x1fbc, 0x1fbc, 1, 0x1fb3), (0x1fc8, 0x1fcb, 1, 0x1f72),
      (0x1fcc, 0x1fcc, 1, 0x1fc3), (0x1fd8, 0x1fd9, 1, 0x1fd0), (0x1fda, 0x1fdb, 1, 0x1f76),
      (0x1fe8, 0x1fe9, 1, 0x1fe0), (0x1fea, 0x1feb, 1, 0x1f7a), (0x1fec, 0x1fec, 1, 0x1fe5),
      (0x1ff8, 0x1ff9, 1, 0x1f78), (0x1ffa, 0x1ffb, 1, 0x1f7c), (0x1ffc, 0x1ffc, 1, 0x1ff3),
      (0x2126, 0x2126, 1, 0x03c9), (0x212a, 0x212a, 1, 0x006b), (0x212b, 0x212b, 1, 0x00e5),
      (0x2132, 0x2132, 1, 0x214e), (0x2160, 0x216f, 1, 0x2170), (0x2183, 0x2183, 1, 0x2184),
      (0x24b6, 0x24cf, 1, 0x24d0), (0x2c00, 0x2c2f, 1, 0x2c30), (0x2c60, 0x2c60, 1, 0x2c61),
      (0x2c62, 0x2c62, 1, 0x026b), (0x2c63, 0x2c63, 1, 0x1d7d), (0x2c64, 0x2c64, 1, 0x027d),
      (0x2c67, 0x2c6b, 2, 0x2c68), (0x2c6d, 0x2c6d, 1, 0x0251), (0x2c6e, 0x2c6e, 1, 0x0271),
      (0x2c6f, 0x2c6f, 1, 0x0250), (0x2c70, 0x2c70, 1, 0x0252), (0x2c72, 0x2c72, 1, 0x2c73),
      (0x2c75, 0x2c75, 1, 0x2c76), (0x2c7e, 0x2c7f, 1, 0x023f), (0x2c80, 0x2ce2, 2, 0x2c81),
      (0x2ceb, 0x2ced, 2, 0x2cec), (0x2cf2, 0x2cf2, 1, 0x2cf3), (0xa640, 0xa66c, 2, 0xa641),
      (0xa680, 0xa69a, 2, 0xa681), (0xa722, 0xa72e, 2, 0xa723), (0xa732, 0xa76e, 2, 0xa733),
      (0xa779, 0xa77b, 2, 0xa77a), (0xa77d, 0xa77d, 1, 0x1d79), (0xa77e, 0xa786, 2, 0xa77f),
      (0xa78b, 0xa78b, 1, 0xa78c), (0xa78d, 0xa78d, 1, 0x0265), (0xa790, 0xa792, 2, 0xa791),
      (0xa796, 0xa7a8, 2, 0xa797), (0xa7aa, 0xa7aa, 1, 0x0266), (0xa7ab, 0xa7ab, 1, 0x025c),
      (0xa7ac, 0xa7ac, 1, 0x0261), (0xa7ad, 0xa7ad, 1, 0x026c), (0xa7ae, 0xa7ae, 1, 0x026a),
      (0xa7b0, 0xa7b0, 1, 0x029e), (0xa7b1, 0xa7b1, 1, 0x0287), (0xa7b2, 0xa7b2, 1, 0x029d),
      (0xa7b3, 0xa7b3, 1, 0xab53), (0xa7b4, 0xa7c2, 2, 0xa7b5), (0xa7c4, 0xa7c4, 1, 0xa794),
      (0xa7c5, 0xa7c5, 1, 0x0282), (0xa7c6, 0xa7c6, 1, 0x1d8e), (0xa7c7, 0xa7c9, 2, 0xa7c8),
      (0xa7d0, 0xa7d0, 1, 0xa7d1), (0xa7d6, 0xa7d8, 2, 0xa7d7), (0xa7f5, 0xa7f5, 1, 0xa7f6),
      (0xff21, 0xff3a, 1, 0xff41), (0x10400, 0x10427, 1, 0x10428),
      (0x104b0, 0x104d3, 1, 0x104d8), (0x10570, 0x1057a, 1, 0x10597),
      (0x1057c, 0x1058a, 1, 0x105a3), (0x1058c, 0x10592, 1, 0x105b3),
      (0x10594, 0x10595, 1, 0x105bb), (0x10c80, 0x10cb2, 1, 0x10cc0),
      (0x118a0, 0x118bf, 1, 0x118c0), (0x16e40, 0x16e5f, 1, 0x16e60),
      (0x1e900, 0x1e921, 1, 0x1e922)]"

definition Cased :: "(nat \<times> nat) list" where
  "Cased =
     [(0x0041, 0x005a), (0x0061, 0x007a), (0x00aa, 0x00aa), (0x00b5, 0x00b5), (0x00ba, 0x00ba),
      (0x00c0, 0x00d6), (0x00d8, 0x00f6), (0x00f8, 0x01ba), (0x01bc, 0x01bf), (0x01c4, 0x0293),
      (0x0295, 0x02b8), (0x02c0, 0x02c1), (0x02e0, 0x02e4), (0x0345, 0x0345), (0x0370, 0x0373),
      (0x0376, 0x0377), (0x037a, 0x037d), (0x037f, 0x037f), (0x0386, 0x0386), (0x0388, 0x038a),
      (0x038c, 0x038c), (0x038e, 0x03a1), (0x03a3, 0x03f5), (0x03f7, 0x0481), (0x048a, 0x052f),
      (0x0531, 0x0556), (0x0560, 0x0588), (0x10a0, 0x10c5), (0x10c7, 0x10c7), (0x10cd, 0x10cd),
      (0x10d0, 0x10fa), (0x10fd, 0x10ff), (0x13a0, 0x13f5), (0x13f8, 0x13fd), (0x1c80, 0x1c88),
      (0x1c90, 0x1cba), (0x1cbd, 0x1cbf), (0x1d00, 0x1dbf), (0x1e00, 0x1f15), (0x1f18, 0x1f1d),
      (0x1f20, 0x1f45), (0x1f48, 0x1f4d), (0x1f50, 0x1f57), (0x1f59, 0x1f59), (0x1f5b, 0x1f5b),
      (0x1f5d, 0x1f5d), (0x1f5f, 0x1f7d), (0x1f80, 0x1fb4), (0x1fb6, 0x1fbc), (0x1fbe, 0x1fbe),
      (0x1fc2, 0x1fc4), (0x1fc6, 0x1fcc), (0x1fd0, 0x1fd3), (0x1fd6, 0x1fdb), (0x1fe0, 0x1fec),
      (0x1ff2, 0x1ff4), (0x1ff6, 0x1ffc), (0x2071, 0x2071), (0x207f, 0x207f), (0x2090, 0x209c),
      (0x2102, 0x2102), (0x2107, 0x2107), (0x210a, 0x2113), (0x2115, 0x2115), (0x2119, 0x211d),
      (0x2124, 0x2124), (0x2126, 0x2126), (0x2128, 0x2128), (0x212a, 0x212d), (0x212f, 0x2134),
      (0x2139, 0x2139), (0x213c, 0x213f), (0x2145, 0x2149), (0x214e, 0x214e), (0x2160, 0x217f),
      (0x2183, 0x2184), (0x24b6, 0x24e9), (0x2c00, 0x2ce4), (0x2ceb, 0x2cee), (0x2cf2, 0x2cf3),
      (0x2d00, 0x2d25), (0x2d27, 0x2d27), (0x2d2d, 0x2d2d), (0xa640, 0xa66d), (0xa680, 0xa69d),
      (0xa722, 0xa787), (0xa78b, 0xa78e), (0xa790, 0xa7ca), (0xa7d0, 0xa7d1), (0xa7d3, 0xa7d3),
      (0xa7d5, 0xa7d9), (0xa7f5, 0xa7f6), (0xa7f8, 0xa7fa), (0xab30, 0xab5a), (0xab5c, 0xab68),
      (0xab70, 0xabbf), (0xfb00, 0xfb06), (0xfb13, 0xfb17), (0xff21, 0xff3a), (0xff41, 0xff5a),
      (0x10400, 0x1044f), (0x104b0, 0x104d3), (0x104d8, 0x104fb), (0x10570, 0x1057a),
      (0x1057c, 0x1058a), (0x1058c, 0x10592), (0x10594, 0x10595), (0x10597, 0x105a1),
      (0x105a3, 0x105b1), (0x105b3, 0x105b9), (0x105bb, 0x105bc), (0x10780, 0x10780),
      (0x10783, 0x10785), (0x10787, 0x107b0), (0x107b2, 0x107ba), (0x10c80, 0x10cb2),
      (0x10cc0, 0x10cf2), (0x118a0, 0x118df), (0x16e40, 0x16e7f), (0x1d400, 0x1d454),
      (0x1d456, 0x1d49c), (0x1d49e, 0x1d49f), (0x1d4a2, 0x1d4a2), (0x1d4a5, 0x1d4a6),
      (0x1d4a9, 0x1d4ac), (0x1d4ae, 0x1d4b9), (0x1d4bb, 0x1d4bb), (0x1d4bd, 0x1d4c3),
      (0x1d4c5, 0x1d505), (0x1d507, 0x1d50a), (0x1d50d, 0x1d514), (0x1d516, 0x1d51c),
      (0x1d51e, 0x1d539), (0x1d53b, 0x1d53e), (0x1d540, 0x1d544), (0x1d546, 0x1d546),
      (0x1d54a, 0x1d550), (0x1d552, 0x1d6a5), (0x1d6a8, 0x1d6c0), (0x1d6c2, 0x1d6da),
      (0x1d6dc, 0x1d6fa), (0x1d6fc, 0x1d714), (0x1d716, 0x1d734), (0x1d736, 0x1d74e),
      (0x1d750, 0x1d76e), (0x1d770, 0x1d788), (0x1d78a, 0x1d7a8), (0x1d7aa, 0x1d7c2),
      (0x1d7c4, 0x1d7cb), (0x1df00, 0x1df09), (0x1df0b, 0x1df1e), (0x1e900, 0x1e943),
      (0x1f130, 0x1f149), (0x1f150, 0x1f169), (0x1f170, 0x1f189)]"

definition Case_Ignorable :: "(nat \<times> nat) list" where
  "Case_Ignorable =
     [(0x0027, 0x0027), (0x002e, 0x002e), (0x003a, 0x003a), (0x005e, 0x005e), (0x0060, 0x0060),
      (0x00a8, 0x00a8), (0x00ad, 0x00ad), (0x00af, 0x00af), (0x00b4, 0x00b4), (0x00b7, 0x00b8),
      (0x02b0, 0x036f), (0x0374, 0x0375), (0x037a, 0x037a), (0x0384, 0x0385), (0x0387, 0x0387),
      (0x0483, 0x0489), (0x0559, 0x0559), (0x055f, 0x055f), (0x0591, 0x05bd), (0x05bf, 0x05bf),
      (0x05c1, 0x05c2), (0x05c4, 0x05c5), (0x05c7, 0x05c7), (0x05f4, 0x05f4), (0x0600, 0x0605),
      (0x0610, 0x061a), (0x061c, 0x061c), (0x0640, 0x0640), (0x064b, 0x065f), (0x0670, 0x0670),
      (0x06d6, 0x06dd), (0x06df, 0x06e8), (0x06ea, 0x06ed), (0x070f, 0x070f), (0x0711, 0x0711),
      (0x0730, 0x074a), (0x07a6, 0x07b0), (0x07eb, 0x07f5), (0x07fa, 0x07fa), (0x07fd, 0x07fd),
      (0x0816, 0x082d), (0x0859, 0x085b), (0x0888, 0x0888), (0x0890, 0x0891), (0x0898, 0x089f),
      (0x08c9, 0x0902), (0x093a, 0x093a), (0x093c, 0x093c), (0x0941, 0x0948), (0x094d, 0x094d),
      (0x0951, 0x0957), (0x0962, 0x0963), (0x0971, 0x0971), (0x0981, 0x0981), (0x09bc, 0x09bc),
      (0x09c1, 0x09c4), (0x09cd, 0x09cd), (0x09e2, 0x09e3), (0x09fe, 0x09fe), (0x0a01, 0x0a02),
      (0x0a3c, 0x0a3c), (0x0a41, 0x0a42), (0x0a47, 0x0a48), (0x0a4b, 0x0a4d), (0x0a51, 0x0a51),
      (0x0a70, 0x0a71), (0x0a75, 0x0a75), (0x0a81, 0x0a82), (0x0abc, 0x0abc), (0x0ac1, 0x0ac5),
      (0x0ac7, 0x0ac8), (0x0acd, 0x0acd), (0x0ae2, 0x0ae3), (0x0afa, 0x0aff), (0x0b01, 0x0b01),
      (0x0b3c, 0x0b3c), (0x0b3f, 0x0b3f), (0x0b41, 0x0b44), (0x0b4d, 0x0b4d), (0x0b55, 0x0b56),
      (0x0b62, 0x0b63), (0x0b82, 0x0b82), (0x0bc0, 0x0bc0), (0x0bcd, 0x0bcd), (0x0c00, 0x0c00),
      (0x0c04, 0x0c04), (0x0c3c, 0x0c3c), (0x0c3e, 0x0c40), (0x0c46, 0x0c48), (0x0c4a, 0x0c4d),
      (0x0c55, 0x0c56), (0x0c62, 0x0c63), (0x0c81, 0x0c81), (0x0cbc, 0x0cbc), (0x0cbf, 0x0cbf),
      (0x0cc6, 0x0cc6), (0x0ccc, 0x0ccd), (0x0ce2, 0x0ce3), (0x0d00, 0x0d01), (0x0d3b, 0x0d3c),
      (0x0d41, 0x0d44), (0x0d4d, 0x0d4d), (0x0d62, 0x0d63), (0x0d81, 0x0d81), (0x0dca, 0x0dca),
      (0x0dd2, 0x0dd4), (0x0dd6, 0x0dd6), (0x0e31, 0x0e31), (0x0e34, 0x0e3a), (0x0e46, 0x0e4e),
      (0x0eb1, 0x0eb1), (0x0eb4, 0x0ebc), (0x0ec6, 0x0ec6), (0x0ec8, 0x0ecd), (0x0f18, 0x0f19),
      (0x0f35, 0x0f35), (0x0f37, 0x0f37), (0x0f39, 0x0f39), (0x0f71, 0x0f7e), (0x0f80, 0x0f84),
      (0x0f86, 0x0f87), (0x0f8d, 0x0f97), (0x0f99, 0x0fbc), (0x0fc6, 0x0fc6), (0x102d, 0x1030),
      (0x1032, 0x1037), (0x1039, 0x103a), (0x103d, 0x103e), (0x1058, 0x1059), (0x105e, 0x1060),
      (0x1071, 0x1074), (0x1082, 0x1082), (0x1085, 0x1086), (0x108d, 0x108d), (0x109d, 0x109d),
      (0x10fc, 0x10fc), (0x135d, 0x135f), (0x1712, 0x1714), (0x1732, 0x1733), (0x1752, 0x1753),
      (0x1772, 0x1773), (0x17b4, 0x17b5), (0x17b7, 0x17bd), (0x17c6, 0x17c6), (0x17c9, 0x17d3),
      (0x17d7, 0x17d7), (0x17dd, 0x17dd), (0x180b, 0x180f), (0x1843, 0x1843), (0x1885, 0x1886),
      (0x18a9, 0x18a9), (0x1920, 0x1922), (0x1927, 0x1928), (0x1932, 0x1932), (0x1939, 0x193b),
      (0x1a17, 0x1a18), (0x1a1b, 0x1a1b), (0x1a56, 0x1a56), (0x1a58, 0x1a5e), (0x1a60, 0x1a60),
      (0x1a62, 0x1a62), (0x1a65, 0x1a6c), (0x1a73, 0x1a7c), (0x1a7f, 0x1a7f), (0x1aa7, 0x1aa7),
      (0x1ab0, 0x1ace), (0x1b00, 0x1b03), (0x1b34, 0x1b34), (0x1b36, 0x1b3a), (0x1b3c, 0x1b3c),
      (0x1b42, 0x1b42), (0x1b6b, 0x1b73), (0x1b80, 0x1b81), (0x1ba2, 0x1ba5), (0x1ba8, 0x1ba9),
      (0x1bab, 0x1bad), (0x1be6, 0x1be6), (0x1be8, 0x1be9), (0x1bed, 0x1bed), (0x1bef, 0x1bf1),
      (0x1c2c, 0x1c33), (0x1c36, 0x1c37), (0x1c78, 0x1c7d), (0x1cd0, 0x1cd2), (0x1cd4, 0x1ce0),
      (0x1ce2, 0x1ce8), (0x1ced, 0x1ced), (0x1cf4, 0x1cf4), (0x1cf8, 0x1cf9), (0x1d2c, 0x1d6a),
      (0x1d78, 0x1d78), (0x1d9b, 0x1dff), (0x1fbd, 0x1fbd), (0x1fbf, 0x1fc1), (0x1fcd, 0x1fcf),
      (0x1fdd, 0x1fdf), (0x1fed, 0x1fef), (0x1ffd, 0x1ffe), (0x200b, 0x200f), (0x2018, 0x2019),
      (0x2024, 0x2024), (0x2027, 0x2027), (0x202a, 0x202e), (0x2060, 0x2064), (0x2066, 0x206f),
      (0x2071, 0x2071), (0x207f, 0x207f), (0x2090, 0x209c), (0x20d0, 0x20f0), (0x2c7c, 0x2c7d),
      (0x2cef, 0x2cf1), (0x2d6f, 0x2d6f), (0x2d7f, 0x2d7f), (0x2de0, 0x2dff), (0x2e2f, 0x2e2f),
      (0x3005, 0x3005), (0x302a, 0x302d), (0x3031, 0x3035), (0x303b, 0x303b), (0x3099, 0x309e),
      (0x30fc, 0x30fe), (0xa015, 0xa015), (0xa4f8, 0xa4fd), (0xa60c, 0xa60c), (0xa66f, 0xa672),
      (0xa674, 0xa67d), (0xa67f, 0xa67f), (0xa69c, 0xa69f), (0xa6f0, 0xa6f1), (0xa700, 0xa721),
      (0xa770, 0xa770), (0xa788, 0xa78a), (0xa7f2, 0xa7f4), (0xa7f8, 0xa7f9), (0xa802, 0xa802),
      (0xa806, 0xa806), (0xa80b, 0xa80b), (0xa825, 0xa826), (0xa82c, 0xa82c), (0xa8c4, 0xa8c5),
      (0xa8e0, 0xa8f1), (0xa8ff, 0xa8ff), (0xa926, 0xa92d), (0xa947, 0xa951), (0xa980, 0xa982),
      (0xa9b3, 0xa9b3), (0xa9b6, 0xa9b9), (0xa9bc, 0xa9bd), (0xa9cf, 0xa9cf), (0xa9e5, 0xa9e6),
      (0xaa29, 0xaa2e), (0xaa31, 0xaa32), (0xaa35, 0xaa36), (0xaa43, 0xaa43), (0xaa4c, 0xaa4c),
      (0xaa70, 0xaa70), (0xaa7c, 0xaa7c), (0xaab0, 0xaab0), (0xaab2, 0xaab4), (0xaab7, 0xaab8),
      (0xaabe, 0xaabf), (0xaac1, 0xaac1), (0xaadd, 0xaadd), (0xaaec, 0xaaed), (0xaaf3, 0xaaf4),
      (0xaaf6, 0xaaf6), (0xab5b, 0xab5f), (0xab69, 0xab6b), (0xabe5, 0xabe5), (0xabe8, 0xabe8),
      (0xabed, 0xabed), (0xfb1e, 0xfb1e), (0xfbb2, 0xfbc2), (0xfe00, 0xfe0f), (0xfe13, 0xfe13),
      (0xfe20, 0xfe2f), (0xfe52, 0xfe52), (0xfe55, 0xfe55), (0xfeff, 0xfeff), (0xff07, 0xff07),
      (0xff0e, 0xff0e), (0xff1a, 0xff1a), (0xff3e, 0xff3e), (0xff40, 0xff40), (0xff70, 0xff70),
      (0xff9e, 0xff9f), (0xffe3, 0xffe3), (0xfff9, 0xfffb), (0x101fd, 0x101fd),
      (0x102e0, 0x102e0), (0x10376, 0x1037a), (0x10780, 0x10785), (0x10787, 0x107b0),
      (0x107b2, 0x107ba), (0x10a01, 0x10a03), (0x10a05, 0x10a06), (0x10a0c, 0x10a0f),
      (0x10a38, 0x10a3a), (0x10a3f, 0x10a3f), (0x10ae5, 0x10ae6), (0x10d24, 0x10d27),
      (0x10eab, 0x10eac), (0x10f46, 0x10f50), (0x10f82, 0x10f85), (0x11001, 0x11001),
      (0x11038, 0x11046), (0x11070, 0x11070), (0x11073, 0x11074), (0x1107f, 0x11081),
      (0x110b3, 0x110b6), (0x110b9, 0x110ba), (0x110bd, 0x110bd), (0x110c2, 0x110c2),
      (0x110cd, 0x110cd), (0x11100, 0x11102), (0x11127, 0x1112b), (0x1112d, 0x11134),
      (0x11173, 0x11173), (0x11180, 0x11181), (0x111b6, 0x111be), (0x111c9, 0x111cc),
      (0x111cf, 0x111cf), (0x1122f, 0x11231), (0x11234, 0x11234), (0x11236, 0x11237),
      (0x1123e, 0x1123e), (0x112df, 0x112df), (0x112e3, 0x112ea), (0x11300, 0x11301),
      (0x1133b, 0x1133c), (0x11340, 0x11340), (0x11366, 0x1136c), (0x11370, 0x11374),
      (0x11438, 0x1143f), (0x11442, 0x11444), (0x11446, 0x11446), (0x1145e, 0x1145e),
      (0x114b3, 0x114b8), (0x114ba, 0x114ba), (0x114bf, 0x114c0), (0x114c2, 0x114c3),
      (0x115b2, 0x115b5), (0x115bc, 0x115bd), (0x115bf, 0x115c0), (0x115dc, 0x115dd),
      (0x11633, 0x1163a), (0x1163d, 0x1163d), (0x1163f, 0x11640), (0x116ab, 0x116ab),
      (0x116ad, 0x116ad), (0x116b0, 0x116b5), (0x116b7, 0x116b7), (0x1171d, 0x1171f),
      (0x11722, 0x11725), (0x11727, 0x1172b), (0x1182f, 0x11837), (0x11839, 0x1183a),
      (0x1193b, 0x1193c), (0x1193e, 0x1193e), (0x11943, 0x11943), (0x119d4, 0x119d7),
      (0x119da, 0x119db), (0x119e0, 0x119e0), (0x11a01, 0x11a0a), (0x11a33, 0x11a38),
      (0x11a3b, 0x11a3e), (0x11a47, 0x11a47), (0x11a51, 0x11a56), (0x11a59, 0x11a5b),
      (0x11a8a, 0x11a96), (0x11a98, 0x11a99), (0x11c30, 0x11c36), (0x11c38, 0x11c3d),
      (0x11c3f, 0x11c3f), (0x11c92, 0x11ca7), (0x11caa, 0x11cb0), (0x11cb2, 0x11cb3),
      (0x11cb5, 0x11cb6), (0x11d31, 0x11d36), (0x11d3a, 0x11d3a), (0x11d3c, 0x11d3d),
      (0x11d3f, 0x11d45), (0x11d47, 0x11d47), (0x11d90, 0x11d91), (0x11d95, 0x11d95),
      (0x11d97, 0x11d97), (0x11ef3, 0x11ef4), (0x13430, 0x13438), (0x16af0, 0x16af4),
      (0x16b30, 0x16b36), (0x16b40, 0x16b43), (0x16f4f, 0x16f4f), (0x16f8f, 0x16f9f),
      (0x16fe0, 0x16fe1), (0x16fe3, 0x16fe4), (0x1aff0, 0x1aff3), (0x1aff5, 0x1affb),
      (0x1affd, 0x1affe), (0x1bc9d, 0x1bc9e), (0x1bca0, 0x1bca3), (0x1cf00, 0x1cf2d),
      (0x1cf30, 0x1cf46), (0x1d167, 0x1d169), (0x1d173, 0x1d182), (0x1d185, 0x1d18b),
      (0x1d1aa, 0x1d1ad), (0x1d242, 0x1d244), (0x1da00, 0x1da36), (0x1da3b, 0x1da6c),
      (0x1da75, 0x1da75), (0x1da84, 0x1da84), (0x1da9b, 0x1da9f), (0x1daa1, 0x1daaf),
      (0x1e000, 0x1e006), (0x1e008, 0x1e018), (0x1e01b, 0x1e021), (0x1e023, 0x1e024),
      (0x1e026, 0x1e02a), (0x1e130, 0x1e13d), (0x1e2ae, 0x1e2ae), (0x1e2ec, 0x1e2ef),
      (0x1e8d0, 0x1e8d6), (0x1e944, 0x1e94b), (0x1f3fb, 0x1f3ff), (0xe0001, 0xe0001),
      (0xe0020, 0xe007f), (0xe0100, 0xe01ef)]"

fun simple_lowercase :: "(nat \<times> nat \<times> nat \<times> nat) list \<Rightarrow> nat \<Rightarrow> nat" where
  "simple_lowercase [] cp = cp"
| "simple_lowercase ((lo, hi, step, target) # runs) cp =
     (if cp < lo then cp
      else if cp \<le> hi \<and> (cp - lo) mod step = 0 then target + (cp - lo)
      else simple_lowercase runs cp)"

fun in_ranges :: "(nat \<times> nat) list \<Rightarrow> nat \<Rightarrow> bool" where
  "in_ranges [] cp = False"
| "in_ranges ((lo, hi) # ranges) cp =
     (if cp < lo then False else if cp \<le> hi then True else in_ranges ranges cp)"

text \<open>
  \<open>s.toLowerCase()\<close> maps the code points of \<open>s\<close> by the default case conversion of
  Unicode: the lower-case mapping of the code point, but U+0130 gives U+0069 U+0307, and
  U+03A3 (capital sigma) gives the final sigma U+03C2 instead of U+03C3 when it ends a
  word (SpecialCasing.txt): when the nearest code point before it that is not
  case-ignorable is cased, and the nearest one after it that is not case-ignorable is
  not cased or there is none. \<open>before\<close> holds the code points already passed.
\<close>

definition Final_Sigma :: "nat list \<Rightarrow> nat list \<Rightarrow> bool" where
  "Final_Sigma before after =
     (let b = dropWhile (in_ranges Case_Ignorable) (rev before);
          a = dropWhile (in_ranges Case_Ignorable) after
      in b \<noteq> [] \<and> in_ranges Cased (hd b) \<and> \<not> (a \<noteq> [] \<and> in_ranges Cased (hd a)))"

fun toLowercase :: "nat list \<Rightarrow> nat list \<Rightarrow> nat list" where
  "toLowercase before [] = []"
| "toLowercase before (cp # after) =
     (if cp = 0x03A3 then [if Final_Sigma before after then 0x03C2 else 0x03C3]
      else if cp = 0x0130 then [0x0069, 0x0307]
      else [simple_lowercase lowercase_mapping cp])
     @ toLowercase (before @ [cp]) after"

definition toLowerCase :: "utf16 \<Rightarrow> utf16" where
  "toLowerCase s = concat (map code_units (toLowercase [] (code_points s)))"

text \<open>
  \<open>s.startsWith(p)\<close>, and the test of the regular expression \<open>/^\<bsol>w+$/\<close>, whose \<open>\<bsol>w\<close> is a
  letter of A-Z or a-z, a digit or the underscore.
\<close>

definition startsWith :: "'a list \<Rightarrow> 'a list \<Rightarrow> bool" where
  "startsWith s p = (take (length p) s = p)"

definition is_word_char :: "nat \<Rightarrow> bool" where
  "is_word_char u =
     ((0x30 \<le> u \<and> u \<le> 0x39) \<or> (0x41 \<le> u \<and> u \<le> 0x5A) \<or> (0x61 \<le> u \<and> u \<le> 0x7A) \<or> u = 0x5F)"

definition test_word :: "utf16 \<Rightarrow> bool" where
  "test_word w = (w \<noteq> [] \<and> list_all is_word_char w)"

section \<open>Completion\<close>

text \<open>
  The documentation of a completion item is a string, an object with a \<open>value\<close> (a
  \<open>MarkupContent\<close> or a marked string with its language), or an array of these.
\<close>

datatype contents = CString utf16 | CValue utf16 | CArray "contents list"

fun formatContents :: "contents \<Rightarrow> utf16" where
  "formatContents (CArray cs) = concat (map (\<lambda>c. formatContents c @ [0x0A, 0x0A]) cs)"
| "formatContents (CString s) = s"
| "formatContents (CValue v) = v"

record TextEdit =
  te_range :: lsp_range
  newText :: utf16

record CompletionItem =
  item_label :: utf16
  item_detail :: "utf16 option"
  item_kind :: "nat option"
  item_textEdit :: "TextEdit option"
  item_documentation :: "contents option"
  item_sortText :: "utf16 option"
  item_filterText :: "utf16 option"

text \<open>
  The option handed to the editor: the editor's \<open>Completion\<close> with the fields
  \<open>filterText\<close>, \<open>sortText\<close> and \<open>apply\<close> the source adds. \<open>c_type\<close> is \<open>None\<close> when the
  source leaves \<open>type\<close> falsy (no kind, or kind 0).
\<close>

record Completion =
  c_label :: utf16
  c_detail :: "utf16 option"
  c_apply :: utf16
  c_type :: "utf16 option"
  c_sortText :: utf16
  c_filterText :: utf16
  c_info :: "utf16 option"

text \<open>
  \<open>CompletionItemKind\<close> is the protocol's table of completion kinds; the source inverts it
  into \<open>CompletionItemKindMap\<close>, from the number to the name.
\<close>

definition CompletionItemKind :: "(utf16 \<times> nat) list" where
  "CompletionItemKind =
     map (\<lambda>(key, v). (ascii key, v))
       [(''Text'', 1), (''Method'', 2), (''Function'', 3), (''Constructor'', 4), (''Field'', 5),
        (''Variable'', 6), (''Class'', 7), (''Interface'', 8), (''Module'', 9),
        (''Property'', 10), (''Unit'', 11), (''Value'', 12), (''Enum'', 13), (''Keyword'', 14),
        (''Snippet'', 15), (''Color'', 16), (''File'', 17), (''Reference'', 18),
        (''Folder'', 19), (''EnumMember'', 20), (''Constant'', 21), (''Struct'', 22),
        (''Event'', 23), (''Operator'', 24), (''TypeParameter'', 25)]"

definition CompletionItemKindMap :: "nat \<Rightarrow> utf16 option" where
  "CompletionItemKindMap = map_of (map (\<lambda>(key, v). (v, key)) CompletionItemKind)"

text \<open>
  The function mapped over the items in \<open>requestCompletion\<close>. A kind that is not in the
  table makes \<open>CompletionItemKindMap[kind].toLowerCase()\<close> throw a \<open>TypeError\<close>. An empty
  documentation string is falsy and gives no \<open>info\<close>.
\<close>

definition toCompletion :: "CompletionItem \<Rightarrow> exn + Completion" where
  "toCompletion item =
     (case (case item_kind item of
              None \<Rightarrow> Inr None
            | Some k \<Rightarrow>
                if k = 0 then Inr None
                else (case CompletionItemKindMap k of
                        None \<Rightarrow> Inl TypeError
                      | Some name \<Rightarrow> Inr (Some (toLowerCase name)))) of
        Inl e \<Rightarrow> Inl e
      | Inr ty \<Rightarrow>
          Inr \<lparr>c_label = item_label item,
               c_detail = item_detail item,
               c_apply = (case item_textEdit item of Some e \<Rightarrow> newText e | None \<Rightarrow> item_label item),
               c_type = ty,
               c_sortText = (case item_sortText item of Some s \<Rightarrow> s | None \<Rightarrow> item_label item),
               c_filterText = (case item_filterText item of Some s \<Rightarrow> s | None \<Rightarrow> item_label item),
               c_info = (case item_documentation item of
                           None \<Rightarrow> None
                         | Some d \<Rightarrow> if d = CString [] then None else Some (formatContents d))\<rparr>)"

text \<open>
  \<open>token\<close> is what \<open>context.matchBefore(match)\<close> returns when the pattern matches before
  the cursor: the matched text, where it starts and the cursor position where it ends.
\<close>

record token =
  tok_from :: nat
  tok_to :: nat
  tok_text :: utf16

record CompletionResult =
  result_from :: nat
  result_options :: "Completion list"

text \<open>The comparator of the sort in \<open>requestCompletion\<close>, for the typed text \<open>t\<close>.\<close>

definition compare_apply :: "utf16 \<Rightarrow> Completion \<Rightarrow> Completion \<Rightarrow> int" where
  "compare_apply t a b =
     (if startsWith (c_apply a) t \<and> \<not> startsWith (c_apply b) t then - 1
      else if \<not> startsWith (c_apply a) t \<and> startsWith (c_apply b) t then 1
      else 0)"

text \<open>
  The end of \<open>requestCompletion\<close>, from \<open>let { pos } = context\<close>: \<open>tok\<close> is the result of
  \<open>context.matchBefore(match)\<close> (\<open>None\<close> for \<open>null\<close>), \<open>pos\<close> the cursor position
  \<open>context.pos\<close> and \<open>options\<close> the mapped items.
\<close>

definition completionResult :: "token option \<Rightarrow> nat \<Rightarrow> Completion list \<Rightarrow> CompletionResult" where
  "completionResult tok pos options =
     (case tok of
        None \<Rightarrow> \<lparr>result_from = pos, result_options = options\<rparr>
      | Some t \<Rightarrow>
          (let word = toLowerCase (tok_text t)
           in if test_word word
              then \<lparr>result_from = tok_from t,
                    result_options =
                      array_sort (compare_apply (tok_text t))
                        (filter (\<lambda>opt. startsWith (toLowerCase (c_filterText opt)) word) options)\<rparr>
              else \<lparr>result_from = tok_from t, result_options = options\<rparr>))"

text \<open>
  \<open>requestCompletion\<close> after the response has arrived: \<open>result\<close> is the list of items of
  the response (\<open>None\<close> for \<open>null\<close>) and \<open>matchBefore\<close> stands for the editor's
  \<open>context.matchBefore\<close> applied to the pattern that \<open>prefixMatch\<close> builds from the options.
\<close>

definition requestCompletion_result ::
  "(Completion list \<Rightarrow> token option) \<Rightarrow> nat \<Rightarrow> CompletionItem list option
     \<Rightarrow> exn + CompletionResult option" where
  "requestCompletion_result matchBefore pos result =
     (case result of
        None \<Rightarrow> Inr None
      | Some items \<Rightarrow>
          (case mapE toCompletion items of
             Inl e \<Rightarrow> Inl e
           | Inr options \<Rightarrow> Inr (Some (completionResult (matchBefore options) pos options))))"

section \<open>JSON-RPC messages\<close>

text \<open>
  A value of type \<open>any\<close> that came out of \<open>JSON.parse\<close>; \<open>undefined\<close> is \<open>None\<close> of
  \<open>json option\<close>. Numbers are integers here. \<open>truthy\<close> is the test an \<open>if\<close> makes.
\<close>

datatype json =
  JNull
  | JBool bool
  | JNumber int
  | JString string
  | JArray "json list"
  | JObject "(string \<times> json) list"

fun truthy :: "json \<Rightarrow> bool" where
  "truthy JNull = False"
| "truthy (JBool b) = b"
| "truthy (JNumber n) = (n \<noteq> 0)"
| "truthy (JString s) = (s \<noteq> [])"
| "truthy (JArray xs) = True"
| "truthy (JObject kvs) = True"

fun get_property :: "json option \<Rightarrow> string \<Rightarrow> exn + json option" where
  "get_property None key = Inl TypeError"
| "get_property (Some JNull) key = Inl TypeError"
| "get_property (Some (JObject kvs)) key = Inr (map_of kvs key)"
| "get_property (Some v) key = Inr None"

datatype JsonRpcId = IdNumber int | IdString string

text \<open>
  The \<open>params\<close> of the messages the source builds or reads, by shape; \<open>OtherParams\<close> is any
  other value. The fields are: uri, language, text and version of
  \<open>textDocument/didOpen\<close>; uri, version and the full text of \<open>textDocument/didChange\<close>; uri,
  position, trigger kind and trigger character of \<open>textDocument/completion\<close>; the root uri
  of \<open>initialize\<close>.
\<close>

datatype params =
  DidOpenTextDocumentParams string string string nat
  | DidChangeTextDocumentParams string nat string
  | PublishDiagnostics PublishDiagnosticsParams
  | CompletionParams string position nat "string option"
  | InitializeParams string
  | OtherParams json

text \<open>A message; its \<open>jsonrpc\<close> field is always "2.0" and is left out.\<close>

record JsonRpcMessage =
  msg_id :: "JsonRpcId option"
  msg_method :: "string option"
  msg_params :: "params option"
  msg_result :: "json option"
  msg_error :: "json option"

section \<open>Promises\<close>

text \<open>
  The promises of the client live in a heap, a list indexed by their handles. An
  \<open>await\<close> of an \<open>async\<close> method registers the rest of the method on the promise, as a
  \<open>continuation\<close>; settling the promise moves its continuations, with the outcome, to the
  microtask queue, and the event loop runs the queue. A promise settles once: resolving
  or rejecting a settled promise does nothing.

  \<^item> \<open>AwaitRequest rid returned\<close>: \<open>request\<close> at \<open>await promise\<close>, with its id \<open>rid\<close> and the promise
    the call returned.
  \<^item> \<open>AwaitInitialize\<close>: \<open>LspClient.initialize\<close> at the \<open>await\<close> of its request.
  \<^item> \<open>AwaitInitializePromise i text\<close>: \<open>initialize\<close> of plugin \<open>i\<close> at
    \<open>await this.client.initializePromise\<close>.
\<close>

datatype settled = Pending | Fulfilled "json option" | Rejected "json option"

datatype continuation =
  AwaitRequest JsonRpcId nat
  | AwaitInitialize
  | AwaitInitializePromise nat string

section \<open>The client\<close>

text \<open>
  \<open>client_id\<close> is the field \<open>id\<close>. An entry of \<open>outboundRequests\<close> holds a promise with its
  \<open>resolve\<close> and \<open>reject\<close>: here the handle of the promise. \<open>plugins\<close> holds the attached
  plugin objects, which a plugin's handle indexes. \<open>sendMessage\<close> is abstract in the
  source: \<open>sent\<close> lists the messages it was called with. \<open>console\<close> lists the lines
  written with \<open>console.error\<close>.
\<close>

record LspClient =
  client_id :: int
  outboundRequests :: "JsonRpcId \<Rightarrow> nat option"
  rootUri :: string
  autoClose :: bool
  plugins :: "LspPlugin list"
  isOpen :: bool
  initializePromise :: "nat option"
  capabilities :: "json option"
  promises :: "settled list"
  continuations :: "(nat \<times> continuation) list"
  microtasks :: "(continuation \<times> settled) list"
  sent :: "JsonRpcMessage list"
  console :: "string list"

definition new_LspClient :: "string \<Rightarrow> LspClient" where
  "new_LspClient root =
     \<lparr>client_id = 0, outboundRequests = Map.empty, rootUri = root, autoClose = True,
      plugins = [], isOpen = False, initializePromise = None, capabilities = None,
      promises = [], continuations = [], microtasks = [], sent = [], console = []\<rparr>"

definition sendMessage :: "JsonRpcMessage \<Rightarrow> LspClient \<Rightarrow> LspClient" where
  "sendMessage m c = c\<lparr>sent := sent c @ [m]\<rparr>"

definition settle :: "nat \<Rightarrow> settled \<Rightarrow> LspClient \<Rightarrow> LspClient" where
  "settle h outcome c =
     (if h < length (promises c) \<and> promises c ! h = Pending
      then c\<lparr>promises := (promises c)[h := outcome],
             microtasks := microtasks c @
               map (\<lambda>hk. (snd hk, outcome)) (filter (\<lambda>hk. fst hk = h) (continuations c)),
             continuations := filter (\<lambda>hk. fst hk \<noteq> h) (continuations c)\<rparr>
      else c)"

definition await :: "nat \<Rightarrow> continuation \<Rightarrow> LspClient \<Rightarrow> LspClient" where
  "await h k c =
     (if h < length (promises c) \<and> promises c ! h \<noteq> Pending
      then c\<lparr>microtasks := microtasks c @ [(k, promises c ! h)]\<rparr>
      else c\<lparr>continuations := continuations c @ [(h, k)]\<rparr>)"

definition notify :: "string \<Rightarrow> params option \<Rightarrow> LspClient \<Rightarrow> LspClient" where
  "notify method ps c =
     sendMessage \<lparr>msg_id = None, msg_method = Some method, msg_params = ps,
                  msg_result = None, msg_error = None\<rparr> c"

text \<open>
  \<open>request\<close> up to its \<open>await\<close>: it returns the handle of the promise the call returns.
  The promise of the entry is the next one in the heap.
\<close>

definition request :: "string \<Rightarrow> params option \<Rightarrow> LspClient \<Rightarrow> nat \<times> LspClient" where
  "request method ps c =
     (let rid = client_id c;
          returned = length (promises c);
          promise = Suc returned;
          c1 = c\<lparr>client_id := rid + 1, promises := promises c @ [Pending, Pending]\<rparr>;
          c2 = c1\<lparr>outboundRequests := (outboundRequests c1)(IdNumber rid \<mapsto> promise)\<rparr>;
          c3 = sendMessage \<lparr>msg_id = Some (IdNumber rid), msg_method = Some method,
                            msg_params = ps, msg_result = None, msg_error = None\<rparr> c2
      in (returned, await promise (AwaitRequest (IdNumber rid) returned) c3))"

definition textDocumentDidOpen :: "params \<Rightarrow> LspClient \<Rightarrow> LspClient" where
  "textDocumentDidOpen ps c = notify ''textDocument/didOpen'' (Some ps) c"

definition textDocumentDidChange :: "params \<Rightarrow> LspClient \<Rightarrow> LspClient" where
  "textDocumentDidChange ps c = notify ''textDocument/didChange'' (Some ps) c"

definition textDocumentCompletion :: "params \<Rightarrow> LspClient \<Rightarrow> nat \<times> LspClient" where
  "textDocumentCompletion ps c = request ''textDocument/completion'' (Some ps) c"

definition LspClient_initialize :: "LspClient \<Rightarrow> LspClient" where
  "LspClient_initialize c =
     (case request ''initialize'' (Some (InitializeParams (rootUri c))) c of
        (returned, c1) \<Rightarrow> await returned AwaitInitialize c1)"

definition attachPlugin :: "LspPlugin \<Rightarrow> LspClient \<Rightarrow> LspClient" where
  "attachPlugin p c = c\<lparr>plugins := plugins c @ [p]\<rparr>"

section \<open>The plugin\<close>

fun doc_toString :: "Text \<Rightarrow> string" where
  "doc_toString [] = []"
| "doc_toString [l] = l"
| "doc_toString (l # ls) = l @ CHR 0x0A # doc_toString ls"

text \<open>
  \<open>initialize\<close> of plugin \<open>i\<close> after its \<open>await\<close>, or from its start when the client has no
  \<open>initializePromise\<close>.
\<close>

definition LspPlugin_initialize_resume :: "nat \<Rightarrow> string \<Rightarrow> LspClient \<Rightarrow> LspClient" where
  "LspPlugin_initialize_resume i documentText c =
     (let p = plugins c ! i
      in textDocumentDidOpen
           (DidOpenTextDocumentParams (documentUri p) (languageId p) documentText
              (documentVersion p)) c)"

definition LspPlugin_initialize :: "nat \<Rightarrow> string \<Rightarrow> LspClient \<Rightarrow> LspClient" where
  "LspPlugin_initialize i documentText c =
     (case initializePromise c of
        Some h \<Rightarrow> await h (AwaitInitializePromise i documentText) c
      | None \<Rightarrow> LspPlugin_initialize_resume i documentText c)"

text \<open>
  The constructor: \<open>doc\<close> is the document of the view, \<open>uri\<close> and \<open>lang\<close> the values of the
  facets \<open>documentUri\<close> and \<open>languageId\<close>. It returns the handle of the new plugin.
\<close>

definition new_LspPlugin ::
  "Text \<Rightarrow> bool \<Rightarrow> string \<Rightarrow> string \<Rightarrow> LspClient \<Rightarrow> nat \<times> LspClient" where
  "new_LspPlugin doc allowHtml uri lang c =
     (let p = \<lparr>documentUri = uri, languageId = lang, documentVersion = 0, changesTimeout = 0,
               allowHtmlContent = allowHtml, view_doc = doc, view_diagnostics = [],
               caught = []\<rparr>;
          i = length (plugins c)
      in (i, LspPlugin_initialize i (doc_toString doc) (attachPlugin p c)))"

text \<open>
  \<open>sendChange\<close> of plugin \<open>i\<close>. The version of the notification is the value of
  \<open>this.documentVersion++\<close>: the counter before the increment.
\<close>

definition sendChange :: "nat \<Rightarrow> string \<Rightarrow> LspClient \<Rightarrow> LspClient" where
  "sendChange i documentText c =
     (if \<not> isOpen c then c
      else let p = plugins c ! i;
               version = documentVersion p;
               c1 = c\<lparr>plugins := (plugins c)[i := p\<lparr>documentVersion := documentVersion p + 1\<rparr>]\<rparr>
           in textDocumentDidChange
                (DidChangeTextDocumentParams (documentUri p) version documentText) c1)"

definition LspPlugin_update :: "nat \<Rightarrow> bool \<Rightarrow> LspClient \<Rightarrow> LspClient" where
  "LspPlugin_update i docChanged c =
     (if \<not> docChanged then c
      else sendChange i (doc_toString (view_doc (plugins c ! i))) c)"

text \<open>
  \<open>requestCompletion\<close> of plugin \<open>i\<close> up to its \<open>await\<close>: \<open>None\<close> when it returns \<open>null\<close>
  at once, else the handle of the promise of its request.
\<close>

definition requestCompletion ::
  "nat \<Rightarrow> Text \<Rightarrow> position \<Rightarrow> nat \<Rightarrow> string option \<Rightarrow> LspClient
     \<Rightarrow> exn + (nat option \<times> LspClient)" where
  "requestCompletion i doc pos triggerKind triggerCharacter c =
     (if \<not> isOpen c then Inr (None, c)
      else case get_property (capabilities c) ''completionProvider'' of
        Inl e \<Rightarrow> Inl e
      | Inr provider \<Rightarrow>
          if \<not> (case provider of Some v \<Rightarrow> truthy v | None \<Rightarrow> False) then Inr (None, c)
          else (case textDocumentCompletion
                       (CompletionParams (documentUri (plugins c ! i)) pos triggerKind
                          triggerCharacter)
                       (sendChange i (doc_toString doc) c) of
                  (returned, c1) \<Rightarrow> Inr (Some returned, c1)))"

text \<open>
  A diagnostic read off a value of the message, as the function that \<open>handleDiagnostics\<close>
  maps over the list reads it: \<open>range.start\<close>, then \<open>line\<close> and \<open>character\<close> of the start,
  \<open>range.end\<close> with its \<open>line\<close> and \<open>character\<close>, and the severity, which is looked up in the
  table of the four severities and is \<open>undefined\<close> for any other value. An entry that is
  \<open>null\<close>, or whose \<open>range\<close>, \<open>start\<close> or \<open>end\<close> is missing or \<open>null\<close>, throws a \<open>TypeError\<close>
  at the property read; a negative line makes the editor's \<open>doc.line\<close> throw a
  \<open>RangeError\<close>. Lines, characters and messages are the protocol's unsigned integers and
  strings. What the platform's conversions make of a line or character of another kind
  is not followed here: such an entry is read as one that throws a \<open>TypeError\<close>, and a
  message of another kind as the empty string.
\<close>

definition position_of_json :: "json option \<Rightarrow> exn + position" where
  "position_of_json pos =
     (case get_property pos ''line'' of
        Inl e \<Rightarrow> Inl e
      | Inr (Some (JNumber a)) \<Rightarrow>
          if a < 0 then Inl RangeError
          else (case get_property pos ''character'' of
                  Inr (Some (JNumber b)) \<Rightarrow>
                    if b < 0 then Inl TypeError else Inr \<lparr>line = nat a, character = nat b\<rparr>
                | _ \<Rightarrow> Inl TypeError)
      | Inr other \<Rightarrow> Inl TypeError)"

definition DiagnosticSeverity_of_json :: "json option \<Rightarrow> DiagnosticSeverity option" where
  "DiagnosticSeverity_of_json v =
     (if v = Some (JNumber 1) then Some Error
      else if v = Some (JNumber 2) then Some Warning
      else if v = Some (JNumber 3) then Some Information
      else if v = Some (JNumber 4) then Some Hint
      else None)"

definition Diagnostic_of_json :: "json \<Rightarrow> exn + Diagnostic" where
  "Diagnostic_of_json d =
     (case get_property (Some d) ''range'' of
        Inl e \<Rightarrow> Inl e
      | Inr rng \<Rightarrow>
          (case get_property rng ''start'' of
             Inl e \<Rightarrow> Inl e
           | Inr s \<Rightarrow>
               (case position_of_json s of
                  Inl e \<Rightarrow> Inl e
                | Inr start \<Rightarrow>
                    (case get_property rng ''end'' of
                       Inl e \<Rightarrow> Inl e
                     | Inr t \<Rightarrow>
                         (case position_of_json t of
                            Inl e \<Rightarrow> Inl e
                          | Inr end_pos \<Rightarrow>
                              Inr \<lparr>d_range = \<lparr>range_start = start, range_end = end_pos\<rparr>,
                                   d_message =
                                     (case get_property (Some d) ''message'' of
                                        Inr (Some (JString msg)) \<Rightarrow> msg
                                      | _ \<Rightarrow> []),
                                   d_severity =
                                     (case get_property (Some d) ''severity'' of
                                        Inr v \<Rightarrow> DiagnosticSeverity_of_json v
                                      | Inl e \<Rightarrow> None)\<rparr>)))))"

text \<open>
  \<open>handleMessage\<close> of a plugin: an exception of \<open>handleDiagnostics\<close> is caught and logged.
  The params of the message are a \<open>PublishDiagnosticsParams\<close>, or are missing, or are
  another value. Reading \<open>params.uri\<close> of missing or \<open>null\<close> params throws a \<open>TypeError\<close>;
  params without the document's \<open>uri\<close> are ignored (the params of the other shapes have
  no \<open>uri\<close> of their own); params with the document's \<open>uri\<close> whose \<open>diagnostics\<close> is not a
  list throw a \<open>TypeError\<close> at \<open>params.diagnostics.map\<close>.
\<close>

definition LspPlugin_handleMessage :: "JsonRpcMessage \<Rightarrow> LspPlugin \<Rightarrow> LspPlugin" where
  "LspPlugin_handleMessage m p =
     (if msg_method m = Some ''textDocument/publishDiagnostics''
      then (case msg_params m of
              None \<Rightarrow> p\<lparr>caught := caught p @ [TypeError]\<rparr>
            | Some (PublishDiagnostics ps) \<Rightarrow>
                (case handleDiagnostics ps p of
                   Inl e \<Rightarrow> p\<lparr>caught := caught p @ [e]\<rparr>
                 | Inr p' \<Rightarrow> p')
            | Some (OtherParams j) \<Rightarrow>
                (case get_property (Some j) ''uri'' of
                   Inl e \<Rightarrow> p\<lparr>caught := caught p @ [e]\<rparr>
                 | Inr uri \<Rightarrow>
                     if uri \<noteq> Some (JString (documentUri p)) then p
                     else (case get_property (Some j) ''diagnostics'' of
                             Inr (Some (JArray ds)) \<Rightarrow>
                               (case mapE Diagnostic_of_json ds of
                                  Inl e \<Rightarrow> p\<lparr>caught := caught p @ [e]\<rparr>
                                | Inr diagnostics \<Rightarrow>
                                    (case handleDiagnostics
                                            \<lparr>pd_uri = documentUri p,
                                             pd_diagnostics = diagnostics\<rparr> p of
                                       Inl e \<Rightarrow> p\<lparr>caught := caught p @ [e]\<rparr>
                                     | Inr p' \<Rightarrow> p'))
                           | _ \<Rightarrow> p\<lparr>caught := caught p @ [TypeError]\<rparr>))
            | Some other \<Rightarrow> p)
      else p)"

definition handleMessage :: "JsonRpcMessage \<Rightarrow> LspClient \<Rightarrow> LspClient" where
  "handleMessage m c =
     (let c1 =
        (if msg_id m \<noteq> None \<and> msg_method m = None
         then (case outboundRequests c (the (msg_id m)) of
                 Some req \<Rightarrow>
                   if (case msg_error m of Some e \<Rightarrow> truthy e | None \<Rightarrow> False)
                   then settle req (Rejected (msg_error m)) c
                   else settle req (Fulfilled (msg_result m)) c
               | None \<Rightarrow> c\<lparr>console := console c @ [''Got non-answer'']\<rparr>)
         else c)
      in c1\<lparr>plugins := map (LspPlugin_handleMessage m) (plugins c1)\<rparr>)"

section \<open>The event loop\<close>

text \<open>
  \<open>resume k outcome\<close> runs the rest of an \<open>async\<close> method after its \<open>await\<close>:
  \<^item> \<open>request\<close> deletes its entry and returns the result when the promise was fulfilled;
    when it was rejected the \<open>await\<close> throws, the \<open>delete\<close> after it is not reached and the
    returned promise is rejected;
  \<^item> \<open>LspClient.initialize\<close> reads \<open>capabilities\<close> off the result, sends \<open>initialized\<close> and sets
    \<open>isOpen\<close>; a result without the property is a \<open>TypeError\<close>, which ends the method;
  \<^item> the plugin's \<open>initialize\<close> sends \<open>textDocument/didOpen\<close>.
\<close>

fun resume :: "continuation \<Rightarrow> settled \<Rightarrow> LspClient \<Rightarrow> LspClient" where
  "resume (AwaitRequest rid returned) (Fulfilled v) c =
     settle returned (Fulfilled v) (c\<lparr>outboundRequests := (outboundRequests c)(rid := None)\<rparr>)"
| "resume (AwaitRequest rid returned) (Rejected e) c = settle returned (Rejected e) c"
| "resume AwaitInitialize (Fulfilled v) c =
     (case get_property v ''capabilities'' of
        Inl e \<Rightarrow> c
      | Inr caps \<Rightarrow> (notify ''initialized'' (Some (OtherParams (JObject []))) (c\<lparr>capabilities := caps\<rparr>))
                     \<lparr>isOpen := True\<rparr>)"
| "resume (AwaitInitializePromise i documentText) (Fulfilled v) c =
     LspPlugin_initialize_resume i documentText c"
| "resume k outcome c = c"

definition run_microtask :: "LspClient \<Rightarrow> LspClient" where
  "run_microtask c =
     (case microtasks c of
        [] \<Rightarrow> c
      | (k, outcome) # rest \<Rightarrow> resume k outcome (c\<lparr>microtasks := rest\<rparr>))"

text \<open>
  What happens to a client between two calls of its methods: a message arrives and
  \<open>handleMessage\<close> is called, or the event loop runs the next microtask.
\<close>

datatype event = Message JsonRpcMessage | Microtask

fun step :: "LspClient \<Rightarrow> event \<Rightarrow> LspClient" where
  "step c (Message m) = handleMessage m c"
| "step c Microtask = run_microtask c"

definition run :: "event list \<Rightarrow> LspClient \<Rightarrow> LspClient" where
  "run evs c = foldl step c evs"

section \<open>Bytes and strings of the worker\<close>

text \<open>
  A byte is a \<open>char\<close>. A string of the worker is its list of UTF-16 code units.
\<close>

type_synonym byte = char

text \<open>
  \<open>new TextDecoder("utf-8").decode(bytes)\<close>: the UTF-8 decoder of the Encoding standard.
  A malformed or truncated sequence gives one U+FFFD and decoding goes on at the byte
  that did not fit; a byte order mark at the start is dropped; a code point from
  0x10000 is two code units.
\<close>

record utf8_decoder =
  code_point :: nat
  bytes_seen :: nat
  bytes_needed :: nat
  lower_boundary :: nat
  upper_boundary :: nat

definition utf8_start :: utf8_decoder where
  "utf8_start = \<lparr>code_point = 0, bytes_seen = 0, bytes_needed = 0,
                  lower_boundary = 0x80, upper_boundary = 0xBF\<rparr>"

text \<open>The decoder on a byte when no byte of a sequence is pending.\<close>

definition utf8_lead :: "nat \<Rightarrow> nat list \<times> utf8_decoder" where
  "utf8_lead b =
     (if b \<le> 0x7F then ([b], utf8_start)
      else if 0xC2 \<le> b \<and> b \<le> 0xDF
        then ([], utf8_start\<lparr>bytes_needed := 1, code_point := b mod 0x20\<rparr>)
      else if 0xE0 \<le> b \<and> b \<le> 0xEF
        then ([], utf8_start\<lparr>bytes_needed := 2, code_point := b mod 0x10,
                 lower_boundary := (if b = 0xE0 then 0xA0 else 0x80),
                 upper_boundary := (if b = 0xED then 0x9F else 0xBF)\<rparr>)
      else if 0xF0 \<le> b \<and> b \<le> 0xF4
        then ([], utf8_start\<lparr>bytes_needed := 3, code_point := b mod 0x08,
                 lower_boundary := (if b = 0xF0 then 0x90 else 0x80),
                 upper_boundary := (if b = 0xF4 then 0x8F else 0xBF)\<rparr>)
      else ([0xFFFD], utf8_start))"

text \<open>
  The decoder on a byte: the code points it emits and its next state. A byte that does
  not continue the pending sequence ends it with U+FFFD and is read again as a first
  byte.
\<close>

definition utf8_byte :: "utf8_decoder \<Rightarrow> nat \<Rightarrow> nat list \<times> utf8_decoder" where
  "utf8_byte d b =
     (if bytes_needed d = 0 then utf8_lead b
      else if \<not> (lower_boundary d \<le> b \<and> b \<le> upper_boundary d)
        then (0xFFFD # fst (utf8_lead b), snd (utf8_lead b))
      else let cp = code_point d * 0x40 + b mod 0x40
           in if Suc (bytes_seen d) \<noteq> bytes_needed d
              then ([], d\<lparr>lower_boundary := 0x80, upper_boundary := 0xBF, code_point := cp,
                        bytes_seen := Suc (bytes_seen d)\<rparr>)
              else ([cp], utf8_start))"

fun utf8_bytes :: "utf8_decoder \<Rightarrow> nat list \<Rightarrow> nat list" where
  "utf8_bytes d [] = (if bytes_needed d \<noteq> 0 then [0xFFFD] else [])"
| "utf8_bytes d (b # bs) = fst (utf8_byte d b) @ utf8_bytes (snd (utf8_byte d b)) bs"

definition utf8_code_points :: "nat list \<Rightarrow> nat list" where
  "utf8_code_points bytes = utf8_bytes utf8_start bytes"

definition TextDecoder_decode :: "byte list \<Rightarrow> utf16" where
  "TextDecoder_decode bytes =
     (let cps = utf8_code_points (map of_char bytes)
      in concat (map code_units (case cps of cp # rest \<Rightarrow> if cp = 0xFEFF then rest else cps
                                           | [] \<Rightarrow> [])))"

text \<open>
  A number that can be \<open>NaN\<close> is an \<open>int option\<close>, \<open>None\<close> for \<open>NaN\<close>. The lengths here are
  far below the range where a number stops being exact.

  \<open>parseInt(s)\<close> skips white space, reads a sign, reads the prefix \<open>0x\<close> or \<open>0X\<close> of a
  hexadecimal number, and takes the longest run of digits; without a digit it is \<open>NaN\<close>.
\<close>

definition is_white_space :: "nat \<Rightarrow> bool" where
  "is_white_space u =
     ((0x09 \<le> u \<and> u \<le> 0x0D) \<or> u = 0x20 \<or> u = 0xA0 \<or> u = 0x1680
      \<or> (0x2000 \<le> u \<and> u \<le> 0x200A) \<or> u = 0x2028 \<or> u = 0x2029 \<or> u = 0x202F
      \<or> u = 0x205F \<or> u = 0x3000 \<or> u = 0xFEFF)"

definition digit_value :: "nat \<Rightarrow> nat \<Rightarrow> nat option" where
  "digit_value radix u =
     (let v = (if 0x30 \<le> u \<and> u \<le> 0x39 then u - 0x30
               else if 0x61 \<le> u \<and> u \<le> 0x7A then u - 0x61 + 10
               else if 0x41 \<le> u \<and> u \<le> 0x5A then u - 0x41 + 10
               else radix)
      in if v < radix then Some v else None)"

definition parseInt :: "utf16 \<Rightarrow> int option" where
  "parseInt s =
     (let s1 = dropWhile is_white_space s;
          negative = (s1 \<noteq> [] \<and> hd s1 = 0x2D);
          s2 = (if s1 \<noteq> [] \<and> (hd s1 = 0x2B \<or> hd s1 = 0x2D) then tl s1 else s1);
          hex = (length s2 \<ge> 2 \<and> hd s2 = 0x30 \<and> (s2 ! 1 = 0x78 \<or> s2 ! 1 = 0x58));
          radix = (if hex then 16 else 10);
          s3 = (if hex then drop 2 s2 else s2);
          digits = takeWhile (\<lambda>u. digit_value radix u \<noteq> None) s3;
          n = foldl (\<lambda>acc u. acc * radix + the (digit_value radix u)) 0 digits
      in if digits = [] then None
         else Some (if negative then - int n else int n))"

text \<open>
  \<open>s.indexOf(p)\<close>, -1 when \<open>p\<close> does not occur; \<open>s.slice(start)\<close> and \<open>s.slice(start, end)\<close>,
  where a negative index counts from the end and \<open>NaN\<close> is 0; \<open>xs.splice(0, count)\<close>, which
  removes nothing for a count that is negative or \<open>NaN\<close>.
\<close>

fun indexOf_from :: "'a list \<Rightarrow> 'a list \<Rightarrow> nat \<Rightarrow> int" where
  "indexOf_from [] p i = (if p = [] then int i else - 1)"
| "indexOf_from (x # xs) p i =
     (if startsWith (x # xs) p then int i else indexOf_from xs p (Suc i))"

definition indexOf :: "'a list \<Rightarrow> 'a list \<Rightarrow> int" where
  "indexOf s p = indexOf_from s p 0"

definition relative_index :: "nat \<Rightarrow> int option \<Rightarrow> nat" where
  "relative_index n k =
     (case k of
        None \<Rightarrow> 0
      | Some i \<Rightarrow> if i < 0 then nat (int n + i) else min (nat i) n)"

definition slice_from :: "'a list \<Rightarrow> int option \<Rightarrow> 'a list" where
  "slice_from s start = drop (relative_index (length s) start) s"

definition slice :: "'a list \<Rightarrow> int option \<Rightarrow> int option \<Rightarrow> 'a list" where
  "slice s start end =
     (let from = relative_index (length s) start;
          to = relative_index (length s) end
      in take (to - from) (drop from s))"

definition splice0 :: "'a list \<Rightarrow> int option \<Rightarrow> 'a list" where
  "splice0 xs count = (case count of None \<Rightarrow> xs | Some k \<Rightarrow> drop (nat k) xs)"

section \<open>The standard streams of the worker\<close>

datatype StdioKind = stdin | stdout | stderr

text \<open>
  A \<open>Stdio\<close> object. \<open>posted\<close> lists the messages it gave to \<open>postMessage\<close> and \<open>debugged\<close> the
  lines it gave to \<open>console.debug\<close>. The type \<open>'m\<close> is the type of a parsed message.
\<close>

record 'm Stdio =
  kind :: StdioKind
  buffer :: "byte list"
  posted :: "'m list"
  debugged :: "(StdioKind \<times> utf16) list"

definition new_Stdio :: "StdioKind \<Rightarrow> 'm Stdio" where
  "new_Stdio k = \<lparr>kind = k, buffer = [], posted = [], debugged = []\<rparr>"

record Iovec =
  buf :: nat
  buf_len :: nat

text \<open>
  The \<open>while (true)\<close> loop of the stdout branch of \<open>fd_write\<close>. \<open>JSON_parse\<close> is the platform's
  \<open>JSON.parse\<close>, \<open>None\<close> where it throws a \<open>SyntaxError\<close>. The loop returns the exception
  that ended it, if one did, and the object as the loop left it; it is \<open>None\<close> when the
  loop does not end. \<open>bodyStart\<close> is never -1, since 4 has been added to it.
\<close>

partial_function (option) stdout_loop ::
  "(utf16 \<Rightarrow> 'm option) \<Rightarrow> 'm Stdio \<Rightarrow> (exn option \<times> 'm Stdio) option" where
  "stdout_loop JSON_parse s =
     (let data = TextDecoder_decode (buffer s)
      in if \<not> startsWith data (ascii ''Content-Length: '') then Some (None, s)
         else
           let len = parseInt (slice_from data (Some (int (length ''Content-Length: ''))));
               bodyStart = indexOf data (ascii [CHR 0x0D, CHR 0x0A, CHR 0x0D, CHR 0x0A]) + 4;
               bodyEnd = map_option (\<lambda>l. bodyStart + l) len
           in if bodyStart = - 1 then Some (None, s)
              else if (case bodyEnd of None \<Rightarrow> False | Some e \<Rightarrow> int (length (buffer s)) < e)
              then Some (None, s)
              else
                case JSON_parse (slice data (Some bodyStart) bodyEnd) of
                  None \<Rightarrow> Some (Some SyntaxError, s\<lparr>buffer := splice0 (buffer s) bodyEnd\<rparr>)
                | Some m \<Rightarrow>
                    stdout_loop JSON_parse
                      (s\<lparr>buffer := splice0 (buffer s) bodyEnd, posted := posted s @ [m]\<rparr>))"

declare stdout_loop.simps [code]

text \<open>The \<open>while\<close> loop of the stderr branch: one line of the buffer at a time.\<close>

function stderr_loop :: "'m Stdio \<Rightarrow> 'm Stdio" where
  "stderr_loop s =
     (if CHR 0x0A \<in> set (buffer s)
      then let n = length (takeWhile (\<lambda>b. b \<noteq> CHR 0x0A) (buffer s)) + 1
           in stderr_loop
                (s\<lparr>buffer := drop n (buffer s),
                   debugged := debugged s @ [(kind s, TextDecoder_decode (take n (buffer s)))]\<rparr>)
      else s)"
  by pat_completeness auto
termination
  by (relation "measure (\<lambda>s. length (buffer s))") (auto dest: length_pos_if_in_set)

text \<open>
  \<open>fd_write\<close>: \<open>view8\<close> is the memory of the WebAssembly instance and \<open>iovs\<close> the vectors to
  write. The result is \<open>{ret: 0, nwritten}\<close> or the exception thrown, with the object as
  the call left it.
\<close>

fun fd_write_iovs ::
  "(utf16 \<Rightarrow> 'm option) \<Rightarrow> byte list \<Rightarrow> Iovec list \<Rightarrow> nat \<Rightarrow> 'm Stdio
     \<Rightarrow> ((exn + nat \<times> nat) \<times> 'm Stdio) option" where
  "fd_write_iovs JSON_parse view8 [] nwritten s = Some (Inr (0, nwritten), s)"
| "fd_write_iovs JSON_parse view8 (iovec # iovs) nwritten s =
     (let sl = take (buf_len iovec) (drop (buf iovec) view8)
      in case kind s of
           stdin \<Rightarrow> Some (Inl CannotWriteToStdin, s)
         | stdout \<Rightarrow>
             (case stdout_loop JSON_parse (s\<lparr>buffer := buffer s @ sl\<rparr>) of
                None \<Rightarrow> None
              | Some (Some e, s1) \<Rightarrow> Some (Inl e, s1)
              | Some (None, s1) \<Rightarrow>
                  fd_write_iovs JSON_parse view8 iovs (nwritten + buf_len iovec) s1)
         | stderr \<Rightarrow>
             fd_write_iovs JSON_parse view8 iovs (nwritten + buf_len iovec)
               (stderr_loop (s\<lparr>buffer := buffer s @ sl\<rparr>)))"

definition fd_write ::
  "(utf16 \<Rightarrow> 'm option) \<Rightarrow> byte list \<Rightarrow> Iovec list \<Rightarrow> 'm Stdio
     \<Rightarrow> ((exn + nat \<times> nat) \<times> 'm Stdio) option" where
  "fd_write JSON_parse view8 iovs s = fd_write_iovs JSON_parse view8 iovs 0 s"

section \<open>The shared channel\<close>

text \<open>
  Modelled from the spec: the class \<open>Sharer\<close> (module \<open>./sharer\<close>) is not among the
  sources. Of it \<open>fd_read\<close> uses \<open>index\<close>, the count of valid bytes in the payload (the
  spec's \<open>length\<close>), and \<open>dataBuffer\<close>, the payload buffer of fixed size; \<open>lock\<close> and
  \<open>unlock\<close> bracket the loop of \<open>fd_read\<close>, so that nothing else changes the channel
  while it runs.
\<close>

record Sharer =
  index :: nat
  dataBuffer :: "byte list"

text \<open>
  The loop of \<open>fd_read\<close> over the vectors. \<open>view8.set(sl, iovec.buf)\<close> throws a \<open>RangeError\<close>
  when the bytes do not fit into the memory, and \<open>new Uint8Array(sharer.dataBuffer, read)\<close>
  when \<open>read\<close> is beyond the buffer. The \<open>set\<close> of the buffer onto itself moves the bytes
  from \<open>read\<close> on to the front and leaves the last \<open>read\<close> bytes as they were.
\<close>

fun fd_read_iovs ::
  "byte list \<Rightarrow> Iovec list \<Rightarrow> nat \<Rightarrow> Sharer \<Rightarrow> (exn + nat) \<times> byte list \<times> Sharer" where
  "fd_read_iovs view8 [] nread sh = (Inr nread, view8, sh)"
| "fd_read_iovs view8 (iovec # iovs) nread sh =
     (let read = min (buf_len iovec) (index sh);
          sl = take read (dataBuffer sh)
      in if buf iovec + length sl > length view8 then (Inl RangeError, view8, sh)
         else
           let view8' = take (buf iovec) view8 @ sl @ drop (buf iovec + length sl) view8
           in if read > length (dataBuffer sh) then (Inl RangeError, view8', sh)
              else
                fd_read_iovs view8' iovs (nread + read)
                  (sh\<lparr>dataBuffer :=
                        drop read (dataBuffer sh)
                          @ drop (length (dataBuffer sh) - read) (dataBuffer sh),
                      index := index sh - read\<rparr>))"

text \<open>
  \<open>fd_read\<close>: \<open>sh\<close> is the channel when the call starts. With no valid byte in it the
  call waits on the block buffer until the controller has written and notified, and
  goes on with the channel as the controller left it, \<open>woken\<close>. The result is
  \<open>{ret: 0, nread}\<close> or the exception thrown, with the memory and the channel as the
  call left them.
\<close>

definition fd_read ::
  "'m Stdio \<Rightarrow> byte list \<Rightarrow> Iovec list \<Rightarrow> Sharer \<Rightarrow> Sharer
     \<Rightarrow> (exn + nat \<times> nat) \<times> byte list \<times> Sharer" where
  "fd_read s view8 iovs woken sh =
     (if kind s \<noteq> stdin then (Inl CannotReadFromNonStdin, view8, sh)
      else case fd_read_iovs view8 iovs 0 (if index sh = 0 then woken else sh) of
             (Inl e, view8', sh') \<Rightarrow> (Inl e, view8', sh')
           | (Inr nread, view8', sh') \<Rightarrow> (Inr (0, nread), view8', sh'))"

section \<open>Requests issued together\<close>

text \<open>
  \<open>requests\<close> calls \<open>request\<close> once for each method and params of a list, one call after
  the other with nothing in between, and returns the promises the calls returned.
  \<open>response_outcome\<close> is what \<open>handleMessage\<close> settles the promise of a response with:
  rejected with the error when the error is truthy, else fulfilled with the result.
  \<open>messages\<close> are the messages among the events.
\<close>

definition requests :: "(string \<times> params option) list \<Rightarrow> LspClient \<Rightarrow> nat list \<times> LspClient" where
  "requests reqs c =
     foldl (\<lambda>hc req. case request (fst req) (snd req) (snd hc) of
                         (h, c1) \<Rightarrow> (fst hc @ [h], c1))
       ([], c) reqs"

definition response_outcome :: "JsonRpcMessage \<Rightarrow> settled" where
  "response_outcome m =
     (if (case msg_error m of Some e \<Rightarrow> truthy e | None \<Rightarrow> False)
      then Rejected (msg_error m) else Fulfilled (msg_result m))"

fun messages :: "event list \<Rightarrow> JsonRpcMessage list" where
  "messages [] = []"
| "messages (Message m # evs) = m # messages evs"
| "messages (Microtask # evs) = messages evs"

text \<open>
  The invariant of a client that the theorems about its requests start from: every
  suspended \<open>request\<close>, registered on a promise or queued as a microtask, has an id below
  the counter \<open>id\<close> (or a string) and returns a promise of the heap. A new client
  satisfies it and every method keeps it.
\<close>

fun old_continuation :: "nat \<Rightarrow> int \<Rightarrow> continuation \<Rightarrow> bool" where
  "old_continuation n i (AwaitRequest (IdNumber m) r) = (m < i \<and> r < n)"
| "old_continuation n i (AwaitRequest (IdString s) r) = (r < n)"
| "old_continuation n i k = True"

definition client_inv :: "LspClient \<Rightarrow> bool" where
  "client_inv c =
     (list_all (\<lambda>hk. old_continuation (length (promises c)) (client_id c) (snd hk))
        (continuations c)
      \<and> list_all (\<lambda>ks. old_continuation (length (promises c)) (client_id c) (fst ks))
        (microtasks c))"

text \<open>
  The state of \<open>N\<close> requests issued together from a client with \<open>n0\<close> promises and the
  counter at \<open>i0\<close>, while their responses arrive: request \<open>k\<close> has the id \<open>i0 + k\<close>, returned
  the promise \<open>n0 + 2 * k\<close> and waits on the next one, and \<open>issued n0 i0 k\<close> is its
  continuation. \<open>D\<close> is the set of the requests whose response has been handled and
  \<open>outs k\<close> the outcome of the response of request \<open>k\<close>. A request without its response is
  pending with its entry and its continuation in place; a request with its response
  has its promise settled with its outcome, and the promise it returned is settled
  with the outcome too or is pending with the microtask that will settle it queued.
\<close>

definition issued :: "nat \<Rightarrow> int \<Rightarrow> nat \<Rightarrow> continuation" where
  "issued n0 i0 k = AwaitRequest (IdNumber (i0 + int k)) (n0 + 2 * k)"

definition requests_inv ::
  "nat \<Rightarrow> int \<Rightarrow> nat \<Rightarrow> (nat \<Rightarrow> settled) \<Rightarrow> nat set \<Rightarrow> LspClient \<Rightarrow> bool" where
  "requests_inv n0 i0 N outs D c =
     (length (promises c) = n0 + 2 * N
      \<and> (\<forall>k<N. outs k \<noteq> Pending)
      \<and> (\<forall>hk \<in> set (continuations c).
            old_continuation n0 i0 (snd hk)
            \<or> (\<exists>k<N. k \<notin> D \<and> hk = (Suc (n0 + 2 * k), issued n0 i0 k)))
      \<and> (\<forall>ks \<in> set (microtasks c).
            old_continuation n0 i0 (fst ks)
            \<or> (\<exists>k<N. k \<in> D \<and> ks = (issued n0 i0 k, outs k)))
      \<and> (\<forall>k<N. k \<notin> D \<longrightarrow>
            promises c ! Suc (n0 + 2 * k) = Pending
            \<and> promises c ! (n0 + 2 * k) = Pending
            \<and> outboundRequests c (IdNumber (i0 + int k)) = Some (Suc (n0 + 2 * k))
            \<and> (Suc (n0 + 2 * k), issued n0 i0 k) \<in> set (continuations c))
      \<and> (\<forall>k<N. k \<in> D \<longrightarrow>
            promises c ! Suc (n0 + 2 * k) = outs k
            \<and> (promises c ! (n0 + 2 * k) = outs k
                \<or> promises c ! (n0 + 2 * k) = Pending
                   \<and> (issued n0 i0 k, outs k) \<in> set (microtasks c))))"

section \<open>Document sessions\<close>

text \<open>
  What a message of the client tells the server about the document \<open>uri\<close>: a
  notification \<open>textDocument/didOpen\<close> or \<open>textDocument/didChange\<close> for this document, with
  the version it carries. \<open>document_notifications\<close> are those among a list of messages, in
  the order they were sent.
\<close>

datatype notification = Opened nat | Changed nat

definition document_notification :: "string \<Rightarrow> JsonRpcMessage \<Rightarrow> notification option" where
  "document_notification uri m =
     (if msg_id m \<noteq> None then None
      else case msg_params m of
             Some (DidOpenTextDocumentParams u lang text version) \<Rightarrow>
               if msg_method m = Some ''textDocument/didOpen'' \<and> u = uri
               then Some (Opened version) else None
           | Some (DidChangeTextDocumentParams u version text) \<Rightarrow>
               if msg_method m = Some ''textDocument/didChange'' \<and> u = uri
               then Some (Changed version) else None
           | _ \<Rightarrow> None)"

definition document_notifications :: "string \<Rightarrow> JsonRpcMessage list \<Rightarrow> notification list" where
  "document_notifications uri ms = List.map_filter (document_notification uri) ms"

text \<open>
  What happens to a client and its plugins during a session, one call after the other:
  the view of plugin \<open>j\<close> reports a change of its document, with the new text, and the
  plugin's \<open>update\<close> calls \<open>sendChange\<close>; the editor asks plugin \<open>j\<close> for completions; some
  request is made; the client is initialized; a plugin is constructed for a view; a
  message arrives or the event loop runs a microtask. A call of a plugin that is not
  attached to the client does nothing. A \<open>requestCompletion\<close> that throws has not changed
  the state.
\<close>

datatype call =
  Change nat string
  | Complete nat Text position nat "string option"
  | Request string "params option"
  | Initialize
  | Construct Text bool string string
  | Event event

fun call_step :: "LspClient \<Rightarrow> call \<Rightarrow> LspClient" where
  "call_step c (Change j text) = (if j < length (plugins c) then sendChange j text c else c)"
| "call_step c (Complete j doc pos triggerKind triggerCharacter) =
     (if j < length (plugins c)
      then (case requestCompletion j doc pos triggerKind triggerCharacter c of
              Inl e \<Rightarrow> c
            | Inr (returned, c1) \<Rightarrow> c1)
      else c)"
| "call_step c (Request method ps) = snd (request method ps c)"
| "call_step c Initialize = LspClient_initialize c"
| "call_step c (Construct doc html uri lang) = snd (new_LspPlugin doc html uri lang c)"
| "call_step c (Event ev) = step c ev"

definition run_calls :: "call list \<Rightarrow> LspClient \<Rightarrow> LspClient" where
  "run_calls calls c = foldl call_step c calls"


text \<open>
  The invariant of a client that the theorem about a session starts from: every
  suspended \<open>initialize\<close> of a plugin, registered on a promise or queued as a microtask,
  is of a plugin attached to the client. A new client satisfies it and every call
  keeps it.
\<close>

fun plugin_continuation :: "nat \<Rightarrow> continuation \<Rightarrow> bool" where
  "plugin_continuation n (AwaitInitializePromise j text) = (j < n)"
| "plugin_continuation n k = True"

definition plugins_inv :: "LspClient \<Rightarrow> bool" where
  "plugins_inv c =
     (list_all (\<lambda>hk. plugin_continuation (length (plugins c)) (snd hk)) (continuations c)
      \<and> list_all (\<lambda>ks. plugin_continuation (length (plugins c)) (fst ks)) (microtasks c))"



fun session_log :: "nat option \<Rightarrow> nat \<Rightarrow> notification list" where
  "session_log None n = map Changed [0..<n]"
| "session_log (Some k) n = map Changed [0..<k] @ Opened k # map Changed [k..<n]"


section \<open>Properties of the position conversions\<close>

lemma line_at_pos_index:
  "doc \<noteq> [] \<Longrightarrow>
   \<exists>i < length doc. line_at_pos doc f n pos = line_at_index doc f n i
     \<and> line_number (line_at_pos doc f n pos) = n + i
     \<and> (pos \<ge> f \<longrightarrow> line_from (line_at_pos doc f n pos) \<le> pos)"
proof (induction doc arbitrary: f n)
  case Nil
  then show ?case by simp
next
  case (Cons l ls)
  show ?case
  proof (cases "pos \<le> f + length l \<or> ls = []")
    case True
    then show ?thesis by (intro exI[of _ 0]) auto
  next
    case False
    then have ne: "ls \<noteq> []" by simp
    from Cons.IH[OF ne, of "f + length l + 1" "Suc n"]
    obtain i where i: "i < length ls"
      "line_at_pos ls (f + length l + 1) (Suc n) pos = line_at_index ls (f + length l + 1) (Suc n) i"
      "line_number (line_at_pos ls (f + length l + 1) (Suc n) pos) = Suc n + i"
      "pos \<ge> f + length l + 1 \<longrightarrow> line_from (line_at_pos ls (f + length l + 1) (Suc n) pos) \<le> pos"
      by blast
    with False show ?thesis by (intro exI[of _ "Suc i"]) auto
  qed
qed

text \<open>
  C10. For every document (at least one line) and every offset from 0 to the document
  length inclusive, \<open>offsetToPos\<close> returns a position, and \<open>posToOffset\<close> maps that
  position back to the offset it came from.
\<close>

theorem posToOffset_offsetToPos:
  assumes "doc \<noteq> []" and "offset \<le> doc_length doc"
  shows "\<exists>p. offsetToPos doc offset = Inr p \<and> posToOffset doc p = Inr (Some offset)"
proof -
  obtain i where i: "i < length doc"
    "line_at_pos doc 0 1 offset = line_at_index doc 0 1 i"
    "line_number (line_at_pos doc 0 1 offset) = 1 + i"
    "line_from (line_at_pos doc 0 1 offset) \<le> offset"
    using line_at_pos_index[OF assms(1), of 0 1 offset] by auto
  show ?thesis using assms i
    by (simp add: offsetToPos_def posToOffset_def doc_lineAt_def doc_line_def doc_lines_def)
qed

theorem posToOffset_offsetToPos_witness:
  "[''ab'', ''cde'', ''''] \<noteq> ([] :: Text) \<and> (3 :: nat) \<le> doc_length [''ab'', ''cde'', '''']
   \<and> offsetToPos [''ab'', ''cde'', ''''] 3 = Inr \<lparr>line = 1, character = 0\<rparr>
   \<and> posToOffset [''ab'', ''cde'', ''''] \<lparr>line = 1, character = 0\<rparr> = Inr (Some 3)"
proof -
  have ne: "[''ab'', ''cde'', ''''] \<noteq> ([] :: Text)" by simp
  have le: "(3 :: nat) \<le> doc_length [''ab'', ''cde'', '''']" by (simp add: doc_length_def)
  have p: "offsetToPos [''ab'', ''cde'', ''''] 3 = Inr \<lparr>line = 1, character = 0\<rparr>"
    by (simp add: offsetToPos_def doc_lineAt_def doc_length_def)
  from posToOffset_offsetToPos[OF ne le] p ne le show ?thesis by auto
qed

section \<open>Properties of the diagnostics mapping\<close>

lemma line_at_index_from_total: "\<exists>l. doc_line doc (Suc n) = Inr l" if "n < doc_lines doc"
  using that by (simp add: doc_line_def)




lemma set_insert_sorted: "set (insert_sorted cmp x xs) = insert x (set xs)"
  by (induction xs) auto






section \<open>Properties of the completion post-processing\<close>

text \<open>On ASCII strings \<open>toLowerCase\<close> adds 32 to the letters A-Z and keeps the rest.\<close>

lemma code_points_ascii: "\<forall>u \<in> set s. u < 0x80 \<Longrightarrow> code_points s = s"
  by (induction s rule: code_points.induct) auto

lemma simple_lowercase_ascii:
  "u < 0x80 \<Longrightarrow>
   simple_lowercase lowercase_mapping u = (if 0x41 \<le> u \<and> u \<le> 0x5A then u + 0x20 else u)"
  by (simp add: lowercase_mapping_def)

lemma toLowercase_ascii:
  "\<forall>u \<in> set s. u < 0x80 \<Longrightarrow>
   toLowercase before s = map (\<lambda>u. if 0x41 \<le> u \<and> u \<le> 0x5A then u + 0x20 else u) s"
proof (induction s arbitrary: before)
  case Nil
  then show ?case by simp
next
  case (Cons u s)
  then have u: "u < 0x80" and s: "\<forall>u \<in> set s. u < 0x80" by simp_all
  from u have "u \<noteq> 0x03A3" and "u \<noteq> 0x0130" by simp_all
  then show ?case
    using Cons.IH[OF s] simple_lowercase_ascii[OF u] by simp
qed

lemma toLowerCase_ascii:
  assumes "\<forall>u \<in> set s. u < 0x80"
  shows "toLowerCase s = map (\<lambda>u. if 0x41 \<le> u \<and> u \<le> 0x5A then u + 0x20 else u) s"
proof -
  let ?t = "map (\<lambda>u. if 0x41 \<le> u \<and> u \<le> 0x5A then u + 0x20 else u) s"
  have c: "concat (map code_units t) = t" if "\<forall>u \<in> set t. u < 0x80" for t
    using that by (induction t) (simp_all add: code_units_def)
  have "\<forall>v \<in> set ?t. v < 0x80"
    using assms by auto
  then have "concat (map code_units ?t) = ?t"
    by (rule c)
  moreover have "toLowercase [] (code_points s) = ?t"
    using assms by (simp only: code_points_ascii toLowercase_ascii)
  ultimately show ?thesis
    by (simp only: toLowerCase_def)
qed

lemma toLowerCase_Kelvin: "toLowerCase [0x212A] = [0x6B]"
  by (simp add: toLowerCase_def lowercase_mapping_def code_units_def)

text \<open>
  C7. For three options with the insertion texts and comparison keys foo, foobar and
  bar (any labels, details, types, sort keys and documentation) and the typed token
  fo, the result holds the options foo and foobar, in this order, from the start of the
  token.
\<close>

theorem completionResult_foo_foobar_bar:
  "completionResult (Some \<lparr>tok_from = f, tok_to = p, tok_text = ascii ''fo''\<rparr>) p
     [\<lparr>c_label = l1, c_detail = d1, c_apply = ascii ''foo'', c_type = t1, c_sortText = s1,
       c_filterText = ascii ''foo'', c_info = i1\<rparr>,
      \<lparr>c_label = l2, c_detail = d2, c_apply = ascii ''foobar'', c_type = t2, c_sortText = s2,
       c_filterText = ascii ''foobar'', c_info = i2\<rparr>,
      \<lparr>c_label = l3, c_detail = d3, c_apply = ascii ''bar'', c_type = t3, c_sortText = s3,
       c_filterText = ascii ''bar'', c_info = i3\<rparr>]
   = \<lparr>result_from = f, result_options =
     [\<lparr>c_label = l1, c_detail = d1, c_apply = ascii ''foo'', c_type = t1, c_sortText = s1,
       c_filterText = ascii ''foo'', c_info = i1\<rparr>,
      \<lparr>c_label = l2, c_detail = d2, c_apply = ascii ''foobar'', c_type = t2, c_sortText = s2,
       c_filterText = ascii ''foobar'', c_info = i2\<rparr>]\<rparr>"
  by (simp add: completionResult_def ascii_def toLowerCase_ascii test_word_def
      is_word_char_def startsWith_def array_sort_def compare_apply_def Let_def)

text \<open>
  In general, for a typed token whose lower-case form is made of word characters: the
  options whose comparison key starts, in lower case, with the lower-cased token are
  kept; those of them whose insertion text starts with the token as typed come first,
  the others after them, and each of the two groups keeps its order.
\<close>

lemma insert_sorted_compare_apply:
  assumes "\<forall>a \<in> set as. startsWith (c_apply a) t" and "\<forall>b \<in> set bs. \<not> startsWith (c_apply b) t"
  shows "insert_sorted (compare_apply t) x (as @ bs)
           = (if startsWith (c_apply x) t then x # as @ bs else as @ x # bs)"
  using assms
proof (induction as)
  case Nil
  then show ?case by (cases bs) (auto simp: compare_apply_def)
next
  case (Cons a as)
  then show ?case by (auto simp: compare_apply_def)
qed

lemma array_sort_compare_apply:
  "array_sort (compare_apply t) xs
     = filter (\<lambda>opt. startsWith (c_apply opt) t) xs
       @ filter (\<lambda>opt. \<not> startsWith (c_apply opt) t) xs"
proof (induction xs)
  case Nil
  then show ?case by (simp add: array_sort_def)
next
  case (Cons x xs)
  have "array_sort (compare_apply t) (x # xs)
      = insert_sorted (compare_apply t) x (array_sort (compare_apply t) xs)"
    by (simp add: array_sort_def)
  also have "\<dots> = insert_sorted (compare_apply t) x
      (filter (\<lambda>opt. startsWith (c_apply opt) t) xs
       @ filter (\<lambda>opt. \<not> startsWith (c_apply opt) t) xs)"
    by (simp only: Cons.IH)
  also have "\<dots> = (if startsWith (c_apply x) t
      then x # filter (\<lambda>opt. startsWith (c_apply opt) t) xs
             @ filter (\<lambda>opt. \<not> startsWith (c_apply opt) t) xs
      else filter (\<lambda>opt. startsWith (c_apply opt) t) xs
             @ x # filter (\<lambda>opt. \<not> startsWith (c_apply opt) t) xs)"
    by (rule insert_sorted_compare_apply) simp_all
  finally show ?case by simp
qed

lemma completionResult_word:
  assumes "test_word (toLowerCase (tok_text t))"
  shows "completionResult (Some t) pos options =
           \<lparr>result_from = tok_from t,
            result_options =
              filter (\<lambda>opt. startsWith (toLowerCase (c_filterText opt)) (toLowerCase (tok_text t))
                              \<and> startsWith (c_apply opt) (tok_text t)) options
              @ filter (\<lambda>opt. startsWith (toLowerCase (c_filterText opt)) (toLowerCase (tok_text t))
                              \<and> \<not> startsWith (c_apply opt) (tok_text t)) options\<rparr>"
  using assms
  by (simp add: completionResult_def array_sort_compare_apply Let_def)

text \<open>
  C8, as the source has it. The source tests the lower-cased text of the token. When it
  is not made of word characters only, the options are returned as they are, neither
  filtered nor sorted, and the result starts where the token starts.
\<close>

theorem completionResult_not_word:
  assumes "\<not> test_word (toLowerCase (tok_text t))"
  shows "completionResult (Some t) pos options =
           \<lparr>result_from = tok_from t, result_options = options\<rparr>"
  using assms by (simp add: completionResult_def)

theorem completionResult_not_word_witness:
  "\<not> test_word (toLowerCase (tok_text \<lparr>tok_from = 0, tok_to = 6, tok_text = ascii ''std.de''\<rparr>))
   \<and> completionResult (Some \<lparr>tok_from = 0, tok_to = 6, tok_text = ascii ''std.de''\<rparr>) 6
        [\<lparr>c_label = ascii ''std.debug'', c_detail = None, c_apply = ascii ''std.debug'',
          c_type = None, c_sortText = ascii ''std.debug'', c_filterText = ascii ''std.debug'',
          c_info = None\<rparr>,
         \<lparr>c_label = ascii ''abc'', c_detail = None, c_apply = ascii ''abc'', c_type = None,
          c_sortText = ascii ''abc'', c_filterText = ascii ''abc'', c_info = None\<rparr>]
     = \<lparr>result_from = 0, result_options =
        [\<lparr>c_label = ascii ''std.debug'', c_detail = None, c_apply = ascii ''std.debug'',
          c_type = None, c_sortText = ascii ''std.debug'', c_filterText = ascii ''std.debug'',
          c_info = None\<rparr>,
         \<lparr>c_label = ascii ''abc'', c_detail = None, c_apply = ascii ''abc'', c_type = None,
          c_sortText = ascii ''abc'', c_filterText = ascii ''abc'', c_info = None\<rparr>]\<rparr>"
proof -
  have nw: "\<not> test_word (toLowerCase
               (tok_text \<lparr>tok_from = 0, tok_to = 6, tok_text = ascii ''std.de''\<rparr>))"
    by (simp add: ascii_def toLowerCase_ascii test_word_def is_word_char_def)
  from completionResult_not_word[OF nw] nw show ?thesis by simp
qed

text \<open>
  The claim C8 as it is written fails in two ways.

  With the options std.debug and abc, the line \<open>std.de\<close> and the cursor at 6, the token
  is \<open>std.de\<close> from 0 to 6, which is not made of word characters only, and the result
  starts at 0, not at the cursor position 6.

  With the options abc, kB and K, where K is the Kelvin sign U+212A, and the token K
  before the cursor at 1: the token is not made of word characters, but its lower-case
  form is the letter k, so the options are filtered and sorted. The result is K, kB:
  abc is left out and K, which starts with the token, has moved before kB.
\<close>

theorem completionResult_from_is_not_cursor:
  "\<not> test_word (ascii ''std.de'')
   \<and> result_from (completionResult
        (Some \<lparr>tok_from = 0, tok_to = 6, tok_text = ascii ''std.de''\<rparr>) 6
        [\<lparr>c_label = ascii ''std.debug'', c_detail = None, c_apply = ascii ''std.debug'',
          c_type = None, c_sortText = ascii ''std.debug'', c_filterText = ascii ''std.debug'',
          c_info = None\<rparr>,
         \<lparr>c_label = ascii ''abc'', c_detail = None, c_apply = ascii ''abc'', c_type = None,
          c_sortText = ascii ''abc'', c_filterText = ascii ''abc'', c_info = None\<rparr>]) \<noteq> 6
   \<and> \<not> test_word [0x212A]
   \<and> map c_apply (result_options (completionResult
        (Some \<lparr>tok_from = 0, tok_to = 1, tok_text = [0x212A]\<rparr>) 1
        [\<lparr>c_label = ascii ''abc'', c_detail = None, c_apply = ascii ''abc'', c_type = None,
          c_sortText = ascii ''abc'', c_filterText = ascii ''abc'', c_info = None\<rparr>,
         \<lparr>c_label = ascii ''kB'', c_detail = None, c_apply = ascii ''kB'', c_type = None,
          c_sortText = ascii ''kB'', c_filterText = ascii ''kB'', c_info = None\<rparr>,
         \<lparr>c_label = [0x212A], c_detail = None, c_apply = [0x212A], c_type = None,
          c_sortText = [0x212A], c_filterText = [0x212A], c_info = None\<rparr>]))
     = [[0x212A], ascii ''kB'']"
  by (simp add: completionResult_def ascii_def toLowerCase_ascii toLowerCase_Kelvin
      test_word_def is_word_char_def startsWith_def array_sort_def compare_apply_def Let_def)

lemma completionResult_no_token:
  "completionResult None pos options = \<lparr>result_from = pos, result_options = options\<rparr>"
  by (simp add: completionResult_def)

section \<open>Properties of the document version\<close>

lemma sendChange_open:
  assumes "isOpen c" and "i < length (plugins c)"
  shows "sent (sendChange i t c) = sent c @
           [\<lparr>msg_id = None, msg_method = Some ''textDocument/didChange'',
             msg_params = Some (DidChangeTextDocumentParams (documentUri (plugins c ! i))
                                  (documentVersion (plugins c ! i)) t),
             msg_result = None, msg_error = None\<rparr>]"
    and "documentVersion (plugins (sendChange i t c) ! i) = documentVersion (plugins c ! i) + 1"
    and "documentUri (plugins (sendChange i t c) ! i) = documentUri (plugins c ! i)"
    and "isOpen (sendChange i t c)"
    and "length (plugins (sendChange i t c)) = length (plugins c)"
  using assms
  by (simp_all add: sendChange_def textDocumentDidChange_def notify_def sendMessage_def Let_def)

lemma sendChange_closed: "\<not> isOpen c \<Longrightarrow> sendChange i t c = c"
  by (simp add: sendChange_def)

lemma sendChanges_open:
  assumes "isOpen c" and "i < length (plugins c)"
  shows "sent (foldl (\<lambda>c t. sendChange i t c) c ts) = sent c @
           map (\<lambda>(k, t). \<lparr>msg_id = None, msg_method = Some ''textDocument/didChange'',
                    msg_params = Some (DidChangeTextDocumentParams (documentUri (plugins c ! i)) k t),
                    msg_result = None, msg_error = None\<rparr>)
             (enumerate (documentVersion (plugins c ! i)) ts)
         \<and> documentVersion (plugins (foldl (\<lambda>c t. sendChange i t c) c ts) ! i)
             = documentVersion (plugins c ! i) + length ts"
  using assms
proof (induction ts arbitrary: c)
  case Nil
  then show ?case by simp
next
  case (Cons t ts)
  let ?c = "sendChange i t c"
  note sc = sendChange_open[OF Cons.prems, of t]
  have "isOpen ?c" and "i < length (plugins ?c)"
    using sc Cons.prems by simp_all
  from Cons.IH[OF this] sc show ?case
    by simp
qed

lemma new_LspPlugin_sync:
  assumes "initializePromise c = None"
  shows "new_LspPlugin doc html uri lang c =
           (length (plugins c),
            c\<lparr>plugins := plugins c @
                 [\<lparr>documentUri = uri, languageId = lang, documentVersion = 0, changesTimeout = 0,
                   allowHtmlContent = html, view_doc = doc, view_diagnostics = [], caught = []\<rparr>],
               sent := sent c @
                 [\<lparr>msg_id = None, msg_method = Some ''textDocument/didOpen'',
                   msg_params = Some (DidOpenTextDocumentParams uri lang (doc_toString doc) 0),
                   msg_result = None, msg_error = None\<rparr>]\<rparr>)"
  using assms
  by (simp add: new_LspPlugin_def LspPlugin_initialize_def LspPlugin_initialize_resume_def
      attachPlugin_def textDocumentDidOpen_def notify_def sendMessage_def Let_def)

text \<open>
  On an open client without an \<open>initializePromise\<close>, constructing a plugin sends
  \<open>textDocument/didOpen\<close> with the text of the document and version 0, and the changes
  sent after it are notified with their texts and the versions 0, 1, 2, ... .
\<close>

lemma notifications_of_open_client:
  assumes "isOpen c" and "initializePromise c = None"
    and "new_LspPlugin doc html uri lang c = (i, c1)"
  shows "sent c1 = sent c @
           [\<lparr>msg_id = None, msg_method = Some ''textDocument/didOpen'',
             msg_params = Some (DidOpenTextDocumentParams uri lang (doc_toString doc) 0),
             msg_result = None, msg_error = None\<rparr>]
     \<and> sent (foldl (\<lambda>c t. sendChange i t c) c1 ts) = sent c1 @
           map (\<lambda>(k, t). \<lparr>msg_id = None, msg_method = Some ''textDocument/didChange'',
                    msg_params = Some (DidChangeTextDocumentParams uri k t),
                    msg_result = None, msg_error = None\<rparr>)
             (enumerate 0 ts)
     \<and> documentVersion (plugins (foldl (\<lambda>c t. sendChange i t c) c1 ts) ! i) = length ts"
proof -
  from assms(3) new_LspPlugin_sync[OF assms(2), of doc html uri lang]
  have i: "i = length (plugins c)"
    and c1: "c1 = c\<lparr>plugins := plugins c @
                 [\<lparr>documentUri = uri, languageId = lang, documentVersion = 0, changesTimeout = 0,
                   allowHtmlContent = html, view_doc = doc, view_diagnostics = [], caught = []\<rparr>],
               sent := sent c @
                 [\<lparr>msg_id = None, msg_method = Some ''textDocument/didOpen'',
                   msg_params = Some (DidOpenTextDocumentParams uri lang (doc_toString doc) 0),
                   msg_result = None, msg_error = None\<rparr>]\<rparr>"
    by simp_all
  have o: "isOpen c1" and l: "i < length (plugins c1)"
    and p: "documentVersion (plugins c1 ! i) = 0" "documentUri (plugins c1 ! i) = uri"
    using assms(1) by (simp_all add: c1 i)
  from sendChanges_open[OF o l, of ts] show ?thesis
    by (simp add: p) (simp add: c1)
qed

text \<open>
  The plugin's \<open>handleMessage\<close> catches the \<open>TypeError\<close> of a \<open>publishDiagnostics\<close> message
  whose params are \<open>null\<close>, or have the document's \<open>uri\<close> and no \<open>diagnostics\<close>.
\<close>

lemma LspPlugin_handleMessage_TypeError:
  "caught (LspPlugin_handleMessage
      \<lparr>msg_id = None, msg_method = Some ''textDocument/publishDiagnostics'',
        msg_params = Some (OtherParams JNull), msg_result = None, msg_error = None\<rparr> p)
     = caught p @ [TypeError]"
  "caught (LspPlugin_handleMessage
      \<lparr>msg_id = None, msg_method = Some ''textDocument/publishDiagnostics'',
        msg_params = Some (OtherParams (JObject [(''uri'', JString (documentUri p))])),
        msg_result = None, msg_error = None\<rparr> p)
     = caught p @ [TypeError]"
  by (simp_all add: LspPlugin_handleMessage_def)

section \<open>Properties of the pending requests\<close>

lemma settle_outboundRequests: "outboundRequests (settle h outcome c) = outboundRequests c"
  by (simp add: settle_def)

lemma handleMessage_outboundRequests:
  "outboundRequests (handleMessage m c) = outboundRequests c"
  by (simp add: handleMessage_def Let_def settle_outboundRequests split: option.split)

lemma resume_Rejected_outboundRequests:
  "outboundRequests (resume (AwaitRequest rid returned) (Rejected e) c) = outboundRequests c"
  by (simp add: settle_outboundRequests)

lemma result_response_deletes_entry:
  "outboundRequests (run
      [Message \<lparr>msg_id = Some (IdNumber 0), msg_method = None, msg_params = None,
                msg_result = Some (JString ''ok''), msg_error = None\<rparr>,
       Microtask]
      (snd (request ''textDocument/hover'' None (new_LspClient ''file:///'')))) (IdNumber 0)
   = None"
  by (simp add: run_def request_def await_def sendMessage_def new_LspClient_def Let_def
      handleMessage_def settle_def run_microtask_def)

text \<open>
  C4 at an error response. A new client issues one request (id 0); the response with id
  0 and an error payload arrives and the microtask it queued runs. The promise of the
  request and the promise \<open>request\<close> returned are rejected with the payload, no microtask
  is left, and the entry of id 0 is still in \<open>outboundRequests\<close>.
\<close>

theorem error_response_keeps_entry:
  "outboundRequests (run
      [Message \<lparr>msg_id = Some (IdNumber 0), msg_method = None, msg_params = None,
                msg_result = None,
                msg_error = Some (JObject [(''code'', JNumber (- 32601)),
                                           (''message'', JString ''Method not found'')])\<rparr>,
       Microtask]
      (snd (request ''textDocument/hover'' None (new_LspClient ''file:///'')))) (IdNumber 0)
   = Some 1
   \<and> promises (run
      [Message \<lparr>msg_id = Some (IdNumber 0), msg_method = None, msg_params = None,
                msg_result = None,
                msg_error = Some (JObject [(''code'', JNumber (- 32601)),
                                           (''message'', JString ''Method not found'')])\<rparr>,
       Microtask]
      (snd (request ''textDocument/hover'' None (new_LspClient ''file:///''))))
   = [Rejected (Some (JObject [(''code'', JNumber (- 32601)),
                               (''message'', JString ''Method not found'')])),
      Rejected (Some (JObject [(''code'', JNumber (- 32601)),
                               (''message'', JString ''Method not found'')]))]
   \<and> microtasks (run
      [Message \<lparr>msg_id = Some (IdNumber 0), msg_method = None, msg_params = None,
                msg_result = None,
                msg_error = Some (JObject [(''code'', JNumber (- 32601)),
                                           (''message'', JString ''Method not found'')])\<rparr>,
       Microtask]
      (snd (request ''textDocument/hover'' None (new_LspClient ''file:///'')))) = []"
  by (simp add: run_def request_def await_def sendMessage_def new_LspClient_def Let_def
      handleMessage_def settle_def run_microtask_def)

section \<open>Properties of the blocking read\<close>

text \<open>
  C9. A read of \<open>stdin\<close> with one vector of \<open>maxLen\<close> bytes at \<open>b\<close>, while the channel
  (\<open>ch\<close>: the channel at the call, or as the controller left it when the call had to
  wait) holds \<open>index ch\<close> valid bytes within its buffer and the bytes fit into the memory:
  the call returns \<open>min maxLen (index ch)\<close> as \<open>nread\<close>; the memory holds at \<open>b\<close> that many
  bytes from the front of the payload and is unchanged elsewhere; the payload, of the
  same size, holds at its front the bytes that followed the ones taken; and the count
  of valid bytes went down by the number of bytes taken.
\<close>

theorem fd_read_takes_front:
  assumes "kind s = stdin"
    and "ch = (if index sh = 0 then woken else sh)"
    and "index ch \<le> length (dataBuffer ch)"
    and "b + min maxLen (index ch) \<le> length view8"
  shows "\<exists>view8' ch'.
      fd_read s view8 [\<lparr>buf = b, buf_len = maxLen\<rparr>] woken sh
        = (Inr (0, min maxLen (index ch)), view8', ch')
      \<and> take (min maxLen (index ch)) (drop b view8') = take (min maxLen (index ch)) (dataBuffer ch)
      \<and> length view8' = length view8
      \<and> take b view8' = take b view8
      \<and> drop (b + min maxLen (index ch)) view8' = drop (b + min maxLen (index ch)) view8
      \<and> length (dataBuffer ch') = length (dataBuffer ch)
      \<and> take (length (dataBuffer ch) - min maxLen (index ch)) (dataBuffer ch')
          = drop (min maxLen (index ch)) (dataBuffer ch)
      \<and> index ch' = index ch - min maxLen (index ch)"
proof -
  let ?r = "min maxLen (index ch)"
  let ?sl = "take ?r (dataBuffer ch)"
  have r: "?r \<le> length (dataBuffer ch)" using assms(3) by simp
  then have lsl: "length ?sl = ?r" by simp
  let ?v = "take b view8 @ ?sl @ drop (b + ?r) view8"
  let ?c = "ch\<lparr>dataBuffer := drop ?r (dataBuffer ch)
                  @ drop (length (dataBuffer ch) - ?r) (dataBuffer ch),
               index := index ch - ?r\<rparr>"
  have eq: "fd_read s view8 [\<lparr>buf = b, buf_len = maxLen\<rparr>] woken sh = (Inr (0, ?r), ?v, ?c)"
    using assms(1,3,4) r lsl unfolding fd_read_def assms(2)[symmetric]
    by (simp add: Let_def)
  have b: "b \<le> length view8" using assms(4) by simp
  have 1: "take ?r (drop b ?v) = ?sl" using b lsl by simp
  have 2: "length ?v = length view8" using assms(4) lsl by simp
  have 3: "take b ?v = take b view8" using b by simp
  have 4: "drop (b + ?r) ?v = drop (b + ?r) view8" using b lsl by simp
  have 5: "length (dataBuffer ?c) = length (dataBuffer ch)" using r by simp
  have 6: "take (length (dataBuffer ch) - ?r) (dataBuffer ?c) = drop ?r (dataBuffer ch)" by simp
  have 7: "index ?c = index ch - ?r" by simp
  from eq 1 2 3 4 5 6 7 show ?thesis by blast
qed

theorem fd_read_takes_front_witness:
  "kind (new_Stdio stdin :: unit Stdio) = stdin
   \<and> \<lparr>index = 3, dataBuffer = ''abcde''\<rparr>
       = (if index \<lparr>index = 0, dataBuffer = ''zzzzz''\<rparr> = 0
          then \<lparr>index = 3, dataBuffer = ''abcde''\<rparr> else \<lparr>index = 0, dataBuffer = ''zzzzz''\<rparr>)
   \<and> index \<lparr>index = 3, dataBuffer = ''abcde''\<rparr> \<le> length (dataBuffer \<lparr>index = 3, dataBuffer = ''abcde''\<rparr>)
   \<and> 1 + min 2 (index \<lparr>index = 3, dataBuffer = ''abcde''\<rparr>) \<le> length ''------''
   \<and> fd_read (new_Stdio stdin :: unit Stdio) ''------'' [\<lparr>buf = 1, buf_len = 2\<rparr>]
        \<lparr>index = 3, dataBuffer = ''abcde''\<rparr> \<lparr>index = 0, dataBuffer = ''zzzzz''\<rparr>
      = (Inr (0, 2), ''-ab---'', \<lparr>index = 1, dataBuffer = ''cdede''\<rparr>)"
proof -
  have k: "kind (new_Stdio stdin :: unit Stdio) = stdin" by (simp add: new_Stdio_def)
  have c: "\<lparr>index = 3, dataBuffer = ''abcde''\<rparr>
       = (if index \<lparr>index = 0, dataBuffer = ''zzzzz''\<rparr> = 0
          then \<lparr>index = 3, dataBuffer = ''abcde''\<rparr> else \<lparr>index = 0, dataBuffer = ''zzzzz''\<rparr>)"
    by simp
  have i: "index \<lparr>index = 3, dataBuffer = ''abcde''\<rparr>
             \<le> length (dataBuffer \<lparr>index = 3, dataBuffer = ''abcde''\<rparr>)" by simp
  have f: "1 + min 2 (index \<lparr>index = 3, dataBuffer = ''abcde''\<rparr>) \<le> length ''------''" by simp
  have e: "fd_read (new_Stdio stdin :: unit Stdio) ''------'' [\<lparr>buf = 1, buf_len = 2\<rparr>]
        \<lparr>index = 3, dataBuffer = ''abcde''\<rparr> \<lparr>index = 0, dataBuffer = ''zzzzz''\<rparr>
      = (Inr (0, 2), ''-ab---'', \<lparr>index = 1, dataBuffer = ''cdede''\<rparr>)"
    using fd_read_takes_front[OF k c i f] by (auto simp: fd_read_def new_Stdio_def Let_def)
  from k c i f e show ?thesis by blast
qed

text \<open>
  A read with several vectors takes, over all of them, as many bytes as the vectors ask
  for together or as the channel holds, whichever is less, and moves the rest of the
  payload to the front.
\<close>

lemma shift_twice:
  fixes d d1 d2 :: "'a list"
  assumes r: "r1 + r2 \<le> length d"
    and l1: "length d1 = length d" and l2: "length d2 = length d"
    and s1: "take (length d - r1) d1 = drop r1 d"
    and s2: "take (length d - r2) d2 = drop r2 d1"
  shows "take (length d - (r1 + r2)) d2 = drop (r1 + r2) d"
proof (rule nth_equalityI)
  show "length (take (length d - (r1 + r2)) d2) = length (drop (r1 + r2) d)"
    using l2 by simp
next
  fix i
  assume "i < length (take (length d - (r1 + r2)) d2)"
  then have i: "i < length d - (r1 + r2)" by simp
  have "take (length d - (r1 + r2)) d2 ! i = d2 ! i" using i by simp
  also have "\<dots> = take (length d - r2) d2 ! i" using i by simp
  also have "\<dots> = drop r2 d1 ! i" by (simp only: s2)
  also have "\<dots> = d1 ! (r2 + i)" using i l1 by simp
  also have "\<dots> = take (length d - r1) d1 ! (r2 + i)" using i by simp
  also have "\<dots> = drop r1 d ! (r2 + i)" by (simp only: s1)
  also have "\<dots> = d ! (r1 + (r2 + i))" using i by simp
  also have "\<dots> = drop (r1 + r2) d ! i" using i by (simp add: add.assoc)
  finally show "take (length d - (r1 + r2)) d2 ! i = drop (r1 + r2) d ! i" .
qed

lemma fd_read_iovs_all:
  assumes "index sh \<le> length (dataBuffer sh)"
    and "\<forall>v \<in> set iovs. buf v + buf_len v \<le> length view8"
  shows "\<exists>view8' sh'.
      fd_read_iovs view8 iovs nread sh
        = (Inr (nread + min (sum_list (map buf_len iovs)) (index sh)), view8', sh')
      \<and> length view8' = length view8
      \<and> index sh' = index sh - min (sum_list (map buf_len iovs)) (index sh)
      \<and> length (dataBuffer sh') = length (dataBuffer sh)
      \<and> take (length (dataBuffer sh) - min (sum_list (map buf_len iovs)) (index sh)) (dataBuffer sh')
          = drop (min (sum_list (map buf_len iovs)) (index sh)) (dataBuffer sh)"
  using assms
proof (induction iovs arbitrary: view8 nread sh)
  case Nil
  then show ?case by simp
next
  case (Cons v iovs)
  define n where "n = length (dataBuffer sh)"
  define r1 where "r1 = min (buf_len v) (index sh)"
  define view where "view = take (buf v) view8 @ take r1 (dataBuffer sh) @ drop (buf v + r1) view8"
  define d1 where "d1 = drop r1 (dataBuffer sh) @ drop (n - r1) (dataBuffer sh)"
  define sh1 where "sh1 = sh\<lparr>dataBuffer := d1, index := index sh - r1\<rparr>"
  define r2 where "r2 = min (sum_list (map buf_len iovs)) (index sh1)"
  have r1: "r1 \<le> n" using Cons.prems(1) by (simp add: r1_def n_def)
  have fit: "buf v + r1 \<le> length view8" using Cons.prems(2) by (auto simp: r1_def min_def)
  have lv: "length view = length view8" using fit r1 by (simp add: view_def n_def)
  have ln: "length d1 = n" using r1 by (simp add: d1_def n_def)
  have step: "fd_read_iovs view8 (v # iovs) nread sh = fd_read_iovs view iovs (nread + r1) sh1"
    using fit r1 Cons.prems(1)
    by (simp add: Let_def r1_def[symmetric] n_def[symmetric] view_def sh1_def d1_def min_absorb2)
  have p1: "index sh1 \<le> length (dataBuffer sh1)"
    using Cons.prems(1) r1 ln by (simp add: sh1_def n_def)
  have p2: "\<forall>v \<in> set iovs. buf v + buf_len v \<le> length view" using Cons.prems(2) lv by simp
  from Cons.IH[OF p1 p2, of "nread + r1"] obtain view8' sh' where
    res: "fd_read_iovs view iovs (nread + r1) sh1 = (Inr (nread + r1 + r2), view8', sh')"
    and l: "length view8' = length view"
    and i: "index sh' = index sh1 - r2"
    and d: "length (dataBuffer sh') = length (dataBuffer sh1)"
    and s: "take (length (dataBuffer sh1) - r2) (dataBuffer sh') = drop r2 (dataBuffer sh1)"
    unfolding r2_def by blast
  have sum: "min (sum_list (map buf_len (v # iovs))) (index sh) = r1 + r2"
    by (auto simp: r1_def r2_def sh1_def)
  have r12: "r1 + r2 \<le> n" using Cons.prems(1) by (simp add: sum[symmetric] n_def)
  have d1s: "take (n - r1) d1 = drop r1 (dataBuffer sh)" by (simp add: d1_def n_def)
  have shift: "take (n - (r1 + r2)) (dataBuffer sh') = drop (r1 + r2) (dataBuffer sh)"
    unfolding n_def
  proof (rule shift_twice[where ?d1.0 = d1])
    show "r1 + r2 \<le> length (dataBuffer sh)" using r12 by (simp add: n_def)
    show "length d1 = length (dataBuffer sh)" using ln by (simp add: n_def)
    show "length (dataBuffer sh') = length (dataBuffer sh)" using d ln by (simp add: sh1_def n_def)
    show "take (length (dataBuffer sh) - r1) d1 = drop r1 (dataBuffer sh)"
      using d1s by (simp add: n_def)
    show "take (length (dataBuffer sh) - r2) (dataBuffer sh') = drop r2 d1"
      using s ln by (simp add: sh1_def n_def)
  qed
  have "fd_read_iovs view8 (v # iovs) nread sh = (Inr (nread + (r1 + r2)), view8', sh')"
    using step res by (simp add: add.assoc)
  moreover have "length view8' = length view8" using l lv by simp
  moreover have "index sh' = index sh - (r1 + r2)" using i by (simp add: sh1_def)
  moreover have "length (dataBuffer sh') = length (dataBuffer sh)"
    using d ln by (simp add: sh1_def n_def)
  ultimately show ?case
    unfolding sum using shift unfolding n_def by blast
qed

section \<open>The frame decoder at a delivery that ends inside a header\<close>

text \<open>
  C1 at a split inside the header. The 35 bytes are the header \<open>Content-Length: 13\<close>, the
  blank line and the body \<open>[1,2,3,4,5,6]\<close>; the first write delivers the 18 bytes up to the
  end of the number, the second the other 17. After the first write the buffer starts
  with \<open>Content-Length: \<close> and has no blank line: \<open>bodyStart\<close> is 3, the 16 bytes up to 3 + 13
  are cut off the buffer, and \<open>JSON.parse\<close> is given \<open>tent-Length: \<close>. Where it throws, the
  write ends with the exception; where it returns a message, the message is posted
  before any byte of the body has arrived. The second write finds a buffer that starts
  with \<open>13\<close> and posts nothing: the body is never decoded.
\<close>

theorem fd_write_split_after_length:
  "fd_write JSON_parse
      (''Content-Length: 13'' @ [CHR 0x0D, CHR 0x0A, CHR 0x0D, CHR 0x0A] @ ''[1,2,3,4,5,6]'')
      [\<lparr>buf = 0, buf_len = 18\<rparr>] (new_Stdio stdout)
    = Some (case JSON_parse (ascii ''tent-Length: '') of
              None \<Rightarrow> (Inl SyntaxError,
                        \<lparr>kind = stdout, buffer = ''13'', posted = [], debugged = []\<rparr>)
            | Some m \<Rightarrow> (Inr (0, 18),
                        \<lparr>kind = stdout, buffer = ''13'', posted = [m], debugged = []\<rparr>))
   \<and> fd_write JSON_parse
      (''Content-Length: 13'' @ [CHR 0x0D, CHR 0x0A, CHR 0x0D, CHR 0x0A] @ ''[1,2,3,4,5,6]'')
      [\<lparr>buf = 18, buf_len = 17\<rparr>]
      \<lparr>kind = stdout, buffer = ''13'', posted = ms, debugged = []\<rparr>
    = Some (Inr (0, 17),
            \<lparr>kind = stdout,
              buffer = ''13'' @ [CHR 0x0D, CHR 0x0A, CHR 0x0D, CHR 0x0A] @ ''[1,2,3,4,5,6]'',
              posted = ms, debugged = []\<rparr>)"
  by (cases "JSON_parse (ascii ''tent-Length: '')")
    (simp_all add: fd_write_def stdout_loop.simps new_Stdio_def Let_def TextDecoder_decode_def
      utf8_code_points_def utf8_byte_def utf8_lead_def utf8_start_def code_units_def
      startsWith_def ascii_def parseInt_def is_white_space_def digit_value_def indexOf_def
      slice_from_def slice_def relative_index_def splice0_def)

text \<open>
  The same message split at the middle of its header, after 11 bytes: the first write
  finds a buffer that does not start with \<open>Content-Length: \<close> and posts nothing, and the
  second write posts the message of the body, once.
\<close>

lemma fd_write_split_in_prefix:
  assumes "JSON_parse (ascii ''[1,2,3,4,5,6]'') = Some m"
  shows "fd_write JSON_parse
      (''Content-Length: 13'' @ [CHR 0x0D, CHR 0x0A, CHR 0x0D, CHR 0x0A] @ ''[1,2,3,4,5,6]'')
      [\<lparr>buf = 0, buf_len = 11\<rparr>] (new_Stdio stdout)
    = Some (Inr (0, 11), \<lparr>kind = stdout, buffer = ''Content-Len'', posted = [], debugged = []\<rparr>)"
    and "fd_write JSON_parse
      (''Content-Length: 13'' @ [CHR 0x0D, CHR 0x0A, CHR 0x0D, CHR 0x0A] @ ''[1,2,3,4,5,6]'')
      [\<lparr>buf = 11, buf_len = 24\<rparr>]
      \<lparr>kind = stdout, buffer = ''Content-Len'', posted = [], debugged = []\<rparr>
    = Some (Inr (0, 24), \<lparr>kind = stdout, buffer = [], posted = [m], debugged = []\<rparr>)"
  using assms
  by (simp_all add: fd_write_def stdout_loop.simps new_Stdio_def Let_def TextDecoder_decode_def
      utf8_code_points_def utf8_byte_def utf8_lead_def utf8_start_def code_units_def
      startsWith_def ascii_def parseInt_def is_white_space_def digit_value_def indexOf_def
      slice_from_def slice_def relative_index_def splice0_def)

text \<open>
  C5 at a partition that ends inside the blank line. The 23 bytes are one message with
  the body \<open>{}\<close>; the first write delivers 20 bytes, up to the first three bytes of the blank
  line, the second the other 3. The first write cuts 5 bytes off the buffer and gives
  \<open>te\<close> to \<open>JSON.parse\<close>; the second write finds a buffer that does not start with a header.
  Whatever the two writes post, it is not the message of the body \<open>{}\<close>, which
  \<open>JSON.parse\<close> is never given.
\<close>

theorem fd_write_split_in_blank_line:
  "fd_write JSON_parse
      (''Content-Length: 2'' @ [CHR 0x0D, CHR 0x0A, CHR 0x0D, CHR 0x0A] @ ''{}'')
      [\<lparr>buf = 0, buf_len = 20\<rparr>] (new_Stdio stdout)
    = Some (case JSON_parse (ascii ''te'') of
              None \<Rightarrow> (Inl SyntaxError,
                        \<lparr>kind = stdout, buffer = ''nt-Length: 2'' @ [CHR 0x0D, CHR 0x0A, CHR 0x0D],
                          posted = [], debugged = []\<rparr>)
            | Some m \<Rightarrow> (Inr (0, 20),
                        \<lparr>kind = stdout, buffer = ''nt-Length: 2'' @ [CHR 0x0D, CHR 0x0A, CHR 0x0D],
                          posted = [m], debugged = []\<rparr>))
   \<and> fd_write JSON_parse
      (''Content-Length: 2'' @ [CHR 0x0D, CHR 0x0A, CHR 0x0D, CHR 0x0A] @ ''{}'')
      [\<lparr>buf = 20, buf_len = 3\<rparr>]
      \<lparr>kind = stdout, buffer = ''nt-Length: 2'' @ [CHR 0x0D, CHR 0x0A, CHR 0x0D],
        posted = ms, debugged = []\<rparr>
    = Some (Inr (0, 3),
            \<lparr>kind = stdout,
              buffer = ''nt-Length: 2'' @ [CHR 0x0D, CHR 0x0A, CHR 0x0D, CHR 0x0A] @ ''{}'',
              posted = ms, debugged = []\<rparr>)"
  by (cases "JSON_parse (ascii ''te'')")
    (simp_all add: fd_write_def stdout_loop.simps new_Stdio_def Let_def TextDecoder_decode_def
      utf8_code_points_def utf8_byte_def utf8_lead_def utf8_start_def code_units_def
      startsWith_def ascii_def parseInt_def is_white_space_def digit_value_def indexOf_def
      slice_from_def slice_def relative_index_def splice0_def)

text \<open>
  Two messages in one delivery, the first with a body of 4 bytes and 3 code units (a
  string with the letter U+00E9): the body is cut out of the decoded text by the byte
  count, so \<open>JSON.parse\<close> is given the body and the first letter of the next header; when
  it throws there, no message is posted.
\<close>

lemma fd_write_counts_code_units:
  assumes "JSON_parse [0x22, 0xE9, 0x22, 0x43] = None"
  shows "fd_write JSON_parse
      (''Content-Length: 4'' @ [CHR 0x0D, CHR 0x0A, CHR 0x0D, CHR 0x0A]
         @ [CHR 0x22, CHR 0xC3, CHR 0xA9, CHR 0x22]
         @ ''Content-Length: 2'' @ [CHR 0x0D, CHR 0x0A, CHR 0x0D, CHR 0x0A] @ ''{}'')
      [\<lparr>buf = 0, buf_len = 48\<rparr>] (new_Stdio stdout)
    = Some (Inl SyntaxError,
            \<lparr>kind = stdout,
              buffer = ''Content-Length: 2'' @ [CHR 0x0D, CHR 0x0A, CHR 0x0D, CHR 0x0A] @ ''{}'',
              posted = [], debugged = []\<rparr>)"
  using assms
  by (simp add: fd_write_def stdout_loop.simps new_Stdio_def Let_def TextDecoder_decode_def
      utf8_code_points_def utf8_byte_def utf8_lead_def utf8_start_def code_units_def
      startsWith_def ascii_def parseInt_def is_white_space_def digit_value_def indexOf_def
      slice_from_def slice_def relative_index_def splice0_def)

section \<open>Properties of the request correlation\<close>

lemma old_continuation_mono:
  "old_continuation n i k \<Longrightarrow> n \<le> n' \<Longrightarrow> i \<le> i' \<Longrightarrow> old_continuation n' i' k"
  by (induction n i k rule: old_continuation.induct) auto

lemma request_state:
  "request method ps c =
     (length (promises c),
      c\<lparr>client_id := client_id c + 1,
        promises := promises c @ [Pending, Pending],
        outboundRequests := (outboundRequests c)(IdNumber (client_id c) \<mapsto> Suc (length (promises c))),
        sent := sent c @ [\<lparr>msg_id = Some (IdNumber (client_id c)), msg_method = Some method,
                           msg_params = ps, msg_result = None, msg_error = None\<rparr>],
        continuations := continuations c @
          [(Suc (length (promises c)), AwaitRequest (IdNumber (client_id c)) (length (promises c)))]\<rparr>)"
  by (simp add: request_def Let_def sendMessage_def await_def nth_append)

lemma requests_snoc:
  "requests (reqs @ [req]) c =
     (case request (fst req) (snd req) (snd (requests reqs c)) of
        (h, c1) \<Rightarrow> (fst (requests reqs c) @ [h], c1))"
  by (simp add: requests_def)

lemma requests_state:
  "fst (requests reqs c) = map (\<lambda>k. length (promises c) + 2 * k) [0..<length reqs]
   \<and> promises (snd (requests reqs c)) = promises c @ replicate (2 * length reqs) Pending
   \<and> client_id (snd (requests reqs c)) = client_id c + int (length reqs)
   \<and> microtasks (snd (requests reqs c)) = microtasks c
   \<and> continuations (snd (requests reqs c)) = continuations c @
        map (\<lambda>k. (Suc (length (promises c) + 2 * k),
                   AwaitRequest (IdNumber (client_id c + int k)) (length (promises c) + 2 * k)))
          [0..<length reqs]
   \<and> (\<forall>k < length reqs.
        outboundRequests (snd (requests reqs c)) (IdNumber (client_id c + int k))
          = Some (Suc (length (promises c) + 2 * k)))"
proof (induction reqs rule: rev_induct)
  case Nil
  then show ?case by (simp add: requests_def)
next
  case (snoc req reqs)
  let ?c = "snd (requests reqs c)"
  have rep: "replicate (2 * length reqs) Pending @ [Pending, Pending]
      = replicate (2 * Suc (length reqs)) (Pending :: settled)"
  proof -
    have "replicate (2 * Suc (length reqs)) (Pending :: settled)
        = replicate (2 * length reqs + 2) Pending" by simp
    also have "\<dots> = replicate (2 * length reqs) Pending @ replicate 2 Pending"
      by (rule replicate_add)
    also have "replicate 2 (Pending :: settled) = [Pending, Pending]"
      by (simp add: numeral_2_eq_2)
    finally show ?thesis by simp
  qed
  from snoc show ?case
    by (simp add: requests_snoc request_state rep less_Suc_eq del: replicate.simps)
qed


lemma not_old_issued [simp]: "\<not> old_continuation n0 i0 (issued n0 i0 k)"
  by (simp add: issued_def)

lemma issued_eq [simp]: "(issued n0 i0 k = issued n0 i0 k') = (k = k')"
  by (auto simp: issued_def)

lemma odd_even_handles [simp]:
  "Suc (n + 2 * k) \<noteq> n + 2 * k'" "n + 2 * k' \<noteq> Suc (n + 2 * k)"
  by presburger+

lemma requests_inv_plugins [simp]:
  "requests_inv n0 i0 N outs D (c\<lparr>plugins := x\<rparr>) = requests_inv n0 i0 N outs D c"
  by (simp add: requests_inv_def)

lemma requests_inv_sent [simp]:
  "requests_inv n0 i0 N outs D (c\<lparr>sent := y\<rparr>) = requests_inv n0 i0 N outs D c"
  by (simp add: requests_inv_def)

lemma requests_inv_capabilities [simp]:
  "requests_inv n0 i0 N outs D (c\<lparr>capabilities := z\<rparr>) = requests_inv n0 i0 N outs D c"
  by (simp add: requests_inv_def)

lemma requests_inv_isOpen [simp]:
  "requests_inv n0 i0 N outs D (c\<lparr>isOpen := b\<rparr>) = requests_inv n0 i0 N outs D c"
  by (simp add: requests_inv_def)

lemma requests_inv_console [simp]:
  "requests_inv n0 i0 N outs D (c\<lparr>console := l\<rparr>) = requests_inv n0 i0 N outs D c"
  by (simp add: requests_inv_def)

lemma requests_invI:
  assumes "length (promises c) = n0 + 2 * N"
    and "\<And>k. k < N \<Longrightarrow> outs k \<noteq> Pending"
    and "\<And>hk. hk \<in> set (continuations c) \<Longrightarrow>
           old_continuation n0 i0 (snd hk)
           \<or> (\<exists>k<N. k \<notin> D \<and> hk = (Suc (n0 + 2 * k), issued n0 i0 k))"
    and "\<And>ks. ks \<in> set (microtasks c) \<Longrightarrow>
           old_continuation n0 i0 (fst ks)
           \<or> (\<exists>k<N. k \<in> D \<and> ks = (issued n0 i0 k, outs k))"
    and "\<And>k. k < N \<Longrightarrow> k \<notin> D \<Longrightarrow>
           promises c ! Suc (n0 + 2 * k) = Pending
           \<and> promises c ! (n0 + 2 * k) = Pending
           \<and> outboundRequests c (IdNumber (i0 + int k)) = Some (Suc (n0 + 2 * k))
           \<and> (Suc (n0 + 2 * k), issued n0 i0 k) \<in> set (continuations c)"
    and "\<And>k. k < N \<Longrightarrow> k \<in> D \<Longrightarrow>
           promises c ! Suc (n0 + 2 * k) = outs k
           \<and> (promises c ! (n0 + 2 * k) = outs k
               \<or> promises c ! (n0 + 2 * k) = Pending
                  \<and> (issued n0 i0 k, outs k) \<in> set (microtasks c))"
  shows "requests_inv n0 i0 N outs D c"
  unfolding requests_inv_def using assms by blast

lemma requests_inv_length:
  "requests_inv n0 i0 N outs D c \<Longrightarrow> length (promises c) = n0 + 2 * N"
  by (simp add: requests_inv_def)

lemma requests_inv_outs:
  "requests_inv n0 i0 N outs D c \<Longrightarrow> k < N \<Longrightarrow> outs k \<noteq> Pending"
  by (simp add: requests_inv_def)

lemma requests_inv_continuation:
  "requests_inv n0 i0 N outs D c \<Longrightarrow> hk \<in> set (continuations c) \<Longrightarrow>
     old_continuation n0 i0 (snd hk)
     \<or> (\<exists>k<N. k \<notin> D \<and> hk = (Suc (n0 + 2 * k), issued n0 i0 k))"
  unfolding requests_inv_def by blast

lemma requests_inv_microtask:
  "requests_inv n0 i0 N outs D c \<Longrightarrow> ks \<in> set (microtasks c) \<Longrightarrow>
     old_continuation n0 i0 (fst ks)
     \<or> (\<exists>k<N. k \<in> D \<and> ks = (issued n0 i0 k, outs k))"
  unfolding requests_inv_def by blast

lemma requests_inv_waiting:
  "requests_inv n0 i0 N outs D c \<Longrightarrow> k < N \<Longrightarrow> k \<notin> D \<Longrightarrow>
     promises c ! Suc (n0 + 2 * k) = Pending
     \<and> promises c ! (n0 + 2 * k) = Pending
     \<and> outboundRequests c (IdNumber (i0 + int k)) = Some (Suc (n0 + 2 * k))
     \<and> (Suc (n0 + 2 * k), issued n0 i0 k) \<in> set (continuations c)"
  unfolding requests_inv_def by blast

lemma requests_inv_answered:
  "requests_inv n0 i0 N outs D c \<Longrightarrow> k < N \<Longrightarrow> k \<in> D \<Longrightarrow>
     promises c ! Suc (n0 + 2 * k) = outs k
     \<and> (promises c ! (n0 + 2 * k) = outs k
         \<or> promises c ! (n0 + 2 * k) = Pending
            \<and> (issued n0 i0 k, outs k) \<in> set (microtasks c))"
  unfolding requests_inv_def by blast

lemma settle_unchanged:
  "\<not> (h < length (promises c) \<and> promises c ! h = Pending) \<Longrightarrow> settle h outcome c = c"
  by (auto simp: settle_def)

lemma settle_fields:
  assumes "h < length (promises c)" and "promises c ! h = Pending"
  shows "promises (settle h outcome c) = (promises c)[h := outcome]"
    and "microtasks (settle h outcome c) = microtasks c @
           map (\<lambda>hk. (snd hk, outcome)) (filter (\<lambda>hk. fst hk = h) (continuations c))"
    and "continuations (settle h outcome c) = filter (\<lambda>hk. fst hk \<noteq> h) (continuations c)"
    and "outboundRequests (settle h outcome c) = outboundRequests c"
  using assms by (simp_all add: settle_def)

text \<open>Settling an old promise.\<close>

lemma settle_old:
  assumes inv: "requests_inv n0 i0 N outs D c" and h: "h < n0"
  shows "requests_inv n0 i0 N outs D (settle h outcome c)"
proof (cases "h < length (promises c) \<and> promises c ! h = Pending")
  case False
  then show ?thesis using inv by (simp add: settle_unchanged)
next
  case True
  note f = settle_fields[of h c outcome, OF conjunct1[OF True] conjunct2[OF True]]
  have ne: "Suc (n0 + 2 * k) \<noteq> h" "n0 + 2 * k \<noteq> h" for k using h by simp_all
  show ?thesis
  proof (rule requests_invI)
    show "length (promises (settle h outcome c)) = n0 + 2 * N"
      using requests_inv_length[OF inv] by (simp add: f)
    show "outs k \<noteq> Pending" if "k < N" for k
      using requests_inv_outs[OF inv that] .
    show "old_continuation n0 i0 (snd hk)
           \<or> (\<exists>k<N. k \<notin> D \<and> hk = (Suc (n0 + 2 * k), issued n0 i0 k))"
      if "hk \<in> set (continuations (settle h outcome c))" for hk
      using that requests_inv_continuation[OF inv, of hk] by (simp add: f)
    show "old_continuation n0 i0 (fst ks)
           \<or> (\<exists>k<N. k \<in> D \<and> ks = (issued n0 i0 k, outs k))"
      if "ks \<in> set (microtasks (settle h outcome c))" for ks
    proof -
      from that consider "ks \<in> set (microtasks c)"
        | hk where "hk \<in> set (continuations c)" "fst hk = h" "ks = (snd hk, outcome)"
        by (auto simp: f)
      then show ?thesis
      proof cases
        case 1
        then show ?thesis using requests_inv_microtask[OF inv] by blast
      next
        case 2
        with requests_inv_continuation[OF inv 2(1)] h show ?thesis by auto
      qed
    qed
    show "promises (settle h outcome c) ! Suc (n0 + 2 * k) = Pending
           \<and> promises (settle h outcome c) ! (n0 + 2 * k) = Pending
           \<and> outboundRequests (settle h outcome c) (IdNumber (i0 + int k)) = Some (Suc (n0 + 2 * k))
           \<and> (Suc (n0 + 2 * k), issued n0 i0 k) \<in> set (continuations (settle h outcome c))"
      if "k < N" "k \<notin> D" for k
      using requests_inv_waiting[OF inv that] ne[of k] by (simp add: f)
    show "promises (settle h outcome c) ! Suc (n0 + 2 * k) = outs k
           \<and> (promises (settle h outcome c) ! (n0 + 2 * k) = outs k
               \<or> promises (settle h outcome c) ! (n0 + 2 * k) = Pending
                  \<and> (issued n0 i0 k, outs k) \<in> set (microtasks (settle h outcome c)))"
      if "k < N" "k \<in> D" for k
      using requests_inv_answered[OF inv that] ne[of k] by (auto simp: f)
  qed
qed

text \<open>Settling the promise of a request with the outcome of its response.\<close>

lemma settle_response:
  assumes inv: "requests_inv n0 i0 N outs D c" and j: "j < N" "j \<notin> D"
  shows "requests_inv n0 i0 N outs (insert j D) (settle (Suc (n0 + 2 * j)) (outs j) c)"
proof -
  let ?h = "Suc (n0 + 2 * j)"
  note w = requests_inv_waiting[OF inv j]
  have hl: "?h < length (promises c)" using requests_inv_length[OF inv] j(1) by simp
  have hp: "promises c ! ?h = Pending" using w by simp
  note f = settle_fields[of ?h c "outs j", OF hl hp]
  show ?thesis
  proof (rule requests_invI)
    show "length (promises (settle ?h (outs j) c)) = n0 + 2 * N"
      using requests_inv_length[OF inv] by (simp add: f)
    show "outs k \<noteq> Pending" if "k < N" for k
      using requests_inv_outs[OF inv that] .
    show "old_continuation n0 i0 (snd hk)
           \<or> (\<exists>k<N. k \<notin> insert j D \<and> hk = (Suc (n0 + 2 * k), issued n0 i0 k))"
      if "hk \<in> set (continuations (settle ?h (outs j) c))" for hk
    proof -
      from that have m: "hk \<in> set (continuations c)" and n: "fst hk \<noteq> ?h" by (simp_all add: f)
      from requests_inv_continuation[OF inv m] n show ?thesis by auto
    qed
    show "old_continuation n0 i0 (fst ks)
           \<or> (\<exists>k<N. k \<in> insert j D \<and> ks = (issued n0 i0 k, outs k))"
      if "ks \<in> set (microtasks (settle ?h (outs j) c))" for ks
    proof -
      from that consider "ks \<in> set (microtasks c)"
        | hk where "hk \<in> set (continuations c)" "fst hk = ?h" "ks = (snd hk, outs j)"
        by (auto simp: f)
      then show ?thesis
      proof cases
        case 1
        then show ?thesis using requests_inv_microtask[OF inv] by blast
      next
        case 2
        with requests_inv_continuation[OF inv 2(1)] j(1) show ?thesis by auto
      qed
    qed
    show "promises (settle ?h (outs j) c) ! Suc (n0 + 2 * k) = Pending
           \<and> promises (settle ?h (outs j) c) ! (n0 + 2 * k) = Pending
           \<and> outboundRequests (settle ?h (outs j) c) (IdNumber (i0 + int k)) = Some (Suc (n0 + 2 * k))
           \<and> (Suc (n0 + 2 * k), issued n0 i0 k) \<in> set (continuations (settle ?h (outs j) c))"
      if "k < N" "k \<notin> insert j D" for k
    proof -
      from that have k: "k \<notin> D" "k \<noteq> j" by simp_all
      from requests_inv_waiting[OF inv that(1) k(1)] k(2) show ?thesis by (simp add: f)
    qed
    show "promises (settle ?h (outs j) c) ! Suc (n0 + 2 * k) = outs k
           \<and> (promises (settle ?h (outs j) c) ! (n0 + 2 * k) = outs k
               \<or> promises (settle ?h (outs j) c) ! (n0 + 2 * k) = Pending
                  \<and> (issued n0 i0 k, outs k) \<in> set (microtasks (settle ?h (outs j) c)))"
      if "k < N" "k \<in> insert j D" for k
    proof (cases "k = j")
      case True
      have "(issued n0 i0 j, outs j) \<in> (\<lambda>hk. (snd hk, outs j)) ` {hk \<in> set (continuations c). fst hk = ?h}"
        using w by force
      then show ?thesis using True w hl by (simp add: f)
    next
      case False
      with that have "k \<in> D" by simp
      from requests_inv_answered[OF inv that(1) this] False show ?thesis by (auto simp: f)
    qed
  qed
qed

text \<open>Settling the promise a request returned with the outcome of its response.\<close>

lemma settle_returned:
  assumes inv: "requests_inv n0 i0 N outs D c" and j: "j < N" "j \<in> D"
  shows "requests_inv n0 i0 N outs D (settle (n0 + 2 * j) (outs j) c)"
    and "promises (settle (n0 + 2 * j) (outs j) c) ! (n0 + 2 * j) = outs j"
proof -
  let ?h = "n0 + 2 * j"
  have hl: "?h < length (promises c)" using requests_inv_length[OF inv] j(1) by simp
  note a = requests_inv_answered[OF inv j]
  show "promises (settle ?h (outs j) c) ! ?h = outs j"
    using a hl by (auto simp: settle_def)
  show "requests_inv n0 i0 N outs D (settle ?h (outs j) c)"
  proof (cases "promises c ! ?h = Pending")
    case False
    then show ?thesis using inv by (simp add: settle_unchanged)
  next
    case True
    note f = settle_fields[of ?h c "outs j", OF hl True]
    show ?thesis
    proof (rule requests_invI)
      show "length (promises (settle ?h (outs j) c)) = n0 + 2 * N"
        using requests_inv_length[OF inv] by (simp add: f)
      show "outs k \<noteq> Pending" if "k < N" for k
        using requests_inv_outs[OF inv that] .
      show "old_continuation n0 i0 (snd hk)
             \<or> (\<exists>k<N. k \<notin> D \<and> hk = (Suc (n0 + 2 * k), issued n0 i0 k))"
        if "hk \<in> set (continuations (settle ?h (outs j) c))" for hk
        using that requests_inv_continuation[OF inv, of hk] by (simp add: f)
      show "old_continuation n0 i0 (fst ks)
             \<or> (\<exists>k<N. k \<in> D \<and> ks = (issued n0 i0 k, outs k))"
        if "ks \<in> set (microtasks (settle ?h (outs j) c))" for ks
      proof -
        from that consider "ks \<in> set (microtasks c)"
          | hk where "hk \<in> set (continuations c)" "fst hk = ?h" "ks = (snd hk, outs j)"
          by (auto simp: f)
        then show ?thesis
        proof cases
          case 1
          then show ?thesis using requests_inv_microtask[OF inv] by blast
        next
          case 2
          with requests_inv_continuation[OF inv 2(1)] show ?thesis by auto
        qed
      qed
      show "promises (settle ?h (outs j) c) ! Suc (n0 + 2 * k) = Pending
             \<and> promises (settle ?h (outs j) c) ! (n0 + 2 * k) = Pending
             \<and> outboundRequests (settle ?h (outs j) c) (IdNumber (i0 + int k)) = Some (Suc (n0 + 2 * k))
             \<and> (Suc (n0 + 2 * k), issued n0 i0 k) \<in> set (continuations (settle ?h (outs j) c))"
        if "k < N" "k \<notin> D" for k
      proof -
        from that j have "k \<noteq> j" by auto
        with requests_inv_waiting[OF inv that] show ?thesis by (simp add: f)
      qed
      show "promises (settle ?h (outs j) c) ! Suc (n0 + 2 * k) = outs k
             \<and> (promises (settle ?h (outs j) c) ! (n0 + 2 * k) = outs k
                 \<or> promises (settle ?h (outs j) c) ! (n0 + 2 * k) = Pending
                    \<and> (issued n0 i0 k, outs k) \<in> set (microtasks (settle ?h (outs j) c)))"
        if "k < N" "k \<in> D" for k
      proof (cases "k = j")
        case True
        then show ?thesis using a hl by (simp add: f)
      next
        case False
        from requests_inv_answered[OF inv that] False show ?thesis by (auto simp: f)
      qed
    qed
  qed
qed

text \<open>Taking the first microtask off the queue, and deleting an entry.\<close>

lemma pop_microtask:
  assumes inv: "requests_inv n0 i0 N outs D c" and q: "microtasks c = (kk, st) # rest"
    and fin: "old_continuation n0 i0 kk
               \<or> (\<exists>k<N. kk = issued n0 i0 k \<and> promises c ! (n0 + 2 * k) \<noteq> Pending)"
  shows "requests_inv n0 i0 N outs D (c\<lparr>microtasks := rest\<rparr>)"
proof (rule requests_invI)
  show "length (promises (c\<lparr>microtasks := rest\<rparr>)) = n0 + 2 * N"
    using requests_inv_length[OF inv] by simp
  show "outs k \<noteq> Pending" if "k < N" for k
    using requests_inv_outs[OF inv that] .
  show "old_continuation n0 i0 (snd hk)
         \<or> (\<exists>k<N. k \<notin> D \<and> hk = (Suc (n0 + 2 * k), issued n0 i0 k))"
    if "hk \<in> set (continuations (c\<lparr>microtasks := rest\<rparr>))" for hk
    using that requests_inv_continuation[OF inv, of hk] by simp
  show "old_continuation n0 i0 (fst ks)
         \<or> (\<exists>k<N. k \<in> D \<and> ks = (issued n0 i0 k, outs k))"
    if "ks \<in> set (microtasks (c\<lparr>microtasks := rest\<rparr>))" for ks
    using that requests_inv_microtask[OF inv, of ks] q by simp
  show "promises (c\<lparr>microtasks := rest\<rparr>) ! Suc (n0 + 2 * k) = Pending
         \<and> promises (c\<lparr>microtasks := rest\<rparr>) ! (n0 + 2 * k) = Pending
         \<and> outboundRequests (c\<lparr>microtasks := rest\<rparr>) (IdNumber (i0 + int k)) = Some (Suc (n0 + 2 * k))
         \<and> (Suc (n0 + 2 * k), issued n0 i0 k) \<in> set (continuations (c\<lparr>microtasks := rest\<rparr>))"
    if "k < N" "k \<notin> D" for k
    using requests_inv_waiting[OF inv that] by simp
  show "promises (c\<lparr>microtasks := rest\<rparr>) ! Suc (n0 + 2 * k) = outs k
         \<and> (promises (c\<lparr>microtasks := rest\<rparr>) ! (n0 + 2 * k) = outs k
             \<or> promises (c\<lparr>microtasks := rest\<rparr>) ! (n0 + 2 * k) = Pending
                \<and> (issued n0 i0 k, outs k) \<in> set (microtasks (c\<lparr>microtasks := rest\<rparr>)))"
    if "k < N" "k \<in> D" for k
    using requests_inv_answered[OF inv that] fin q by auto
qed

lemma delete_entry:
  assumes inv: "requests_inv n0 i0 N outs D c"
    and rid: "\<And>k. k < N \<Longrightarrow> k \<notin> D \<Longrightarrow> rid \<noteq> IdNumber (i0 + int k)"
  shows "requests_inv n0 i0 N outs D (c\<lparr>outboundRequests := (outboundRequests c)(rid := None)\<rparr>)"
proof (rule requests_invI)
  let ?c = "c\<lparr>outboundRequests := (outboundRequests c)(rid := None)\<rparr>"
  show "length (promises ?c) = n0 + 2 * N"
    using requests_inv_length[OF inv] by simp
  show "outs k \<noteq> Pending" if "k < N" for k
    using requests_inv_outs[OF inv that] .
  show "old_continuation n0 i0 (snd hk)
         \<or> (\<exists>k<N. k \<notin> D \<and> hk = (Suc (n0 + 2 * k), issued n0 i0 k))"
    if "hk \<in> set (continuations ?c)" for hk
    using that requests_inv_continuation[OF inv, of hk] by simp
  show "old_continuation n0 i0 (fst ks)
         \<or> (\<exists>k<N. k \<in> D \<and> ks = (issued n0 i0 k, outs k))"
    if "ks \<in> set (microtasks ?c)" for ks
    using that requests_inv_microtask[OF inv, of ks] by simp
  show "promises ?c ! Suc (n0 + 2 * k) = Pending
         \<and> promises ?c ! (n0 + 2 * k) = Pending
         \<and> outboundRequests ?c (IdNumber (i0 + int k)) = Some (Suc (n0 + 2 * k))
         \<and> (Suc (n0 + 2 * k), issued n0 i0 k) \<in> set (continuations ?c)"
    if "k < N" "k \<notin> D" for k
    using requests_inv_waiting[OF inv that] rid[OF that] by simp
  show "promises ?c ! Suc (n0 + 2 * k) = outs k
         \<and> (promises ?c ! (n0 + 2 * k) = outs k
             \<or> promises ?c ! (n0 + 2 * k) = Pending
                \<and> (issued n0 i0 k, outs k) \<in> set (microtasks ?c))"
    if "k < N" "k \<in> D" for k
    using requests_inv_answered[OF inv that] by simp
qed

text \<open>The two steps of the event loop keep the state of the requests.\<close>

lemma handleMessage_response:
  assumes inv: "requests_inv n0 i0 N outs D c" and j: "j < N" "j \<notin> D"
    and m: "msg_id m = Some (IdNumber (i0 + int j))" "msg_method m = None"
      "response_outcome m = outs j"
  shows "requests_inv n0 i0 N outs (insert j D) (handleMessage m c)"
proof -
  have e: "outboundRequests c (IdNumber (i0 + int j)) = Some (Suc (n0 + 2 * j))"
    using requests_inv_waiting[OF inv j] by simp
  have "handleMessage m c =
      (settle (Suc (n0 + 2 * j)) (outs j) c)
        \<lparr>plugins := map (LspPlugin_handleMessage m) (plugins (settle (Suc (n0 + 2 * j)) (outs j) c))\<rparr>"
    using m e by (auto simp: handleMessage_def response_outcome_def Let_def split: if_splits)
  then show ?thesis using settle_response[OF inv j] by simp
qed

lemma settle_after_pop:
  "microtasks c = x # rest \<Longrightarrow>
   settle h outcome (c\<lparr>microtasks := rest\<rparr>)
     = (settle h outcome c)\<lparr>microtasks := tl (microtasks (settle h outcome c))\<rparr>"
  by (simp add: settle_def)

lemma microtasks_settle:
  "microtasks c = x # rest \<Longrightarrow> \<exists>rest'. microtasks (settle h outcome c) = x # rest'"
  by (simp add: settle_def)

lemma resume_request:
  assumes inv: "requests_inv n0 i0 N outs D c"
    and q: "microtasks c = (AwaitRequest rid r, st) # rest"
  shows "requests_inv n0 i0 N outs D (resume (AwaitRequest rid r) st (c\<lparr>microtasks := rest\<rparr>))"
proof -
  let ?kk = "AwaitRequest rid r"
  have cls: "old_continuation n0 i0 ?kk \<or> (\<exists>k<N. k \<in> D \<and> (?kk, st) = (issued n0 i0 k, outs k))"
    using requests_inv_microtask[OF inv, of "(?kk, st)"] q by simp
  have settled: "requests_inv n0 i0 N outs D (settle r st c')
      \<and> (old_continuation n0 i0 ?kk
          \<or> (\<exists>k<N. ?kk = issued n0 i0 k \<and> promises (settle r st c') ! (n0 + 2 * k) \<noteq> Pending))"
    if c': "requests_inv n0 i0 N outs D c'" for c'
  proof -
    from cls show ?thesis
    proof
      assume old: "old_continuation n0 i0 ?kk"
      then have "r < n0" by (cases rid) simp_all
      from settle_old[OF c' this] old show ?thesis by simp
    next
      assume "\<exists>k<N. k \<in> D \<and> (?kk, st) = (issued n0 i0 k, outs k)"
      then obtain k where k: "k < N" "k \<in> D" "?kk = issued n0 i0 k" "st = outs k" by auto
      then have r: "r = n0 + 2 * k" by (simp add: issued_def)
      from settle_returned[OF c' k(1,2)] requests_inv_outs[OF c' k(1)] k r show ?thesis
        by auto
    qed
  qed
  have popped: "requests_inv n0 i0 N outs D
                  ((settle r st c')\<lparr>microtasks := tl (microtasks (settle r st c'))\<rparr>)"
    if c': "requests_inv n0 i0 N outs D c'" and q': "microtasks c' = (?kk, st) # rest" for c'
  proof -
    obtain rest' where r': "microtasks (settle r st c') = (?kk, st) # rest'"
      using microtasks_settle[OF q'] by blast
    from settled[OF c'] pop_microtask[of n0 i0 N outs D "settle r st c'" ?kk st rest'] r'
    show ?thesis by auto
  qed
  show ?thesis
  proof (cases st)
    case Pending
    have "old_continuation n0 i0 ?kk"
      using cls Pending requests_inv_outs[OF inv] by (metis prod.inject)
    from pop_microtask[OF inv q] this Pending show ?thesis by simp
  next
    case (Fulfilled v)
    let ?c = "c\<lparr>outboundRequests := (outboundRequests c)(rid := None)\<rparr>"
    have neq: "rid \<noteq> IdNumber (i0 + int k)" if "k < N" "k \<notin> D" for k
      using cls that by (cases rid) (auto simp: issued_def)
    have 1: "requests_inv n0 i0 N outs D ?c" by (rule delete_entry[OF inv neq])
    have 2: "microtasks ?c = (?kk, st) # rest" using q by simp
    have "resume ?kk st (c\<lparr>microtasks := rest\<rparr>) = settle r st (?c\<lparr>microtasks := rest\<rparr>)"
      using Fulfilled by (cases c) simp
    also have "\<dots> = (settle r st ?c)\<lparr>microtasks := tl (microtasks (settle r st ?c))\<rparr>"
      by (rule settle_after_pop[OF 2])
    finally show ?thesis using popped[OF 1 2] by simp
  next
    case (Rejected e)
    have "resume ?kk st (c\<lparr>microtasks := rest\<rparr>) = settle r st (c\<lparr>microtasks := rest\<rparr>)"
      using Rejected by simp
    also have "\<dots> = (settle r st c)\<lparr>microtasks := tl (microtasks (settle r st c))\<rparr>"
      by (rule settle_after_pop[OF q])
    finally show ?thesis using popped[OF inv q] by simp
  qed
qed

lemma run_microtask_requests:
  assumes inv: "requests_inv n0 i0 N outs D c"
  shows "requests_inv n0 i0 N outs D (run_microtask c)"
proof (cases "microtasks c")
  case Nil
  then show ?thesis using inv by (simp add: run_microtask_def)
next
  case (Cons ks rest)
  obtain kk st where ks: "ks = (kk, st)" by (cases ks)
  have q: "microtasks c = (kk, st) # rest" using Cons ks by simp
  have r: "run_microtask c = resume kk st (c\<lparr>microtasks := rest\<rparr>)"
    using q by (simp add: run_microtask_def)
  show ?thesis
  proof (cases kk)
    case (AwaitRequest rid r')
    with resume_request[OF inv q[unfolded AwaitRequest]] r show ?thesis by simp
  next
    case AwaitInitialize
    have p: "requests_inv n0 i0 N outs D (c\<lparr>microtasks := rest\<rparr>)"
      by (rule pop_microtask[OF inv q]) (simp add: AwaitInitialize)
    then show ?thesis unfolding r AwaitInitialize
      by (cases st) (simp_all add: notify_def sendMessage_def split: sum.split)
  next
    case (AwaitInitializePromise i t)
    have p: "requests_inv n0 i0 N outs D (c\<lparr>microtasks := rest\<rparr>)"
      by (rule pop_microtask[OF inv q]) (simp add: AwaitInitializePromise)
    then show ?thesis unfolding r AwaitInitializePromise
      by (cases st)
        (simp_all add: LspPlugin_initialize_resume_def textDocumentDidOpen_def notify_def
          sendMessage_def Let_def)
  qed
qed

lemma run_Cons: "run (ev # evs) c = run evs (step c ev)"
  by (simp add: run_def)

lemma run_append: "run (evs @ evs') c = run evs' (run evs c)"
  by (simp add: run_def)

lemma run_requests:
  assumes "requests_inv n0 i0 N outs D c"
    and "messages evs = map resp js"
    and "distinct js" and "set js \<subseteq> {..<N} - D"
    and "\<And>j. j < N \<Longrightarrow> msg_id (resp j) = Some (IdNumber (i0 + int j))
           \<and> msg_method (resp j) = None \<and> response_outcome (resp j) = outs j"
  shows "requests_inv n0 i0 N outs (D \<union> set js) (run evs c)"
  using assms(1-4)
proof (induction evs arbitrary: c D js)
  case Nil
  then show ?case by (simp add: run_def)
next
  case (Cons ev evs)
  show ?case
  proof (cases ev)
    case (Message m)
    with Cons.prems(2) obtain j js' where js: "js = j # js'" and m: "m = resp j"
      and rest: "messages evs = map resp js'"
      by (cases js) auto
    have j: "j < N" "j \<notin> D" using Cons.prems(4) js by auto
    have 1: "requests_inv n0 i0 N outs (insert j D) (handleMessage m c)"
      using handleMessage_response[OF Cons.prems(1) j] assms(5)[OF j(1)] m by simp
    have 2: "distinct js'" "set js' \<subseteq> {..<N} - insert j D"
      using Cons.prems(3,4) js by auto
    from Cons.IH[OF 1 rest 2] show ?thesis
      by (simp add: run_Cons Message js)
  next
    case Microtask
    from Cons.IH[OF run_microtask_requests[OF Cons.prems(1)]] Cons.prems(2,3,4) Microtask
    show ?thesis by (simp add: run_Cons)
  qed
qed

text \<open>The state right after the requests were issued.\<close>

lemma response_outcome_settled [simp]: "response_outcome m \<noteq> Pending"
  by (simp add: response_outcome_def)

lemma requests_inv_start:
  assumes "client_inv c" and "\<And>k. k < length reqs \<Longrightarrow> outs k \<noteq> Pending"
  shows "requests_inv (length (promises c)) (client_id c) (length reqs) outs {}
           (snd (requests reqs c))"
proof -
  let ?n = "length (promises c)" and ?N = "length reqs"
  note st = requests_state[of reqs c]
  have old_c: "old_continuation ?n (client_id c) (snd hk)" if "hk \<in> set (continuations c)" for hk
    using assms(1) that by (auto simp: client_inv_def list_all_iff)
  have old_m: "old_continuation ?n (client_id c) (fst ks)" if "ks \<in> set (microtasks c)" for ks
    using assms(1) that by (auto simp: client_inv_def list_all_iff)
  have nth: "(promises c @ replicate (2 * ?N) Pending) ! (?n + i) = Pending" if "i < 2 * ?N" for i
    using that by (simp add: nth_append)
  show ?thesis
  proof (rule requests_invI)
    show "length (promises (snd (requests reqs c))) = ?n + 2 * ?N"
      using st by simp
    show "outs k \<noteq> Pending" if "k < ?N" for k using assms(2)[OF that] .
    show "old_continuation ?n (client_id c) (snd hk)
           \<or> (\<exists>k<?N. k \<notin> {} \<and> hk = (Suc (?n + 2 * k), issued ?n (client_id c) k))"
      if "hk \<in> set (continuations (snd (requests reqs c)))" for hk
      using that old_c[of hk] st by (auto simp: issued_def)
    show "old_continuation ?n (client_id c) (fst ks)
           \<or> (\<exists>k<?N. k \<in> {} \<and> ks = (issued ?n (client_id c) k, outs k))"
      if "ks \<in> set (microtasks (snd (requests reqs c)))" for ks
      using that old_m[of ks] st by simp
    show "promises (snd (requests reqs c)) ! Suc (?n + 2 * k) = Pending
           \<and> promises (snd (requests reqs c)) ! (?n + 2 * k) = Pending
           \<and> outboundRequests (snd (requests reqs c)) (IdNumber (client_id c + int k))
               = Some (Suc (?n + 2 * k))
           \<and> (Suc (?n + 2 * k), issued ?n (client_id c) k)
               \<in> set (continuations (snd (requests reqs c)))"
      if "k < ?N" "k \<notin> {}" for k
    proof -
      have a: "promises (snd (requests reqs c)) ! (?n + Suc (2 * k)) = Pending"
        using st nth[of "Suc (2 * k)"] that(1) by simp
      have b: "promises (snd (requests reqs c)) ! (?n + 2 * k) = Pending"
        using st nth[of "2 * k"] that(1) by simp
      have d: "(Suc (?n + 2 * k), issued ?n (client_id c) k)
                 \<in> set (continuations (snd (requests reqs c)))"
        using st that(1) by (auto simp: issued_def)
      from a b d st that(1) show ?thesis by simp
    qed
    show "promises (snd (requests reqs c)) ! Suc (?n + 2 * k) = outs k
           \<and> (promises (snd (requests reqs c)) ! (?n + 2 * k) = outs k
               \<or> promises (snd (requests reqs c)) ! (?n + 2 * k) = Pending
                  \<and> (issued ?n (client_id c) k, outs k) \<in> set (microtasks (snd (requests reqs c))))"
      if "k < ?N" "k \<in> {}" for k
      using that by simp
  qed
qed

text \<open>The microtask queue runs empty.\<close>

lemma settle_measure:
  "length (microtasks (settle h outcome c)) + length (continuations (settle h outcome c))
     = length (microtasks c) + length (continuations c)"
  using sum_length_filter_compl[of "\<lambda>hk. fst hk = h" "continuations c"]
  by (simp add: settle_def)

lemma resume_measure:
  "length (microtasks (resume k outcome c)) + length (continuations (resume k outcome c))
     = length (microtasks c) + length (continuations c)"
proof (cases k)
  case (AwaitRequest rid r)
  then show ?thesis
    using settle_measure[of r outcome c]
      settle_measure[of r outcome "c\<lparr>outboundRequests := (outboundRequests c)(rid := None)\<rparr>"]
    by (cases outcome) simp_all
next
  case AwaitInitialize
  then show ?thesis
    by (cases outcome) (simp_all add: notify_def sendMessage_def split: sum.split)
next
  case (AwaitInitializePromise i t)
  then show ?thesis
    by (cases outcome)
      (simp_all add: LspPlugin_initialize_resume_def textDocumentDidOpen_def notify_def
        sendMessage_def Let_def)
qed

lemma run_microtask_measure:
  assumes "microtasks c \<noteq> []"
  shows "Suc (length (microtasks (run_microtask c)) + length (continuations (run_microtask c)))
           = length (microtasks c) + length (continuations c)"
proof -
  obtain k outcome rest where q: "microtasks c = (k, outcome) # rest"
    using assms by (cases "microtasks c") auto
  show ?thesis
    using resume_measure[of k outcome "c\<lparr>microtasks := rest\<rparr>"] q
    by (simp add: run_microtask_def)
qed

lemma run_microtasks_idle:
  "microtasks c = [] \<Longrightarrow> run (replicate M Microtask) c = c"
  by (induction M) (simp_all add: run_def run_microtask_def)

lemma run_microtasks_empty:
  "length (microtasks c) + length (continuations c) \<le> M \<Longrightarrow>
   microtasks (run (replicate M Microtask) c) = []"
proof (induction M arbitrary: c)
  case 0
  then show ?case by (simp add: run_def)
next
  case (Suc M)
  show ?case
  proof (cases "microtasks c = []")
    case True
    then show ?thesis using run_microtasks_idle[of c "Suc M"] by simp
  next
    case False
    from run_microtask_measure[OF False] Suc.prems
    have "length (microtasks (run_microtask c)) + length (continuations (run_microtask c)) \<le> M"
      by simp
    from Suc.IH[OF this] show ?thesis by (simp add: run_Cons)
  qed
qed

lemma messages_microtasks [simp]: "messages (replicate M Microtask) = []"
  by (induction M) simp_all

text \<open>A response with an id that has no entry.\<close>

lemma handleMessage_unknown_id:
  assumes "msg_id m = Some rid" and "msg_method m = None" and "outboundRequests c rid = None"
  shows "handleMessage m c = c\<lparr>console := console c @ [''Got non-answer'']\<rparr>"
proof -
  have "map (LspPlugin_handleMessage m) ps = ps" for ps
    using assms(2) by (simp add: LspPlugin_handleMessage_def map_idI)
  then show ?thesis using assms by (simp add: handleMessage_def Let_def)
qed

text \<open>A new client has the invariant, and the methods of the client and the event loop keep it.\<close>

lemma client_inv_new: "client_inv (new_LspClient root)"
  by (simp add: client_inv_def new_LspClient_def)

lemma client_inv_settle: "client_inv c \<Longrightarrow> client_inv (settle h outcome c)"
  by (auto simp: client_inv_def settle_def list_all_iff)

lemma client_inv_request:
  assumes "client_inv c"
  shows "client_inv (snd (request method ps c))"
proof -
  have "old_continuation (Suc (Suc (length (promises c)))) (client_id c + 1) k"
    if "old_continuation (length (promises c)) (client_id c) k" for k
    using old_continuation_mono[OF that, of "Suc (Suc (length (promises c)))" "client_id c + 1"]
    by simp
  then show ?thesis using assms
    by (auto simp: request_state client_inv_def list_all_iff)
qed

lemma client_inv_handleMessage: "client_inv c \<Longrightarrow> client_inv (handleMessage m c)"
proof -
  have plugins: "client_inv (c'\<lparr>plugins := x\<rparr>) = client_inv c'" for c' x
    by (simp add: client_inv_def)
  have console: "client_inv (c'\<lparr>console := y\<rparr>) = client_inv c'" for c' y
    by (simp add: client_inv_def)
  show "client_inv c \<Longrightarrow> client_inv (handleMessage m c)"
    by (simp add: handleMessage_def Let_def plugins console client_inv_settle
        split: option.split)
qed

lemma client_inv_resume:
  assumes "client_inv c" and "old_continuation (length (promises c)) (client_id c) k"
  shows "client_inv (resume k outcome c)"
proof (cases k)
  case (AwaitRequest rid r)
  have "client_inv (c\<lparr>outboundRequests := f\<rparr>)" for f
    using assms(1) by (simp add: client_inv_def)
  then show ?thesis using assms(1) AwaitRequest
    by (cases outcome) (simp_all add: client_inv_settle)
next
  case AwaitInitialize
  then show ?thesis using assms(1)
    by (cases outcome)
      (simp_all add: client_inv_def notify_def sendMessage_def split: sum.split)
next
  case (AwaitInitializePromise i t)
  then show ?thesis using assms(1)
    by (cases outcome)
      (simp_all add: client_inv_def LspPlugin_initialize_resume_def textDocumentDidOpen_def
        notify_def sendMessage_def Let_def)
qed

lemma client_inv_run_microtask: "client_inv c \<Longrightarrow> client_inv (run_microtask c)"
proof (cases "microtasks c")
  case Nil
  then show "client_inv c \<Longrightarrow> client_inv (run_microtask c)"
    by (simp add: run_microtask_def)
next
  case (Cons ks rest)
  assume inv: "client_inv c"
  obtain k outcome where ks: "ks = (k, outcome)" by (cases ks)
  have 1: "client_inv (c\<lparr>microtasks := rest\<rparr>)"
    using inv Cons by (simp add: client_inv_def)
  have 2: "old_continuation (length (promises (c\<lparr>microtasks := rest\<rparr>)))
             (client_id (c\<lparr>microtasks := rest\<rparr>)) k"
    using inv Cons ks by (simp add: client_inv_def)
  from client_inv_resume[OF 1 2] Cons ks show "client_inv (run_microtask c)"
    by (simp add: run_microtask_def)
qed

lemma client_inv_sendChange: "client_inv c \<Longrightarrow> client_inv (sendChange i t c)"
  by (simp add: sendChange_def textDocumentDidChange_def notify_def sendMessage_def Let_def
      client_inv_def)

lemma client_inv_new_LspPlugin:
  "client_inv c \<Longrightarrow> client_inv (snd (new_LspPlugin doc html uri lang c))"
  by (auto simp: new_LspPlugin_def LspPlugin_initialize_def LspPlugin_initialize_resume_def
      attachPlugin_def textDocumentDidOpen_def notify_def sendMessage_def await_def Let_def
      client_inv_def split: option.split)

lemma client_inv_LspClient_initialize: "client_inv c \<Longrightarrow> client_inv (LspClient_initialize c)"
proof -
  assume "client_inv c"
  from client_inv_request[OF this, of "''initialize''" "Some (InitializeParams (rootUri c))"]
  show ?thesis
    by (auto simp: LspClient_initialize_def await_def client_inv_def split: prod.split)
qed

text \<open>
  C2. A client in a state with the invariant issues \<open>N\<close> requests together; \<open>resps ! k\<close> is
  the response of request \<open>k\<close>, with its id. The responses are handled in any order
  (\<open>order\<close> is a permutation of the requests), with microtasks run between them at will.
  Then, for every request \<open>k\<close>: the promise of its entry is settled with the outcome of
  its own response (rejected with the error when the response has a truthy one, else
  fulfilled with the result); the promise \<open>request\<close> returned is settled with that
  outcome or is pending with the microtask that settles it queued; and once the queue
  has run empty it is settled with that outcome. A response whose id has no entry
  changes no promise, no entry, no continuation and no microtask. Resolving or
  rejecting a promise that is settled changes nothing, so no promise is settled twice.
\<close>

theorem responses_in_any_order:
  assumes inv: "client_inv c"
    and reqs: "requests reqs c = (hs, c1)"
    and len: "length resps = length reqs"
    and ids: "\<forall>k < length reqs.
                msg_id (resps ! k) = Some (IdNumber (client_id c + int k))
                \<and> msg_method (resps ! k) = None"
    and ord: "distinct order" "set order = {..<length reqs}"
    and evs: "messages evs = map (\<lambda>k. resps ! k) order"
    and k: "k < length reqs"
  shows "promises (run evs c1) ! Suc (hs ! k) = response_outcome (resps ! k)
     \<and> (promises (run evs c1) ! (hs ! k) = response_outcome (resps ! k)
         \<or> promises (run evs c1) ! (hs ! k) = Pending
            \<and> (AwaitRequest (IdNumber (client_id c + int k)) (hs ! k), response_outcome (resps ! k))
                 \<in> set (microtasks (run evs c1)))
     \<and> (\<forall>M. length (microtasks (run evs c1)) + length (continuations (run evs c1)) \<le> M \<longrightarrow>
           promises (run (evs @ replicate M Microtask) c1) ! (hs ! k)
             = response_outcome (resps ! k))
     \<and> (\<forall>m rid c'. msg_id m = Some rid \<and> msg_method m = None \<and> outboundRequests c' rid = None \<longrightarrow>
           promises (handleMessage m c') = promises c'
           \<and> outboundRequests (handleMessage m c') = outboundRequests c'
           \<and> microtasks (handleMessage m c') = microtasks c'
           \<and> continuations (handleMessage m c') = continuations c')
     \<and> (\<forall>h outcome c'. h < length (promises c') \<and> promises c' ! h \<noteq> Pending \<longrightarrow>
           settle h outcome c' = c')"
  (is "?A \<and> ?B \<and> ?C \<and> ?D \<and> ?E")
proof -
  let ?n = "length (promises c)" and ?i = "client_id c" and ?N = "length reqs"
  let ?outs = "\<lambda>k. response_outcome (resps ! k)"
  have c1: "c1 = snd (requests reqs c)" and hs: "hs = fst (requests reqs c)"
    using reqs by simp_all
  have hk: "hs ! k = ?n + 2 * k"
    using requests_state[of reqs c] k by (simp add: hs)
  have start: "requests_inv ?n ?i ?N ?outs {} c1"
    unfolding c1 by (rule requests_inv_start[OF inv]) simp
  have resp: "msg_id (resps ! j) = Some (IdNumber (?i + int j)) \<and> msg_method (resps ! j) = None
      \<and> response_outcome (resps ! j) = ?outs j" if "j < ?N" for j
    using ids that by simp
  have sub: "set order \<subseteq> {..<?N} - {}" using ord(2) by simp
  have "requests_inv ?n ?i ?N ?outs ({} \<union> set order) (run evs c1)"
    by (rule run_requests[OF start evs ord(1) sub resp])
  then have inv2: "requests_inv ?n ?i ?N ?outs (set order) (run evs c1)" by simp
  have kD: "k \<in> set order" using ord(2) k by simp
  note a = requests_inv_answered[OF inv2 k kD]
  have A: ?A using a by (simp add: hk)
  have B: ?B using a by (simp add: hk issued_def)
  have C: ?C
  proof (intro allI impI)
    fix M
    assume M: "length (microtasks (run evs c1)) + length (continuations (run evs c1)) \<le> M"
    let ?c3 = "run (replicate M Microtask) (run evs c1)"
    have e: "messages (replicate M Microtask) = map (\<lambda>k. resps ! k) []" by simp
    have "requests_inv ?n ?i ?N ?outs (set order \<union> set []) ?c3"
      by (rule run_requests[OF inv2 e _ _ resp]) simp_all
    then have inv3: "requests_inv ?n ?i ?N ?outs (set order) ?c3" by simp
    have "microtasks ?c3 = []" by (rule run_microtasks_empty[OF M])
    with requests_inv_answered[OF inv3 k kD]
    show "promises (run (evs @ replicate M Microtask) c1) ! (hs ! k) = ?outs k"
      by (simp add: run_append hk)
  qed
  have D: ?D
  proof (intro allI impI)
    fix m :: JsonRpcMessage and rid and c' :: LspClient
    assume "msg_id m = Some rid \<and> msg_method m = None \<and> outboundRequests c' rid = None"
    then have "handleMessage m c' = c'\<lparr>console := console c' @ [''Got non-answer'']\<rparr>"
      using handleMessage_unknown_id[of m rid c'] by simp
    then show "promises (handleMessage m c') = promises c'
           \<and> outboundRequests (handleMessage m c') = outboundRequests c'
           \<and> microtasks (handleMessage m c') = microtasks c'
           \<and> continuations (handleMessage m c') = continuations c'"
      by simp
  qed
  have E: ?E by (simp add: settle_unchanged)
  from A B C D E show ?thesis by (intro conjI)
qed

theorem responses_in_any_order_witness:
  "client_inv (new_LspClient ''file:///'')
   \<and> requests [(''textDocument/hover'', None :: params option), (''textDocument/completion'', None)] (new_LspClient ''file:///'')
       = ([0, 2], (snd (requests [(''textDocument/hover'', None :: params option), (''textDocument/completion'', None)] (new_LspClient ''file:///''))))
   \<and> length [\<lparr>msg_id = Some (IdNumber 0), msg_method = None, msg_params = None,
        msg_result = Some (JString ''hover''), msg_error = None\<rparr>,
       \<lparr>msg_id = Some (IdNumber 1), msg_method = None, msg_params = None,
        msg_result = None, msg_error = Some (JObject [(''code'', JNumber 1)])\<rparr>] = length [(''textDocument/hover'', None :: params option), (''textDocument/completion'', None)]
   \<and> msg_id ([\<lparr>msg_id = Some (IdNumber 0), msg_method = None, msg_params = None,
        msg_result = Some (JString ''hover''), msg_error = None\<rparr>,
       \<lparr>msg_id = Some (IdNumber 1), msg_method = None, msg_params = None,
        msg_result = None, msg_error = Some (JObject [(''code'', JNumber 1)])\<rparr>] ! 0) = Some (IdNumber (client_id (new_LspClient ''file:///'') + int 0))
   \<and> msg_method ([\<lparr>msg_id = Some (IdNumber 0), msg_method = None, msg_params = None,
        msg_result = Some (JString ''hover''), msg_error = None\<rparr>,
       \<lparr>msg_id = Some (IdNumber 1), msg_method = None, msg_params = None,
        msg_result = None, msg_error = Some (JObject [(''code'', JNumber 1)])\<rparr>] ! 0) = None
   \<and> msg_id ([\<lparr>msg_id = Some (IdNumber 0), msg_method = None, msg_params = None,
        msg_result = Some (JString ''hover''), msg_error = None\<rparr>,
       \<lparr>msg_id = Some (IdNumber 1), msg_method = None, msg_params = None,
        msg_result = None, msg_error = Some (JObject [(''code'', JNumber 1)])\<rparr>] ! 1) = Some (IdNumber (client_id (new_LspClient ''file:///'') + int 1))
   \<and> msg_method ([\<lparr>msg_id = Some (IdNumber 0), msg_method = None, msg_params = None,
        msg_result = Some (JString ''hover''), msg_error = None\<rparr>,
       \<lparr>msg_id = Some (IdNumber 1), msg_method = None, msg_params = None,
        msg_result = None, msg_error = Some (JObject [(''code'', JNumber 1)])\<rparr>] ! 1) = None
   \<and> distinct [1, 0 :: nat]
   \<and> set [1, 0 :: nat] = {..<length [(''textDocument/hover'', None :: params option), (''textDocument/completion'', None)]}
   \<and> messages [Message \<lparr>msg_id = Some (IdNumber 1), msg_method = None, msg_params = None,
        msg_result = None, msg_error = Some (JObject [(''code'', JNumber 1)])\<rparr>,
       Microtask,
       Message \<lparr>msg_id = Some (IdNumber 0), msg_method = None, msg_params = None,
        msg_result = Some (JString ''hover''), msg_error = None\<rparr>]
       = map (\<lambda>k. [\<lparr>msg_id = Some (IdNumber 0), msg_method = None, msg_params = None,
        msg_result = Some (JString ''hover''), msg_error = None\<rparr>,
       \<lparr>msg_id = Some (IdNumber 1), msg_method = None, msg_params = None,
        msg_result = None, msg_error = Some (JObject [(''code'', JNumber 1)])\<rparr>] ! k) [1, 0]
   \<and> (0 :: nat) < length [(''textDocument/hover'', None :: params option), (''textDocument/completion'', None)]
   \<and> promises (run [Message \<lparr>msg_id = Some (IdNumber 1), msg_method = None, msg_params = None,
        msg_result = None, msg_error = Some (JObject [(''code'', JNumber 1)])\<rparr>,
       Microtask,
       Message \<lparr>msg_id = Some (IdNumber 0), msg_method = None, msg_params = None,
        msg_result = Some (JString ''hover''), msg_error = None\<rparr>] (snd (requests [(''textDocument/hover'', None :: params option), (''textDocument/completion'', None)] (new_LspClient ''file:///'')))) ! Suc 0
       = Fulfilled (Some (JString ''hover''))
   \<and> promises (run [Message \<lparr>msg_id = Some (IdNumber 1), msg_method = None, msg_params = None,
        msg_result = None, msg_error = Some (JObject [(''code'', JNumber 1)])\<rparr>,
       Microtask,
       Message \<lparr>msg_id = Some (IdNumber 0), msg_method = None, msg_params = None,
        msg_result = Some (JString ''hover''), msg_error = None\<rparr>] (snd (requests [(''textDocument/hover'', None :: params option), (''textDocument/completion'', None)] (new_LspClient ''file:///'')))) ! 0 = Pending
   \<and> promises (run ([Message \<lparr>msg_id = Some (IdNumber 1), msg_method = None, msg_params = None,
        msg_result = None, msg_error = Some (JObject [(''code'', JNumber 1)])\<rparr>,
       Microtask,
       Message \<lparr>msg_id = Some (IdNumber 0), msg_method = None, msg_params = None,
        msg_result = Some (JString ''hover''), msg_error = None\<rparr>] @ replicate 1 Microtask) (snd (requests [(''textDocument/hover'', None :: params option), (''textDocument/completion'', None)] (new_LspClient ''file:///'')))) ! 0
       = Fulfilled (Some (JString ''hover''))"
  (is "?inv \<and> ?reqs \<and> ?len \<and> ?id0 \<and> ?me0 \<and> ?id1 \<and> ?me1 \<and> ?dis \<and> ?set \<and> ?evs \<and> ?k
       \<and> ?entry \<and> ?pending \<and> ?returned")
proof -
  note defs = requests_def request_def await_def sendMessage_def new_LspClient_def Let_def
    run_def handleMessage_def settle_def run_microtask_def LspPlugin_handleMessage_def
  have inv: ?inv by (simp add: client_inv_def new_LspClient_def)
  have reqs: ?reqs by (simp add: defs)
  have len: ?len by simp
  have id0: ?id0 and me0: ?me0 and id1: ?id1 and me1: ?me1
    by (simp_all add: new_LspClient_def)
  have ids: "\<forall>k < length [(''textDocument/hover'', None :: params option), (''textDocument/completion'', None)].
      msg_id ([\<lparr>msg_id = Some (IdNumber 0), msg_method = None, msg_params = None,
        msg_result = Some (JString ''hover''), msg_error = None\<rparr>,
       \<lparr>msg_id = Some (IdNumber 1), msg_method = None, msg_params = None,
        msg_result = None, msg_error = Some (JObject [(''code'', JNumber 1)])\<rparr>] ! k)
        = Some (IdNumber (client_id (new_LspClient ''file:///'') + int k))
      \<and> msg_method ([\<lparr>msg_id = Some (IdNumber 0), msg_method = None, msg_params = None,
        msg_result = Some (JString ''hover''), msg_error = None\<rparr>,
       \<lparr>msg_id = Some (IdNumber 1), msg_method = None, msg_params = None,
        msg_result = None, msg_error = Some (JObject [(''code'', JNumber 1)])\<rparr>] ! k) = None"
    by (simp add: new_LspClient_def less_Suc_eq numeral_2_eq_2)
  have dis: ?dis by simp
  have st: ?set by auto
  have evs: ?evs by simp
  have k: ?k by simp
  have pending: ?pending by (simp add: defs)
  have small: "length (microtasks (run [Message \<lparr>msg_id = Some (IdNumber 1), msg_method = None, msg_params = None,
        msg_result = None, msg_error = Some (JObject [(''code'', JNumber 1)])\<rparr>,
       Microtask,
       Message \<lparr>msg_id = Some (IdNumber 0), msg_method = None, msg_params = None,
        msg_result = Some (JString ''hover''), msg_error = None\<rparr>] (snd (requests [(''textDocument/hover'', None :: params option), (''textDocument/completion'', None)] (new_LspClient ''file:///'')))))
      + length (continuations (run [Message \<lparr>msg_id = Some (IdNumber 1), msg_method = None, msg_params = None,
        msg_result = None, msg_error = Some (JObject [(''code'', JNumber 1)])\<rparr>,
       Microtask,
       Message \<lparr>msg_id = Some (IdNumber 0), msg_method = None, msg_params = None,
        msg_result = Some (JString ''hover''), msg_error = None\<rparr>] (snd (requests [(''textDocument/hover'', None :: params option), (''textDocument/completion'', None)] (new_LspClient ''file:///''))))) \<le> 1"
    by (simp add: defs)
  note t = responses_in_any_order[OF inv reqs len ids dis st evs k]
  have entry: ?entry
    using conjunct1[OF t] by (simp add: response_outcome_def)
  have returned: ?returned
    using conjunct1[OF conjunct2[OF conjunct2[OF t]], rule_format, OF small]
    by (simp add: response_outcome_def)
  from inv reqs len id0 me0 id1 me1 dis st evs k entry pending returned show ?thesis
    by (intro conjI)
qed

section \<open>Properties of a document session\<close>

lemma document_notifications_append [simp]:
  "document_notifications uri (xs @ ys)
     = document_notifications uri xs @ document_notifications uri ys"
  by (simp add: document_notifications_def map_filter_def)

lemma document_notifications_Nil [simp]: "document_notifications uri [] = []"
  by (simp add: document_notifications_def map_filter_def)



lemma session_log_open: "session_log None n @ [Opened n] = session_log (Some n) n"
  by simp

text \<open>The invariant \<open>plugins_inv\<close>: a new client has it and every call keeps it.\<close>

lemma plugin_continuation_mono:
  "plugin_continuation n k \<Longrightarrow> n \<le> n' \<Longrightarrow> plugin_continuation n' k"
  by (cases k) simp_all


lemma plugins_inv_settle: "plugins_inv c \<Longrightarrow> plugins_inv (settle h outcome c)"
  by (auto simp: plugins_inv_def settle_def list_all_iff)

lemma plugins_inv_await:
  "plugins_inv c \<Longrightarrow> plugin_continuation (length (plugins c)) k \<Longrightarrow> plugins_inv (await h k c)"
  by (simp add: plugins_inv_def await_def)

lemma plugins_inv_request: "plugins_inv c \<Longrightarrow> plugins_inv (snd (request method ps c))"
  by (simp add: request_state plugins_inv_def)

lemma plugins_inv_sendChange: "plugins_inv c \<Longrightarrow> plugins_inv (sendChange j t c)"
  by (simp add: sendChange_def textDocumentDidChange_def notify_def sendMessage_def Let_def
      plugins_inv_def)

lemma plugins_inv_handleMessage: "plugins_inv c \<Longrightarrow> plugins_inv (handleMessage m c)"
proof -
  assume inv: "plugins_inv c"
  have p: "plugins_inv (c'\<lparr>plugins := map f (plugins c')\<rparr>) = plugins_inv c'" for c' f
    by (simp add: plugins_inv_def)
  have "plugins_inv (c\<lparr>console := x\<rparr>)" for x
    using inv by (simp add: plugins_inv_def)
  then show ?thesis
    using inv by (simp add: handleMessage_def Let_def p plugins_inv_settle split: option.split)
qed

lemma plugins_inv_initialize_resume:
  "plugins_inv c \<Longrightarrow> plugins_inv (LspPlugin_initialize_resume j text c)"
  by (simp add: LspPlugin_initialize_resume_def textDocumentDidOpen_def notify_def
      sendMessage_def Let_def plugins_inv_def)

lemma plugins_inv_resume: "plugins_inv c \<Longrightarrow> plugins_inv (resume k outcome c)"
proof (induction k outcome c rule: resume.induct)
  case (1 rid returned v c)
  have "plugins_inv (c\<lparr>outboundRequests := (outboundRequests c)(rid := None)\<rparr>)"
    using 1 by (simp add: plugins_inv_def)
  then show ?case by (simp add: plugins_inv_settle)
next
  case (3 v c)
  then show ?case
    by (simp add: notify_def sendMessage_def plugins_inv_def split: sum.split)
qed (simp_all add: plugins_inv_settle plugins_inv_initialize_resume)

lemma plugins_inv_run_microtask: "plugins_inv c \<Longrightarrow> plugins_inv (run_microtask c)"
proof (cases "microtasks c")
  case Nil
  then show "plugins_inv c \<Longrightarrow> plugins_inv (run_microtask c)"
    by (simp add: run_microtask_def)
next
  case (Cons ks rest)
  assume "plugins_inv c"
  then have "plugins_inv (c\<lparr>microtasks := rest\<rparr>)"
    using Cons by (simp add: plugins_inv_def)
  then show "plugins_inv (run_microtask c)"
    using Cons by (cases ks) (simp add: run_microtask_def plugins_inv_resume)
qed

lemma plugins_inv_new_LspPlugin:
  "plugins_inv c \<Longrightarrow> plugins_inv (snd (new_LspPlugin doc html uri lang c))"
  by (auto simp: new_LspPlugin_def LspPlugin_initialize_def LspPlugin_initialize_resume_def
      attachPlugin_def textDocumentDidOpen_def notify_def sendMessage_def await_def Let_def
      plugins_inv_def list_all_iff
      intro: plugin_continuation_mono split: option.split)

lemma plugins_inv_LspClient_initialize: "plugins_inv c \<Longrightarrow> plugins_inv (LspClient_initialize c)"
  by (simp add: LspClient_initialize_def request_state await_def plugins_inv_def nth_append)

lemma requestCompletion_cases:
  assumes "requestCompletion j doc pos tk tc c = Inr (h, c1)"
  shows "c1 = c
     \<or> c1 = snd (request ''textDocument/completion''
                   (Some (CompletionParams (documentUri (plugins c ! j)) pos tk tc))
                   (sendChange j (doc_toString doc) c))"
  using assms
  by (auto simp: requestCompletion_def textDocumentCompletion_def
      split: if_splits sum.splits prod.splits)

lemma plugins_inv_requestCompletion:
  assumes "plugins_inv c" and "requestCompletion j doc pos tk tc c = Inr (h, c1)"
  shows "plugins_inv c1"
  using requestCompletion_cases[OF assms(2)] assms(1)
    plugins_inv_request[OF plugins_inv_sendChange[OF assms(1)]]
  by auto

lemma plugins_inv_call_step: "plugins_inv c \<Longrightarrow> plugins_inv (call_step c call)"
proof (cases call)
  case (Complete j doc pos tk tc)
  assume "plugins_inv c"
  then show ?thesis
    using Complete plugins_inv_requestCompletion[of c j doc pos tk tc]
    by (auto split: sum.splits)
next
  case (Event ev)
  assume "plugins_inv c"
  then show ?thesis
    using Event by (cases ev) (simp_all add: plugins_inv_handleMessage plugins_inv_run_microtask)
qed (simp_all add: plugins_inv_sendChange plugins_inv_request plugins_inv_LspClient_initialize
    plugins_inv_new_LspPlugin)


























lemma sendChange_length: "length (plugins (sendChange j t c)) = length (plugins c)"
  by (simp add: sendChange_def textDocumentDidChange_def notify_def sendMessage_def Let_def)











text \<open>
  What the theorem asks of the other plugins is needed to tell the notifications of the
  session from theirs: two plugins for one document, on an open client, each count
  their own changes, and the notifications of the document are then opened 0, opened 0,
  changed 0, changed 0.
\<close>

lemma two_plugins_one_document:
  "document_notifications ''file:///main.zig''
     (sent (run_calls [Construct [''a''] False ''file:///main.zig'' ''zig'',
                       Change 0 ''ab'', Change 1 ''ac'']
        (snd (new_LspPlugin [''a''] False ''file:///main.zig'' ''zig''
               ((new_LspClient ''file:///'')\<lparr>isOpen := True\<rparr>)))))
     = [Opened 0, Opened 0, Changed 0, Changed 0]"
  by (simp add: run_calls_def new_LspPlugin_def LspPlugin_initialize_def
      LspPlugin_initialize_resume_def attachPlugin_def textDocumentDidOpen_def
      textDocumentDidChange_def notify_def sendMessage_def sendChange_def new_LspClient_def
      document_notifications_def map_filter_def document_notification_def Let_def)

end
